theory Spec2Isabelle
  imports Complex_Main "HOL-Library.Extended_Nat" "HOL-Library.AList"
begin

text \<open>
  A model of the telemetry engine of the athlete-monitoring dashboard: the message
  validator and the reconnecting connection manager of \<^verbatim>\<open>websocket.js\<close>, the bounded
  session store of \<^verbatim>\<open>storage.js\<close>, and the heart-rate classification of
  \<^verbatim>\<open>dashboard.js\<close> and \<^verbatim>\<open>charts.js\<close>.  The first part gives the definitions, function
  by function as the program has them; the second part states and proves the properties.
  What the browser contributes (the sockets and timeouts, the clock, the storage and its
  quota, the JSON codec) appears as explicit state or as an argument.
\<close>

section \<open>JavaScript values\<close>

text \<open>
  A JavaScript number is \<open>NaN\<close>, one of the two infinities, or a finite value, given by
  a real.  Comparisons are those of the program; where the program adds or divides, the
  operands are binary64 numbers and the result is rounded to binary64 (\<open>round64\<close>
  below); the sign of zero is left out.
\<close>

datatype number = NaN | NegInfinity | Finite real | Infinity

text \<open>
  The values a decoded message or a stored document can be.  An object is the list of its
  own properties, in insertion order; an array carries its elements and, apart from them,
  the named properties assigned to it (none after \<open>JSON.parse\<close>).
\<close>

datatype js =
    Undefined
  | Null
  | Boolean bool
  | Num number
  | Str string
  | Arr "js list" "(string \<times> js) list"
  | Obj "(string \<times> js) list"

fun typeof :: "js \<Rightarrow> string" where
  "typeof Undefined = ''undefined''"
| "typeof Null = ''object''"
| "typeof (Boolean b) = ''boolean''"
| "typeof (Num n) = ''number''"
| "typeof (Str s) = ''string''"
| "typeof (Arr xs ps) = ''object''"
| "typeof (Obj ps) = ''object''"

text \<open>
  \<open>get v k\<close> is the read \<open>v.k\<close> of a named own property where the read does not throw
  (\<open>v\<close> is neither \<open>null\<close> nor \<open>undefined\<close>).  The program reads fixed names only
  (\<open>heartRate\<close>, \<open>data\<close>, ...), none of them an array index, \<open>length\<close> or an inherited
  member, so a missing name reads as \<open>undefined\<close>.
\<close>

fun own_props :: "js \<Rightarrow> (string \<times> js) list option" where
  "own_props (Obj ps) = Some ps"
| "own_props (Arr xs ps) = Some ps"
| "own_props v = None"

definition get :: "js \<Rightarrow> string \<Rightarrow> js" where
  "get v k =
     (case own_props v of
        None \<Rightarrow> Undefined
      | Some ps \<Rightarrow> (case map_of ps k of None \<Rightarrow> Undefined | Some x \<Rightarrow> x))"

section \<open>Ingestion validator (websocket.js)\<close>

text \<open>
  \<^verbatim>\<open>validateData(data)\<close>: a conjunction evaluated left to right, so the property reads
  happen only once \<open>data\<close> is known to be a non-null object.
\<close>

definition validateData :: "js \<Rightarrow> bool" where
  "validateData data \<longleftrightarrow>
     typeof data = ''object'' \<and>
     data \<noteq> Null \<and>
     typeof (get data ''heartRate'') = ''number'' \<and>
     typeof (get data ''spO2'') = ''number'' \<and>
     typeof (get data ''squatCount'') = ''number'' \<and>
     typeof (get data ''postureStatus'') = ''string'' \<and>
     typeof (get data ''fingerDetected'') = ''boolean'' \<and>
     typeof (get data ''fallDetected'') = ''boolean''"


section \<open>Arithmetic and comparison of numbers\<close>

fun isNaN :: "number \<Rightarrow> bool" where
  "isNaN NaN = True"
| "isNaN n = False"

text \<open>\<open>a <= b\<close> and \<open>a < b\<close>: false as soon as one side is \<open>NaN\<close>.\<close>

fun num_le :: "number \<Rightarrow> number \<Rightarrow> bool" where
  "num_le NaN b = False"
| "num_le a NaN = False"
| "num_le NegInfinity b = True"
| "num_le a Infinity = True"
| "num_le (Finite x) (Finite y) = (x \<le> y)"
| "num_le a b = False"

fun num_lt :: "number \<Rightarrow> number \<Rightarrow> bool" where
  "num_lt NaN b = False"
| "num_lt a NaN = False"
| "num_lt Infinity b = False"
| "num_lt a NegInfinity = False"
| "num_lt (Finite x) (Finite y) = (x < y)"
| "num_lt a b = True"

abbreviation num_ge :: "number \<Rightarrow> number \<Rightarrow> bool" where
  "num_ge a b \<equiv> num_le b a"

abbreviation num_gt :: "number \<Rightarrow> number \<Rightarrow> bool" where
  "num_gt a b \<equiv> num_lt b a"

fun num_neg :: "number \<Rightarrow> number" where
  "num_neg NaN = NaN"
| "num_neg NegInfinity = Infinity"
| "num_neg Infinity = NegInfinity"
| "num_neg (Finite x) = Finite (- x)"

text \<open>
  The rounding of a real to binary64, to nearest with ties to even: the multiple of the
  unit in the last place of the binade of \<open>x\<close> (53 significant bits, the least exponent
  -1022) that is nearest to \<open>x\<close>, of two nearest ones the one with an even multiplier, and
  an infinity once that multiple is \<open>2 ^ 1024\<close> or beyond.
\<close>

definition round_half_even :: "real \<Rightarrow> int" where
  "round_half_even q =
     (let f = \<lfloor>q\<rfloor>
      in if q - of_int f < 1 / 2 then f
         else if 1 / 2 < q - of_int f then f + 1
         else if even f then f else f + 1)"

definition exponent64 :: "real \<Rightarrow> int" where
  "exponent64 x = max \<lfloor>log 2 \<bar>x\<bar>\<rfloor> (- 1022)"

definition ulp64 :: "real \<Rightarrow> real" where
  "ulp64 x = 2 powr (of_int (exponent64 x) - 52)"

definition round64 :: "real \<Rightarrow> number" where
  "round64 x =
     (if x = 0 then Finite 0
      else
        let y = of_int (round_half_even (x / ulp64 x)) * ulp64 x
        in if 2 powr 1024 \<le> \<bar>y\<bar> then (if 0 < x then Infinity else NegInfinity)
           else Finite y)"

text \<open>
  A finite value stands for the binary64 number nearest to it, the number that
  \<^verbatim>\<open>JSON.parse\<close> reads a numeral as (\<open>105.2\<close> is read as \<open>7402791887490253 / 2 ^ 46\<close>); it is
  taken there before it is added or divided, which changes nothing on a value that is a
  binary64 number.
\<close>

definition binary64 :: "number \<Rightarrow> number" where
  "binary64 v = (case v of Finite x \<Rightarrow> round64 x | _ \<Rightarrow> v)"

text \<open>\<open>a + b\<close> on numbers: the exact sum of two finite binary64 values, rounded.\<close>

fun add64 :: "number \<Rightarrow> number \<Rightarrow> number" where
  "add64 NaN b = NaN"
| "add64 a NaN = NaN"
| "add64 Infinity NegInfinity = NaN"
| "add64 NegInfinity Infinity = NaN"
| "add64 Infinity b = Infinity"
| "add64 a Infinity = Infinity"
| "add64 NegInfinity b = NegInfinity"
| "add64 a NegInfinity = NegInfinity"
| "add64 (Finite x) (Finite y) = round64 (x + y)"

definition num_add :: "number \<Rightarrow> number \<Rightarrow> number" where
  "num_add a b = add64 (binary64 a) (binary64 b)"

definition num_sub :: "number \<Rightarrow> number \<Rightarrow> number" where
  "num_sub a b = num_add a (num_neg b)"

text \<open>
  \<open>a / n\<close> for a divisor that is the length of a list, the only division the program
  performs: the exact quotient of a finite binary64 value by the count, rounded.
\<close>

definition div_count :: "number \<Rightarrow> nat \<Rightarrow> number" where
  "div_count a n =
     (case binary64 a of
        Finite x \<Rightarrow>
          if n = 0 then (if x = 0 then NaN else if 0 < x then Infinity else NegInfinity)
          else round64 (x / real n)
      | s \<Rightarrow> s)"

text \<open>\<open>Math.round\<close>: the nearest integer, a half rounding up.\<close>

fun Math_round :: "number \<Rightarrow> number" where
  "Math_round (Finite x) = Finite (of_int \<lfloor>x + 1 / 2\<rfloor>)"
| "Math_round a = a"

text \<open>
  \<open>Math.min(...xs)\<close> and \<open>Math.max(...xs)\<close>: \<open>NaN\<close> when an argument is \<open>NaN\<close>, the
  infinities on no argument.
\<close>

definition min2 :: "number \<Rightarrow> number \<Rightarrow> number" where
  "min2 a b = (if isNaN a \<or> isNaN b then NaN else if num_le a b then a else b)"

definition max2 :: "number \<Rightarrow> number \<Rightarrow> number" where
  "max2 a b = (if isNaN a \<or> isNaN b then NaN else if num_le a b then b else a)"

definition Math_min :: "number list \<Rightarrow> number" where
  "Math_min xs = foldl min2 Infinity xs"

definition Math_max :: "number list \<Rightarrow> number" where
  "Math_max xs = foldl max2 NegInfinity xs"

section \<open>Metrics classifier (dashboard.js, charts.js)\<close>

text \<open>
  The part of the page that \<^verbatim>\<open>updateHeartRate\<close> writes: the shown number (\<open>None\<close> is the
  placeholder \<^verbatim>\<open>--\<close>), the status text, the two class names, and the previous value kept
  for the trend arrow.
\<close>

record heart_rate_view =
  hrNumber :: "number option"
  hrStatus :: string
  heartRateClass :: string
  hrTrendClass :: string
  lastHeartRate :: "number option"

text \<open>
  \<^verbatim>\<open>updateHeartRate(value)\<close>; the argument is a validated \<open>heartRate\<close> or \<open>null\<close> (from
  \<^verbatim>\<open>resetDisplay\<close>), the latter \<open>None\<close>.
\<close>

definition updateHeartRate :: "number option \<Rightarrow> heart_rate_view \<Rightarrow> heart_rate_view" where
  "updateHeartRate value c =
     (if value = None \<or> isNaN (the value) then
        c\<lparr>hrNumber := None, hrStatus := ''No data'', heartRateClass := ''metric-value''\<rparr>
      else
        let v = the value;
            (status, className) =
              (if num_ge v (Finite 60) \<and> num_le v (Finite 100) then
                 (''Normal'', ''metric-value status-normal'')
               else if num_ge v (Finite 101) \<and> num_le v (Finite 120) then
                 (''Elevated'', ''metric-value status-warning'')
               else
                 (''High'', ''metric-value status-danger''));
            trend =
              (case lastHeartRate c of
                 None \<Rightarrow> hrTrendClass c
               | Some l \<Rightarrow>
                   if num_gt v (num_add l (Finite 2)) then ''trend-arrow trend-up''
                   else if num_lt v (num_sub l (Finite 2)) then ''trend-arrow trend-down''
                   else ''trend-arrow trend-stable'')
        in c\<lparr>hrNumber := Some (Math_round v), hrTrendClass := trend,
              heartRateClass := className, hrStatus := status, lastHeartRate := Some v\<rparr>)"

record colors =
  border :: string
  background :: string

definition getHeartRateColor :: "number \<Rightarrow> colors" where
  "getHeartRateColor v =
     (if num_ge v (Finite 60) \<and> num_le v (Finite 100) then
        \<lparr>border = ''#10b981'', background = ''rgba(16, 185, 129, 0.1)''\<rparr>
      else if num_ge v (Finite 101) \<and> num_le v (Finite 120) then
        \<lparr>border = ''#f59e0b'', background = ''rgba(245, 158, 11, 0.1)''\<rparr>
      else
        \<lparr>border = ''#ef4444'', background = ''rgba(239, 68, 68, 0.1)''\<rparr>)"


section \<open>Connection manager (websocket.js)\<close>

datatype ready_state = CONNECTING | OPEN | CLOSING | CLOSED

text \<open>
  The fields of \<^verbatim>\<open>WebSocketManager\<close> that reconnection depends on, followed by the part
  of the browser it acts upon: every \<^verbatim>\<open>WebSocket\<close> created so far with its ready state
  (\<open>ws\<close> refers to one by its position), the pending timeouts as pairs of handle and delay
  in milliseconds (handles are issued from 1, so a handle is never falsy), the states
  passed to \<^verbatim>\<open>updateConnectionState\<close>, and the pairs of attempt and delay that
  \<^verbatim>\<open>scheduleReconnect\<close> writes to the console, oldest first.  The message counters,
  the message passed along with a state and the callbacks of the dashboard play no part
  in reconnection and are left out.
\<close>

record manager =
  url :: string
  ws :: "nat option"
  reconnectAttempts :: nat
  maxReconnectAttempts :: enat
  reconnectDelay :: nat
  maxReconnectDelay :: nat
  reconnectTimeout :: "nat option"
  isManualDisconnect :: bool
  sockets :: "ready_state list"
  timers :: "(nat \<times> nat) list"
  timersIssued :: nat
  stateChanges :: "string list"
  scheduled :: "(nat \<times> nat) list"

text \<open>The constructor, with its default address.\<close>

definition WebSocketManager :: manager where
  "WebSocketManager =
     \<lparr>url = ''ws://10.165.122.115:81'', ws = None, reconnectAttempts = 0,
      maxReconnectAttempts = \<infinity>, reconnectDelay = 1000, maxReconnectDelay = 30000,
      reconnectTimeout = None, isManualDisconnect = False,
      sockets = [], timers = [], timersIssued = 0, stateChanges = [], scheduled = []\<rparr>"

definition updateConnectionState :: "string \<Rightarrow> manager \<Rightarrow> manager" where
  "updateConnectionState state m = m\<lparr>stateChanges := stateChanges m @ [state]\<rparr>"

text \<open>\<^verbatim>\<open>setTimeout\<close> and \<^verbatim>\<open>clearTimeout\<close>.\<close>

definition setTimeout :: "nat \<Rightarrow> manager \<Rightarrow> nat \<times> manager" where
  "setTimeout delay m =
     (let h = timersIssued m + 1
      in (h, m\<lparr>timers := timers m @ [(h, delay)], timersIssued := h\<rparr>))"

definition clearTimeout :: "nat \<Rightarrow> manager \<Rightarrow> manager" where
  "clearTimeout h m = m\<lparr>timers := filter (\<lambda>t. fst t \<noteq> h) (timers m)\<rparr>"

definition scheduleReconnect :: "manager \<Rightarrow> manager" where
  "scheduleReconnect m =
     (if isManualDisconnect m then m
      else
        let m1 = m\<lparr>reconnectAttempts := reconnectAttempts m + 1\<rparr>;
            delay = min (reconnectDelay m1 * 2 ^ (reconnectAttempts m1 - 1)) (maxReconnectDelay m1);
            m2 = updateConnectionState ''connecting''
                   (m1\<lparr>scheduled := scheduled m1 @ [(reconnectAttempts m1, delay)]\<rparr>);
            (h, m3) = setTimeout delay m2
        in m3\<lparr>reconnectTimeout := Some h\<rparr>)"

text \<open>
  The ready state of a socket the manager refers to.  References are positions of sockets
  created earlier; the last case totalises the function.
\<close>

definition readyState :: "manager \<Rightarrow> nat \<Rightarrow> ready_state" where
  "readyState m i = (if i < length (sockets m) then sockets m ! i else CLOSED)"

text \<open>
  \<^verbatim>\<open>connect(url = null)\<close>.  \<open>valid\<close> tells for which addresses \<^verbatim>\<open>new WebSocket(url)\<close>
  returns; for the others it throws and the \<^verbatim>\<open>catch\<close> branch runs.
\<close>

definition connect :: "(string \<Rightarrow> bool) \<Rightarrow> string option \<Rightarrow> manager \<Rightarrow> manager" where
  "connect valid u m =
     (let m1 = (case u of None \<Rightarrow> m | Some a \<Rightarrow> if a \<noteq> [] then m\<lparr>url := a\<rparr> else m)
      in if (case ws m1 of
               None \<Rightarrow> False
             | Some i \<Rightarrow> readyState m1 i = CONNECTING \<or> readyState m1 i = OPEN)
         then m1
         else
           let m2 = updateConnectionState ''connecting'' (m1\<lparr>isManualDisconnect := False\<rparr>)
           in if valid (url m2)
              then m2\<lparr>sockets := sockets m2 @ [CONNECTING], ws := Some (length (sockets m2))\<rparr>
              else scheduleReconnect (updateConnectionState ''error'' m2))"

text \<open>\<^verbatim>\<open>ws.close()\<close>: a socket that is connecting or open starts closing.\<close>

definition close_socket :: "nat \<Rightarrow> ready_state list \<Rightarrow> ready_state list" where
  "close_socket i ss =
     (if i < length ss \<and> (ss ! i = CONNECTING \<or> ss ! i = OPEN) then ss[i := CLOSING] else ss)"

definition disconnect :: "manager \<Rightarrow> manager" where
  "disconnect m =
     (let m1 = m\<lparr>isManualDisconnect := True\<rparr>;
          m2 = (case reconnectTimeout m1 of
                  None \<Rightarrow> m1
                | Some h \<Rightarrow> (clearTimeout h m1)\<lparr>reconnectTimeout := None\<rparr>);
          m3 = (case ws m2 of
                  None \<Rightarrow> m2
                | Some i \<Rightarrow> m2\<lparr>sockets := close_socket i (sockets m2), ws := None\<rparr>)
      in updateConnectionState ''disconnected'' m3)"

text \<open>The handlers that \<^verbatim>\<open>connect\<close> installs on a socket.\<close>

definition onopen :: "manager \<Rightarrow> manager" where
  "onopen m = updateConnectionState ''connected'' (m\<lparr>reconnectAttempts := 0, reconnectDelay := 1000\<rparr>)"

definition onerror :: "manager \<Rightarrow> manager" where
  "onerror m = updateConnectionState ''error'' m"

definition onclose :: "manager \<Rightarrow> manager" where
  "onclose m =
     (let m1 = updateConnectionState ''disconnected'' m
      in if \<not> isManualDisconnect m1 \<and> enat (reconnectAttempts m1) < maxReconnectAttempts m1
         then scheduleReconnect m1
         else m1)"

text \<open>
  What can happen to a manager: the calls \<^verbatim>\<open>connect(url)\<close> and \<^verbatim>\<open>disconnect()\<close> that the
  page makes when its Connect and Disconnect buttons are pressed, the events of a socket,
  and a pending timeout firing (its callback is \<^verbatim>\<open>this.connect()\<close>).  An event that the
  browser cannot deliver (an unknown socket, a socket already closed, a timeout not
  pending) changes nothing.
\<close>

datatype event =
    UserConnect string
  | UserDisconnect
  | SocketOpen nat
  | SocketError nat
  | SocketClose nat
  | TimerFire nat

fun step :: "(string \<Rightarrow> bool) \<Rightarrow> manager \<Rightarrow> event \<Rightarrow> manager" where
  "step valid m (UserConnect a) = connect valid (Some a) m"
| "step valid m UserDisconnect = disconnect m"
| "step valid m (SocketOpen i) =
     (if i < length (sockets m) \<and> sockets m ! i = CONNECTING
      then onopen (m\<lparr>sockets := (sockets m)[i := OPEN]\<rparr>) else m)"
| "step valid m (SocketError i) =
     (if i < length (sockets m) \<and> sockets m ! i \<noteq> CLOSED then onerror m else m)"
| "step valid m (SocketClose i) =
     (if i < length (sockets m) \<and> sockets m ! i \<noteq> CLOSED
      then onclose (m\<lparr>sockets := (sockets m)[i := CLOSED]\<rparr>) else m)"
| "step valid m (TimerFire h) =
     (if h \<in> fst ` set (timers m) then connect valid None (clearTimeout h m) else m)"

definition run :: "(string \<Rightarrow> bool) \<Rightarrow> manager \<Rightarrow> event list \<Rightarrow> manager" where
  "run valid m es = foldl (step valid) m es"

text \<open>
  A manager is silenced when it is marked as manually disconnected and no timeout is
  pending.  No event other than a press of the Connect button leaves that condition, so
  nothing is scheduled from there.
\<close>

definition silenced :: "manager \<Rightarrow> bool" where
  "silenced m \<longleftrightarrow> isManualDisconnect m \<and> timers m = []"

fun is_UserConnect :: "event \<Rightarrow> bool" where
  "is_UserConnect (UserConnect a) = True"
| "is_UserConnect e = False"


section \<open>Session store (storage.js)\<close>

subsection \<open>Readings and the session document\<close>

text \<open>
  A payload that passed \<^verbatim>\<open>validateData\<close>, with its six typed fields, and the reading
  \<^verbatim>\<open>{timestamp, date, ...data}\<close> that \<^verbatim>\<open>saveReading\<close> builds from it.  Fields of a
  payload beyond the six declared ones are not represented.
\<close>

record payload =
  heartRate :: number
  spO2 :: number
  squatCount :: number
  postureStatus :: string
  fingerDetected :: bool
  fallDetected :: bool

definition payload_of :: "js \<Rightarrow> payload option" where
  "payload_of d =
     (case (get d ''heartRate'', get d ''spO2'', get d ''squatCount'',
            get d ''postureStatus'', get d ''fingerDetected'', get d ''fallDetected'') of
        (Num h, Num s, Num q, Str p, Boolean f, Boolean fl) \<Rightarrow>
          Some \<lparr>heartRate = h, spO2 = s, squatCount = q, postureStatus = p,
                fingerDetected = f, fallDetected = fl\<rparr>
      | _ \<Rightarrow> None)"

record reading = payload +
  timestamp :: nat
  date :: string

record metadata =
  sessionStart :: "nat option"
  sessionEnd :: "nat option"
  totalReadings :: nat
  lastUpdate :: "nat option"
  exportTimestamp :: "nat option"

record session =
  data :: "reading list"
  metadata :: metadata

text \<open>The session literal of \<^verbatim>\<open>loadSessionData\<close> and \<^verbatim>\<open>clear\<close>; \<open>lastUpdate\<close> is not set in it.\<close>

definition empty_session :: session where
  "empty_session =
     \<lparr>data = [],
      metadata = \<lparr>sessionStart = None, sessionEnd = None, totalReadings = 0,
                  lastUpdate = None, exportTimestamp = None\<rparr>\<rparr>"

subsection \<open>The JSON codec and the storage of the browser\<close>

text \<open>
  The session as the JavaScript object it is: property order as the program creates it,
  \<open>null\<close> for an unset instant, no \<open>lastUpdate\<close> property before the first reading.
\<close>

definition js_of_nat :: "nat \<Rightarrow> js" where
  "js_of_nat n = Num (Finite (real n))"

definition js_of_instant :: "nat option \<Rightarrow> js" where
  "js_of_instant t = (case t of None \<Rightarrow> Null | Some n \<Rightarrow> js_of_nat n)"

definition js_of_reading :: "reading \<Rightarrow> js" where
  "js_of_reading r =
     Obj [(''timestamp'', js_of_nat (timestamp r)),
          (''date'', Str (date r)),
          (''heartRate'', Num (heartRate r)),
          (''spO2'', Num (spO2 r)),
          (''squatCount'', Num (squatCount r)),
          (''postureStatus'', Str (postureStatus r)),
          (''fingerDetected'', Boolean (fingerDetected r)),
          (''fallDetected'', Boolean (fallDetected r))]"

definition js_of_metadata :: "metadata \<Rightarrow> js" where
  "js_of_metadata md =
     Obj ([(''sessionStart'', js_of_instant (sessionStart md)),
           (''sessionEnd'', js_of_instant (sessionEnd md)),
           (''totalReadings'', js_of_nat (totalReadings md)),
           (''exportTimestamp'', js_of_instant (exportTimestamp md))] @
          (case lastUpdate md of None \<Rightarrow> [] | Some t \<Rightarrow> [(''lastUpdate'', js_of_nat t)]))"

definition js_of_session :: "session \<Rightarrow> js" where
  "js_of_session s =
     Obj [(''data'', Arr (map js_of_reading (data s)) []),
          (''metadata'', js_of_metadata (metadata s))]"

text \<open>
  \<^verbatim>\<open>JSON.stringify\<close> and \<^verbatim>\<open>JSON.parse\<close> belong to the platform.  A text is represented
  by what \<^verbatim>\<open>JSON.parse\<close> makes of it: a text that is not JSON (kept as it is), or the
  document a JSON text denotes; white space and indentation are not represented.
  \<open>toJSON v\<close> is the document that the text written for \<open>v\<close> denotes (ECMA-262,
  SerializeJSONProperty): a number that is not finite becomes \<open>null\<close>, a property whose
  value is \<open>undefined\<close> is left out, an \<open>undefined\<close> array element becomes \<open>null\<close>, the
  named properties of an array are left out.
\<close>

datatype item = NotJSON string | Document js

fun toJSON :: "js \<Rightarrow> js" where
  "toJSON (Num NaN) = Null"
| "toJSON (Num Infinity) = Null"
| "toJSON (Num NegInfinity) = Null"
| "toJSON (Arr xs ps) = Arr (map (\<lambda>x. if x = Undefined then Null else toJSON x) xs) []"
| "toJSON (Obj ps) = Obj (map (\<lambda>p. (fst p, toJSON (snd p))) (filter (\<lambda>p. snd p \<noteq> Undefined) ps))"
| "toJSON v = v"

definition JSON_stringify :: "js \<Rightarrow> item" where
  "JSON_stringify v = Document (toJSON v)"

datatype error = SyntaxError | TypeError

fun JSON_parse :: "item \<Rightarrow> error + js" where
  "JSON_parse (NotJSON s) = Inl SyntaxError"
| "JSON_parse (Document v) = Inr v"

text \<open>What \<^verbatim>\<open>localStorage.setItem\<close> does on a call: it stores the text, or it throws.\<close>

datatype write_result = Written | QuotaExceededError | OtherError

text \<open>
  The manager with the part of the browser it acts upon: the item stored under
  \<^verbatim>\<open>athleteMonitorSession\<close>, the number of \<^verbatim>\<open>setItem\<close> calls made, the \<^verbatim>\<open>alert\<close>
  messages shown and the texts offered for download, oldest first.
\<close>

record storage_manager =
  sessionData :: session
  sessionStartTime :: "nat option"
  localStorage :: "item option"
  setItemCalls :: nat
  alerts :: "string list"
  downloads :: "item list"

definition maxStorageItems :: nat where
  "maxStorageItems = 1000"

text \<open>\<^verbatim>\<open>xs.slice(-n)\<close>: the last \<open>n\<close> elements, all of them when there are fewer.\<close>

definition slice_last :: "nat \<Rightarrow> 'a list \<Rightarrow> 'a list" where
  "slice_last n xs = drop (length xs - n) xs"

subsection \<open>Persisting\<close>

text \<open>
  \<^verbatim>\<open>persist\<close> and \<^verbatim>\<open>clearOldData\<close> call each other.  The first argument tells what the
  \<open>i\<close>-th \<^verbatim>\<open>setItem\<close> call of the run does (calls are counted from 0); it stands for the
  quota of the browser, which the program does not control.  A throw of \<^verbatim>\<open>setItem\<close> is
  caught by \<^verbatim>\<open>persist\<close> in every case; only the one named \<^verbatim>\<open>QuotaExceededError\<close> leads to
  the warning and to \<^verbatim>\<open>clearOldData\<close>.  What is written to the console is left out.
\<close>

function persist :: "(nat \<Rightarrow> write_result) \<Rightarrow> storage_manager \<Rightarrow> storage_manager"
  and clearOldData :: "(nat \<Rightarrow> write_result) \<Rightarrow> storage_manager \<Rightarrow> storage_manager"
where
  "persist quota sm =
     (let sm1 = sm\<lparr>setItemCalls := setItemCalls sm + 1\<rparr>
      in case quota (setItemCalls sm) of
           Written \<Rightarrow> sm1\<lparr>localStorage := Some (JSON_stringify (js_of_session (sessionData sm)))\<rparr>
         | QuotaExceededError \<Rightarrow>
             clearOldData quota
               (sm1\<lparr>alerts := alerts sm1 @ [''Storage quota exceeded. Clearing old data...'']\<rparr>)
         | OtherError \<Rightarrow> sm1)"
| "clearOldData quota sm =
     (let keepCount = 500
      in if length (data (sessionData sm)) > keepCount then
           let kept = slice_last keepCount (data (sessionData sm))
           in persist quota
                (sm\<lparr>sessionData :=
                      \<lparr>data = kept,
                       metadata = (metadata (sessionData sm))\<lparr>totalReadings := length kept\<rparr>\<rparr>\<rparr>)
         else sm)"
  by pat_completeness auto
termination
  by (relation "measure (\<lambda>x. case x of
          Inl (quota, sm) \<Rightarrow> (if 500 < length (data (sessionData sm)) then 3 else 1)
        | Inr (quota, sm) \<Rightarrow> (if 500 < length (data (sessionData sm)) then 2 else 0))")
     (auto simp: slice_last_def)

declare persist.simps [simp del] clearOldData.simps [simp del]

subsection \<open>Recording a reading\<close>

text \<open>
  \<^verbatim>\<open>saveReading(data)\<close>.  \<open>now\<close> is what \<^verbatim>\<open>Date.now()\<close> returns and \<open>isoText\<close> the text
  \<^verbatim>\<open>new Date(timestamp).toISOString()\<close>.  \<^verbatim>\<open>!sessionStart\<close> holds for \<open>null\<close> and for 0.
\<close>

definition reading_at :: "nat \<Rightarrow> string \<Rightarrow> payload \<Rightarrow> reading" where
  "reading_at now isoText p =
     \<lparr>heartRate = heartRate p, spO2 = spO2 p, squatCount = squatCount p,
      postureStatus = postureStatus p, fingerDetected = fingerDetected p,
      fallDetected = fallDetected p, timestamp = now, date = isoText\<rparr>"

definition saveReading ::
  "(nat \<Rightarrow> write_result) \<Rightarrow> nat \<Rightarrow> string \<Rightarrow> payload \<Rightarrow> storage_manager \<Rightarrow> storage_manager" where
  "saveReading quota now isoText p sm =
     (let reading = reading_at now isoText p;
          pushed = data (sessionData sm) @ [reading];
          buffer = (if length pushed > maxStorageItems then tl pushed else pushed);
          md = metadata (sessionData sm);
          unset = (case sessionStart md of None \<Rightarrow> True | Some t \<Rightarrow> t = 0);
          md1 = (if unset then md\<lparr>sessionStart := Some now\<rparr> else md);
          md2 = md1\<lparr>totalReadings := length buffer, lastUpdate := Some now\<rparr>
      in persist quota
           (sm\<lparr>sessionData := \<lparr>data = buffer, metadata = md2\<rparr>,
               sessionStartTime := (if unset then Some now else sessionStartTime sm)\<rparr>))"

text \<open>
  A run of the store: one \<^verbatim>\<open>saveReading\<close> per arriving payload, with its clock reading;
  \<open>reading_of\<close> is the reading that an arrival is stored as.
\<close>

definition reading_of :: "nat \<times> string \<times> payload \<Rightarrow> reading" where
  "reading_of input = (case input of (now, isoText, p) \<Rightarrow> reading_at now isoText p)"

definition record_all ::
  "(nat \<Rightarrow> write_result) \<Rightarrow> storage_manager \<Rightarrow> (nat \<times> string \<times> payload) list \<Rightarrow> storage_manager" where
  "record_all quota sm inputs = foldl (\<lambda>s (now, isoText, p). saveReading quota now isoText p s) sm inputs"

text \<open>The buffer that \<^verbatim>\<open>saveReading\<close> hands to \<^verbatim>\<open>persist\<close>: push, then shift when over the cap.\<close>

definition pushed_buffer :: "reading list \<Rightarrow> reading \<Rightarrow> reading list" where
  "pushed_buffer d r = (if length (d @ [r]) > maxStorageItems then tl (d @ [r]) else d @ [r])"

text \<open>The manager of a first visit: nothing stored, the empty session loaded.\<close>

definition StorageManager :: storage_manager where
  "StorageManager =
     \<lparr>sessionData = empty_session, sessionStartTime = None, localStorage = None,
      setItemCalls = 0, alerts = [], downloads = []\<rparr>"

text \<open>The payload that the README gives as the example of a message.\<close>

definition example_payload :: payload where
  "example_payload =
     \<lparr>heartRate = Finite 72, spO2 = Finite 97, squatCount = Finite 15,
      postureStatus = ''GOOD'', fingerDetected = True, fallDetected = False\<rparr>"

subsection \<open>Statistics\<close>

text \<open>
  \<^verbatim>\<open>getStats\<close> on a session that this page built by recording validated payloads, the
  three numbers of each reading being numbers; \<^verbatim>\<open>getStats\<close> on any session object, as
  a reload can produce it, is \<open>getStats_doc\<close> below.  The record is the object returned;
  \<open>minHeartRate\<close> and \<open>maxHeartRate\<close> are absent (\<open>Undefined\<close>) in the literal returned for
  an empty buffer.
\<close>

record stats =
  stats_totalReadings :: nat
  stats_sessionStart :: "nat option"
  avgHeartRate :: js
  avgSpO2 :: js
  maxSquats :: js
  minHeartRate :: js
  maxHeartRate :: js

text \<open>\<^verbatim>\<open>xs.reduce((a, b) => a + b, 0)\<close>.\<close>

definition reduce_sum :: "number list \<Rightarrow> number" where
  "reduce_sum xs = foldl num_add (Finite 0) xs"

definition getStats :: "storage_manager \<Rightarrow> stats" where
  "getStats sm =
     (let d = data (sessionData sm)
      in if length d = 0 then
           \<lparr>stats_totalReadings = 0, stats_sessionStart = None, avgHeartRate = Null,
            avgSpO2 = Null, maxSquats = Num (Finite 0), minHeartRate = Undefined,
            maxHeartRate = Undefined\<rparr>
         else
           let heartRates = filter (\<lambda>v. \<not> isNaN v) (map heartRate d);
               spO2Values = filter (\<lambda>v. \<not> isNaN v) (map spO2 d);
               squatCounts = map squatCount d
           in \<lparr>stats_totalReadings = length d,
               stats_sessionStart = sessionStart (metadata (sessionData sm)),
               avgHeartRate =
                 (if length heartRates > 0
                  then Num (Math_round (div_count (reduce_sum heartRates) (length heartRates)))
                  else Null),
               avgSpO2 =
                 (if length spO2Values > 0
                  then Num (Math_round (div_count (reduce_sum spO2Values) (length spO2Values)))
                  else Null),
               maxSquats = (if length squatCounts > 0 then Num (Math_max squatCounts) else Num (Finite 0)),
               minHeartRate = (if length heartRates > 0 then Num (Math_min heartRates) else Null),
               maxHeartRate = (if length heartRates > 0 then Num (Math_max heartRates) else Null)\<rparr>)"

text \<open>The numbers that \<^verbatim>\<open>JSON.stringify\<close> writes as numbers: the finite ones.\<close>

fun is_finite :: "number \<Rightarrow> bool" where
  "is_finite (Finite x) = True"
| "is_finite a = False"

subsection \<open>Loading the stored session\<close>

text \<open>What counts as true in a condition.\<close>

fun truthy :: "js \<Rightarrow> bool" where
  "truthy Undefined = False"
| "truthy Null = False"
| "truthy (Boolean b) = b"
| "truthy (Num NaN) = False"
| "truthy (Num (Finite x)) = (x \<noteq> 0)"
| "truthy (Num n) = True"
| "truthy (Str s) = (s \<noteq> [])"
| "truthy (Arr xs ps) = True"
| "truthy (Obj ps) = True"

text \<open>\<^verbatim>\<open>if (stored)\<close> on a text: false for the empty text only.  A JSON text is never empty.\<close>

fun nonempty_text :: "item \<Rightarrow> bool" where
  "nonempty_text (NotJSON s) = (s \<noteq> [])"
| "nonempty_text (Document v) = True"

text \<open>
  The read \<open>v.k\<close> in general, and the assignment \<open>v.k = x\<close> in strict mode (the body of a
  class): reading from \<open>null\<close> or \<open>undefined\<close> throws, and so does creating a property on
  anything that is not an object.
\<close>

definition read_prop :: "js \<Rightarrow> string \<Rightarrow> error + js" where
  "read_prop v k = (if v = Null \<or> v = Undefined then Inl TypeError else Inr (get v k))"

fun set_prop :: "js \<Rightarrow> string \<Rightarrow> js \<Rightarrow> error + js" where
  "set_prop (Obj ps) k x = Inr (Obj (AList.update k x ps))"
| "set_prop (Arr xs ps) k x = Inr (Arr xs (AList.update k x ps))"
| "set_prop v k x = Inl TypeError"

text \<open>
  The \<^verbatim>\<open>try\<close> block of \<^verbatim>\<open>loadSessionData\<close>: it throws (\<open>Inl\<close>), it runs to its end without
  returning (\<open>Inr None\<close>), or it returns the parsed document (\<open>Inr (Some parsed)\<close>).
\<close>

definition loadSessionData_try :: "item option \<Rightarrow> error + js option" where
  "loadSessionData_try stored =
     (case stored of
        None \<Rightarrow> Inr None
      | Some text \<Rightarrow>
          if nonempty_text text then
            (case JSON_parse text of
               Inl e \<Rightarrow> Inl e
             | Inr parsed \<Rightarrow>
                 (case read_prop parsed ''data'' of
                    Inl e \<Rightarrow> Inl e
                  | Inr d \<Rightarrow>
                      if \<not> truthy d then
                        (case set_prop parsed ''data'' (Arr [] []) of
                           Inl e \<Rightarrow> Inl e
                         | Inr parsed' \<Rightarrow> Inr (Some parsed'))
                      else Inr (Some parsed)))
          else Inr None)"

text \<open>The literal returned when nothing was returned from the \<^verbatim>\<open>try\<close> block.\<close>

definition default_session :: js where
  "default_session =
     Obj [(''data'', Arr [] []),
          (''metadata'',
           Obj [(''sessionStart'', Null), (''sessionEnd'', Null),
                (''totalReadings'', Num (Finite 0)), (''exportTimestamp'', Null)])]"

text \<open>\<^verbatim>\<open>loadSessionData()\<close>, on the item found under the storage key (\<open>None\<close>: no item).\<close>

definition loadSessionData :: "item option \<Rightarrow> js" where
  "loadSessionData stored =
     (case loadSessionData_try stored of
        Inr (Some parsed) \<Rightarrow> parsed
      | Inr None \<Rightarrow> default_session
      | Inl e \<Rightarrow> default_session)"

text \<open>
  A well-formed session object, in the words of the claim about loading: its \<open>data\<close> is an
  array and its \<open>metadata\<close> has the fields \<open>sessionStart\<close>, \<open>sessionEnd\<close>,
  \<open>totalReadings\<close> and \<open>exportTimestamp\<close>.
\<close>

fun is_array :: "js \<Rightarrow> bool" where
  "is_array (Arr xs ps) = True"
| "is_array v = False"

definition has_property :: "js \<Rightarrow> string \<Rightarrow> bool" where
  "has_property v k = (case own_props v of None \<Rightarrow> False | Some ps \<Rightarrow> map_of ps k \<noteq> None)"

definition well_formed_session :: "js \<Rightarrow> bool" where
  "well_formed_session v \<longleftrightarrow>
     is_array (get v ''data'') \<and>
     has_property (get v ''metadata'') ''sessionStart'' \<and>
     has_property (get v ''metadata'') ''sessionEnd'' \<and>
     has_property (get v ''metadata'') ''totalReadings'' \<and>
     has_property (get v ''metadata'') ''exportTimestamp''"

subsection \<open>Export as JSON\<close>

text \<open>
  The object literal \<^verbatim>\<open>{...v, k1: x1, k2: x2}\<close> for an object \<open>v\<close>: its own properties,
  then each listed one, replacing a property of the same name.
\<close>

definition spread_with :: "js \<Rightarrow> (string \<times> js) list \<Rightarrow> js" where
  "spread_with v kxs =
     Obj (foldl (\<lambda>ps kx. AList.update (fst kx) (snd kx) ps)
            (case own_props v of None \<Rightarrow> [] | Some ps \<Rightarrow> ps) kxs)"

text \<open>
  \<^verbatim>\<open>exportJSON()\<close>.  The clock is read for the export (\<open>now\<close>, with \<open>isoText\<close> the text of
  \<^verbatim>\<open>new Date().toISOString()\<close>) and again for the metadata (\<open>later\<close>); the text handed
  to the browser for download is appended to \<open>downloads\<close>.  The reading of the clock for
  the file name is left out, with the name.
\<close>

definition exportJSON ::
  "(nat \<Rightarrow> write_result) \<Rightarrow> nat \<Rightarrow> string \<Rightarrow> nat \<Rightarrow> storage_manager \<Rightarrow> storage_manager" where
  "exportJSON quota now isoText later sm =
     (let exportData =
            spread_with (js_of_session (sessionData sm))
              [(''exportTimestamp'', js_of_nat now), (''exportDate'', Str isoText)];
          jsonString = JSON_stringify exportData;
          sm1 = sm\<lparr>downloads := downloads sm @ [jsonString]\<rparr>;
          sm2 = sm1\<lparr>sessionData :=
                      (sessionData sm1)\<lparr>metadata :=
                         (metadata (sessionData sm1))\<lparr>exportTimestamp := Some later\<rparr>\<rparr>\<rparr>
      in persist quota sm2)"

text \<open>
  A reading whose three numbers are finite, and the payload object a reading was made
  from (for stating that it passed the validator).
\<close>

definition finite_reading :: "reading \<Rightarrow> bool" where
  "finite_reading r \<longleftrightarrow> is_finite (heartRate r) \<and> is_finite (spO2 r) \<and> is_finite (squatCount r)"

definition js_of_payload :: "payload \<Rightarrow> js" where
  "js_of_payload p =
     Obj [(''heartRate'', Num (heartRate p)),
          (''spO2'', Num (spO2 p)),
          (''squatCount'', Num (squatCount p)),
          (''postureStatus'', Str (postureStatus p)),
          (''fingerDetected'', Boolean (fingerDetected p)),
          (''fallDetected'', Boolean (fallDetected p))]"

text \<open>The \<open>data\<close> array obtained by parsing a text again (\<open>undefined\<close> if it does not parse).\<close>

definition reparsed_data :: "item \<Rightarrow> js" where
  "reparsed_data t = (case JSON_parse t of Inl e \<Rightarrow> Undefined | Inr doc \<Rightarrow> get doc ''data'')"


section \<open>Statistics of a session object (storage.js)\<close>

text \<open>
  The session that \<^verbatim>\<open>getStats\<close> reads is the object that \<^verbatim>\<open>loadSessionData\<close> returned,
  with the readings pushed since.  After a reload a number field of a reading holds
  \<open>null\<close> where the number written was not finite, and a stored document can hold
  anything; so \<^verbatim>\<open>getStats\<close> is given here on any session object, with the conversions
  that its operators apply to what they find and the \<^verbatim>\<open>TypeError\<close> of a read from \<open>null\<close>
  or \<open>undefined\<close>.

  Three conversions belong to the platform and are not described: the primitive value
  of an object or array (by its \<^verbatim>\<open>valueOf\<close> and \<^verbatim>\<open>toString\<close>, which can throw), the number
  that a string denotes, and the text of a number.
\<close>

record platform =
  ToPrimitive_object :: "js \<Rightarrow> error + js"
  StringToNumber :: "string \<Rightarrow> number"
  NumberToString :: "number \<Rightarrow> string"

text \<open>Sequencing: the first exception ends the evaluation.\<close>

definition and_then :: "error + 'a \<Rightarrow> ('a \<Rightarrow> error + 'b) \<Rightarrow> error + 'b" where
  "and_then r f = (case r of Inl e \<Rightarrow> Inl e | Inr x \<Rightarrow> f x)"

fun all_of :: "(error + 'a) list \<Rightarrow> error + 'a list" where
  "all_of [] = Inr []"
| "all_of (r # rs) = and_then r (\<lambda>x. and_then (all_of rs) (\<lambda>xs. Inr (x # xs)))"

fun is_primitive :: "js \<Rightarrow> bool" where
  "is_primitive (Arr xs ps) = False"
| "is_primitive (Obj ps) = False"
| "is_primitive v = True"

fun is_string :: "js \<Rightarrow> bool" where
  "is_string (Str s) = True"
| "is_string v = False"

text \<open>
  \<open>ToPrimitive\<close>, \<open>ToNumber\<close> and \<open>ToString\<close> of ECMA-262.  An object whose conversion
  yields no primitive value is a \<^verbatim>\<open>TypeError\<close>.
\<close>

definition ToPrimitive :: "platform \<Rightarrow> js \<Rightarrow> error + js" where
  "ToPrimitive p v =
     (if is_primitive v then Inr v
      else and_then (ToPrimitive_object p v)
             (\<lambda>w. if is_primitive w then Inr w else Inl TypeError))"

fun ToNumber_primitive :: "platform \<Rightarrow> js \<Rightarrow> number" where
  "ToNumber_primitive p Undefined = NaN"
| "ToNumber_primitive p Null = Finite 0"
| "ToNumber_primitive p (Boolean b) = Finite (if b then 1 else 0)"
| "ToNumber_primitive p (Num n) = n"
| "ToNumber_primitive p (Str s) = StringToNumber p s"
| "ToNumber_primitive p v = NaN"

definition ToNumber :: "platform \<Rightarrow> js \<Rightarrow> error + number" where
  "ToNumber p v = and_then (ToPrimitive p v) (\<lambda>w. Inr (ToNumber_primitive p w))"

fun ToString_primitive :: "platform \<Rightarrow> js \<Rightarrow> string" where
  "ToString_primitive p Undefined = ''undefined''"
| "ToString_primitive p Null = ''null''"
| "ToString_primitive p (Boolean b) = (if b then ''true'' else ''false'')"
| "ToString_primitive p (Num n) = NumberToString p n"
| "ToString_primitive p (Str s) = s"
| "ToString_primitive p v = []"

text \<open>
  \<open>a + b\<close> on values: both operands are taken to primitives; the texts are joined if
  one is a string, the numbers are added otherwise.
\<close>

definition js_add :: "platform \<Rightarrow> js \<Rightarrow> js \<Rightarrow> error + js" where
  "js_add p a b =
     and_then (ToPrimitive p a) (\<lambda>x.
     and_then (ToPrimitive p b) (\<lambda>y.
       if is_string x \<or> is_string y
       then Inr (Str (ToString_primitive p x @ ToString_primitive p y))
       else Inr (Num (num_add (ToNumber_primitive p x) (ToNumber_primitive p y)))))"

text \<open>
  \<open>data.length\<close>: the number of elements of an array, the length of a string, the own
  property of that name of another object, \<open>undefined\<close> on a number or a boolean.
\<close>

fun length_of :: "js \<Rightarrow> error + js" where
  "length_of Undefined = Inl TypeError"
| "length_of Null = Inl TypeError"
| "length_of (Arr xs ps) = Inr (Num (Finite (real (length xs))))"
| "length_of (Str s) = Inr (Num (Finite (real (length s))))"
| "length_of v = Inr (get v ''length'')"

text \<open>
  \<open>data.map(f)\<close>: the method of arrays.  Nothing else that a document holds has a
  \<open>map\<close> that can be called, nor has an array with an own property of that name.
\<close>

fun array_map :: "js \<Rightarrow> (js \<Rightarrow> error + js) \<Rightarrow> error + js list" where
  "array_map (Arr xs ps) f = (if map_of ps ''map'' = None then all_of (map f xs) else Inl TypeError)"
| "array_map v f = Inl TypeError"

text \<open>\<^verbatim>\<open>.filter(v => !isNaN(v))\<close>, \<open>isNaN\<close> taking its argument to a number.\<close>

fun filter_not_NaN :: "platform \<Rightarrow> js list \<Rightarrow> error + js list" where
  "filter_not_NaN p [] = Inr []"
| "filter_not_NaN p (v # vs) =
     and_then (ToNumber p v) (\<lambda>n.
     and_then (filter_not_NaN p vs) (\<lambda>kept.
       Inr (if isNaN n then kept else v # kept)))"

text \<open>\<^verbatim>\<open>.reduce((a, b) => a + b, 0)\<close>, from the accumulator \<open>a\<close>.\<close>

fun reduce_add :: "platform \<Rightarrow> js \<Rightarrow> js list \<Rightarrow> error + js" where
  "reduce_add p a [] = Inr a"
| "reduce_add p a (v # vs) = and_then (js_add p a v) (\<lambda>a'. reduce_add p a' vs)"

text \<open>
  \<^verbatim>\<open>vs.length > 0 ? Math.round(vs.reduce((a, b) => a + b, 0) / vs.length) : null\<close>; the
  division takes the sum to a number.
\<close>

definition average :: "platform \<Rightarrow> js list \<Rightarrow> error + js" where
  "average p vs =
     (if length vs > 0 then
        and_then (reduce_add p (Num (Finite 0)) vs) (\<lambda>total.
        and_then (ToNumber p total) (\<lambda>x.
          Inr (Num (Math_round (div_count x (length vs))))))
      else Inr Null)"

text \<open>\<^verbatim>\<open>Math.min(...vs)\<close> and \<^verbatim>\<open>Math.max(...vs)\<close>, each argument taken to a number.\<close>

definition Math_min_of :: "platform \<Rightarrow> js list \<Rightarrow> error + js" where
  "Math_min_of p vs = and_then (all_of (map (ToNumber p) vs)) (\<lambda>ns. Inr (Num (Math_min ns)))"

definition Math_max_of :: "platform \<Rightarrow> js list \<Rightarrow> error + js" where
  "Math_max_of p vs = and_then (all_of (map (ToNumber p) vs)) (\<lambda>ns. Inr (Num (Math_max ns)))"

text \<open>
  \<^verbatim>\<open>getStats()\<close> with \<open>s\<close> the value of \<^verbatim>\<open>this.sessionData\<close>: the object returned, or the
  exception thrown.  \<open>data.length === 0\<close> holds of the number 0 only.
\<close>

definition getStats_doc :: "platform \<Rightarrow> js \<Rightarrow> error + js" where
  "getStats_doc p s =
     and_then (read_prop s ''data'') (\<lambda>d.
     and_then (length_of d) (\<lambda>len.
       if len = Num (Finite 0) then
         Inr (Obj [(''totalReadings'', Num (Finite 0)),
                   (''sessionStart'', Null),
                   (''avgHeartRate'', Null),
                   (''avgSpO2'', Null),
                   (''maxSquats'', Num (Finite 0))])
       else
         and_then (array_map d (\<lambda>r. read_prop r ''heartRate'')) (\<lambda>hs.
         and_then (filter_not_NaN p hs) (\<lambda>heartRates.
         and_then (array_map d (\<lambda>r. read_prop r ''spO2'')) (\<lambda>ss.
         and_then (filter_not_NaN p ss) (\<lambda>spO2Values.
         and_then (array_map d (\<lambda>r. read_prop r ''squatCount'')) (\<lambda>squatCounts.
         and_then (read_prop s ''metadata'') (\<lambda>md.
         and_then (read_prop md ''sessionStart'') (\<lambda>start.
         and_then (average p heartRates) (\<lambda>avgHR.
         and_then (average p spO2Values) (\<lambda>avgS.
         and_then (if length squatCounts > 0 then Math_max_of p squatCounts
                   else Inr (Num (Finite 0))) (\<lambda>maxSq.
         and_then (if length heartRates > 0 then Math_min_of p heartRates
                   else Inr Null) (\<lambda>minHR.
         and_then (if length heartRates > 0 then Math_max_of p heartRates
                   else Inr Null) (\<lambda>maxHR.
           Inr (Obj [(''totalReadings'', len),
                     (''sessionStart'', start),
                     (''avgHeartRate'', avgHR),
                     (''avgSpO2'', avgS),
                     (''maxSquats'', maxSq),
                     (''minHeartRate'', minHR),
                     (''maxHeartRate'', maxHR)])))))))))))))))"

text \<open>The object that the statistics of a recorded session are.\<close>

definition js_of_stats :: "stats \<Rightarrow> js" where
  "js_of_stats st =
     Obj (filter (\<lambda>kv. snd kv \<noteq> Undefined)
            [(''totalReadings'', js_of_nat (stats_totalReadings st)),
             (''sessionStart'', js_of_instant (stats_sessionStart st)),
             (''avgHeartRate'', avgHeartRate st),
             (''avgSpO2'', avgSpO2 st),
             (''maxSquats'', maxSquats st),
             (''minHeartRate'', minHeartRate st),
             (''maxHeartRate'', maxHeartRate st)])"

text \<open>
  The words of the specification of the statistics, for comparison with \<^verbatim>\<open>getStats\<close>.
  A session of numbers: \<open>data\<close> is an array of readings whose heart rate, SpO2 and squat
  count are numbers, and there is a \<open>metadata\<close> unless the array is empty.
\<close>

fun is_number :: "js \<Rightarrow> bool" where
  "is_number (Num n) = True"
| "is_number v = False"

definition entries :: "js \<Rightarrow> js list" where
  "entries s = (case get s ''data'' of Arr rs ps \<Rightarrow> rs | _ \<Rightarrow> [])"

definition session_of_numbers :: "js \<Rightarrow> bool" where
  "session_of_numbers s \<longleftrightarrow>
     get s ''data'' = Arr (entries s) [] \<and>
     (\<forall>r \<in> set (entries s).
        is_number (get r ''heartRate'') \<and>
        is_number (get r ''spO2'') \<and>
        is_number (get r ''squatCount'')) \<and>
     (entries s = [] \<or> (get s ''metadata'' \<noteq> Null \<and> get s ''metadata'' \<noteq> Undefined))"

text \<open>
  The values of a field over the buffer, and those that enter its statistics: the ones
  that are not \<open>NaN\<close>, in the order of the buffer.  The value of a field that holds a
  number is that number; a field that holds \<open>null\<close> has the value 0, which is what the
  operators of \<^verbatim>\<open>getStats\<close> make of it.
\<close>

fun numeric_value :: "js \<Rightarrow> number" where
  "numeric_value (Num n) = n"
| "numeric_value v = Finite 0"

definition values_of :: "string \<Rightarrow> js \<Rightarrow> number list" where
  "values_of k s = map (\<lambda>r. numeric_value (get r k)) (entries s)"

definition counted :: "string \<Rightarrow> js \<Rightarrow> number list" where
  "counted k s = filter (\<lambda>v. \<not> isNaN v) (values_of k s)"

text \<open>
  What a reload makes of a session of numbers: a number that was not finite when the
  session was written is \<open>null\<close> in it.
\<close>

fun numeric_field :: "js \<Rightarrow> bool" where
  "numeric_field (Num n) = True"
| "numeric_field Null = True"
| "numeric_field v = False"

definition numeric_session :: "js \<Rightarrow> bool" where
  "numeric_session s \<longleftrightarrow>
     get s ''data'' = Arr (entries s) [] \<and>
     (\<forall>r \<in> set (entries s).
        numeric_field (get r ''heartRate'') \<and>
        numeric_field (get r ''spO2'') \<and>
        numeric_field (get r ''squatCount'')) \<and>
     (entries s = [] \<or> (get s ''metadata'' \<noteq> Null \<and> get s ''metadata'' \<noteq> Undefined))"

definition reloaded_value :: "number \<Rightarrow> number" where
  "reloaded_value n = (if is_finite n then n else Finite 0)"

text \<open>
  The mean as the arithmetic of the program gives it: the entries added one after the
  other from 0, each sum rounded to binary64, and the last sum divided by the count, the
  quotient rounded to binary64.  The rounded mean is the integer nearest to it, the
  upper one of two.
\<close>

definition mean64 :: "number list \<Rightarrow> number" where
  "mean64 xs = div_count (foldl num_add (Finite 0) xs) (length xs)"

definition rounded_mean :: "number list \<Rightarrow> js" where
  "rounded_mean xs = (if xs = [] then Null else Num (Math_round (mean64 xs)))"

text \<open>
  The exact mean, for comparison.  A list of whole numbers, of absolute values that sum
  to less than \<open>2 ^ 52\<close>: on such a list no sum is rounded, and the rounded mean is the
  exact mean, rounded.
\<close>

fun the_real :: "number \<Rightarrow> real" where
  "the_real (Finite x) = x"
| "the_real a = 0"

fun whole :: "number \<Rightarrow> bool" where
  "whole (Finite x) = (x = of_int \<lfloor>x\<rfloor>)"
| "whole a = False"

definition whole_numbers :: "number list \<Rightarrow> bool" where
  "whole_numbers xs \<longleftrightarrow>
     xs \<noteq> [] \<and> (\<forall>x \<in> set xs. whole x) \<and> sum_list (map (\<lambda>x. \<bar>the_real x\<bar>) xs) < 2 ^ 52"

definition exact_mean :: "number list \<Rightarrow> real" where
  "exact_mean xs = sum_list (map the_real xs) / real (length xs)"

definition exact_rounded_mean :: "number list \<Rightarrow> js" where
  "exact_rounded_mean xs = Num (Finite (of_int \<lfloor>exact_mean xs + 1 / 2\<rfloor>))"

text \<open>
  A list of moderate numbers: at most \<open>2 ^ 19\<close> of them, each finite and at most \<open>2 ^ 20\<close>
  in absolute value.  On such a list the roundings move the mean by less than a
  thousandth.
\<close>

definition moderate :: "number list \<Rightarrow> bool" where
  "moderate xs \<longleftrightarrow>
     xs \<noteq> [] \<and> length xs \<le> 2 ^ 19 \<and> (\<forall>x \<in> set xs. is_finite x \<and> \<bar>the_real x\<bar> \<le> 2 ^ 20)"

text \<open>A minimum (maximum) of a list: an entry that no entry is below (above).\<close>

definition is_min_of :: "number \<Rightarrow> number list \<Rightarrow> bool" where
  "is_min_of m xs \<longleftrightarrow> m \<in> set xs \<and> (\<forall>x \<in> set xs. num_le m x)"

definition is_max_of :: "number \<Rightarrow> number list \<Rightarrow> bool" where
  "is_max_of m xs \<longleftrightarrow> m \<in> set xs \<and> (\<forall>x \<in> set xs. num_le x m)"

text \<open>
  A session of readings like the example payload of the README, with the given heart
  rates.
\<close>

definition example_session :: "number list \<Rightarrow> session" where
  "example_session hs =
     \<lparr>data = map (\<lambda>h. reading_at 0 [] (example_payload\<lparr>heartRate := h\<rparr>)) hs,
      metadata = metadata empty_session\<rparr>"

section \<open>The validator accepts exactly the well-typed payloads\<close>

lemma typeof_number_iff: "typeof v = ''number'' \<longleftrightarrow> (\<exists>n. v = Num n)"
  by (cases v) simp_all

lemma typeof_string_iff: "typeof v = ''string'' \<longleftrightarrow> (\<exists>s. v = Str s)"
  by (cases v) simp_all

lemma typeof_boolean_iff: "typeof v = ''boolean'' \<longleftrightarrow> (\<exists>b. v = Boolean b)"
  by (cases v) simp_all

lemma typeof_object_iff: "typeof v = ''object'' \<and> v \<noteq> Null \<longleftrightarrow> own_props v \<noteq> None"
  by (cases v) simp_all

lemma get_typed_iff:
  "own_props d = Some ps \<Longrightarrow> get d k = x \<and> x \<noteq> Undefined \<longleftrightarrow> map_of ps k = Some x \<and> x \<noteq> Undefined"
  by (auto simp: get_def split: option.splits)

text \<open>
  C5.  The validator accepts a decoded payload exactly when it is an object in which all
  six fields are present with their declared primitive types: \<open>heartRate\<close>, \<open>spO2\<close> and
  \<open>squatCount\<close> numbers, \<open>postureStatus\<close> a string, \<open>fingerDetected\<close> and
  \<open>fallDetected\<close> booleans.  The numbers, the string and the booleans are arbitrary
  (no range is checked); a payload with a field missing or of another type is rejected.
\<close>

theorem validateData_accepts_iff_typed:
  "validateData d \<longleftrightarrow>
     (\<exists>ps h s q p f fl.
        own_props d = Some ps \<and>
        map_of ps ''heartRate'' = Some (Num h) \<and>
        map_of ps ''spO2'' = Some (Num s) \<and>
        map_of ps ''squatCount'' = Some (Num q) \<and>
        map_of ps ''postureStatus'' = Some (Str p) \<and>
        map_of ps ''fingerDetected'' = Some (Boolean f) \<and>
        map_of ps ''fallDetected'' = Some (Boolean fl))"
proof (cases "own_props d")
  case None
  then have "\<not> (typeof d = ''object'' \<and> d \<noteq> Null)"
    by (simp add: typeof_object_iff)
  then have "\<not> validateData d"
    by (auto simp: validateData_def)
  with None show ?thesis by simp
next
  case (Some ps)
  then have obj: "typeof d = ''object'' \<and> d \<noteq> Null"
    by (simp add: typeof_object_iff)
  have rd: "get d k = v \<longleftrightarrow> map_of ps k = Some v" if "v \<noteq> Undefined" for k v
    using Some that by (auto simp: get_def split: option.splits)
  have n: "typeof (get d k) = ''number'' \<longleftrightarrow> (\<exists>x. map_of ps k = Some (Num x))" for k
    by (simp add: typeof_number_iff rd)
  have s: "typeof (get d k) = ''string'' \<longleftrightarrow> (\<exists>x. map_of ps k = Some (Str x))" for k
    by (simp add: typeof_string_iff rd)
  have b: "typeof (get d k) = ''boolean'' \<longleftrightarrow> (\<exists>x. map_of ps k = Some (Boolean x))" for k
    by (simp add: typeof_boolean_iff rd)
  show ?thesis
    unfolding validateData_def n s b using obj Some by auto
qed

text \<open>
  The accepted payloads are those that carry a typed payload, whatever its values; the
  example of the README without its \<open>fallDetected\<close> is rejected.
\<close>

lemma validateData_iff_payload_of: "validateData d \<longleftrightarrow> payload_of d \<noteq> None"
proof (cases "own_props d")
  case None
  then have "get d k = Undefined" for k
    by (simp add: get_def)
  moreover from None have "\<not> validateData d"
    using typeof_object_iff [of d] by (auto simp: validateData_def)
  ultimately show ?thesis
    by (simp add: payload_of_def)
next
  case (Some ps)
  then have "typeof d = ''object'' \<and> d \<noteq> Null"
    by (simp add: typeof_object_iff)
  then show ?thesis
    by (auto simp: validateData_def payload_of_def typeof_number_iff typeof_string_iff
          typeof_boolean_iff split: js.splits)
qed

lemma payload_of_js_of_payload: "payload_of (js_of_payload p) = Some p"
  by (simp add: payload_of_def js_of_payload_def get_def)

lemma validateData_any_values: "validateData (js_of_payload p)"
  by (simp add: validateData_iff_payload_of payload_of_js_of_payload)

lemma validateData_rejects_missing_field:
  "\<not> validateData (Obj [(''heartRate'', Num (Finite 72)), (''spO2'', Num (Finite 97)),
      (''squatCount'', Num (Finite 15)), (''postureStatus'', Str ''GOOD''),
      (''fingerDetected'', Boolean True)])"
  by (simp add: validateData_def get_def)

section \<open>Heart-rate bands\<close>

lemma band_normal_iff:
  "num_ge v (Finite 60) \<and> num_le v (Finite 100) \<longleftrightarrow> (\<exists>x. v = Finite x \<and> 60 \<le> x \<and> x \<le> 100)"
  by (cases v) simp_all

lemma band_elevated_iff:
  "num_ge v (Finite 101) \<and> num_le v (Finite 120) \<longleftrightarrow> (\<exists>x. v = Finite x \<and> 101 \<le> x \<and> x \<le> 120)"
  by (cases v) simp_all

lemma hrStatus_updateHeartRate:
  "\<not> isNaN v \<Longrightarrow>
   hrStatus (updateHeartRate (Some v) c) =
     (if num_ge v (Finite 60) \<and> num_le v (Finite 100) then ''Normal''
      else if num_ge v (Finite 101) \<and> num_le v (Finite 120) then ''Elevated''
      else ''High'')"
  by (simp add: updateHeartRate_def Let_def)

text \<open>
  C8.  For every heart-rate value that is a number (not \<open>NaN\<close>), the status written by
  \<^verbatim>\<open>updateHeartRate\<close> is \<open>Normal\<close> exactly when the value lies in 60..100, \<open>Elevated\<close>
  exactly when it lies in 101..120, and \<open>High\<close> in every other case, in particular below
  60; it is one of the three, a function of the value alone (the previous display plays no
  part); 100 is \<open>Normal\<close> and 101 is \<open>Elevated\<close>.  The chart colour of
  \<^verbatim>\<open>getHeartRateColor\<close> follows the same bands (green, yellow, red).
\<close>

theorem heart_rate_classification:
  assumes "\<not> isNaN v"
  shows
    "(hrStatus (updateHeartRate (Some v) c) = ''Normal''
        \<longleftrightarrow> (\<exists>x. v = Finite x \<and> 60 \<le> x \<and> x \<le> 100)) \<and>
     (hrStatus (updateHeartRate (Some v) c) = ''Elevated''
        \<longleftrightarrow> (\<exists>x. v = Finite x \<and> 101 \<le> x \<and> x \<le> 120)) \<and>
     (hrStatus (updateHeartRate (Some v) c) = ''High''
        \<longleftrightarrow> \<not> (\<exists>x. v = Finite x \<and> (60 \<le> x \<and> x \<le> 100 \<or> 101 \<le> x \<and> x \<le> 120))) \<and>
     ((\<exists>x. v = Finite x \<and> x < 60) \<longrightarrow> hrStatus (updateHeartRate (Some v) c) = ''High'') \<and>
     hrStatus (updateHeartRate (Some v) c) = hrStatus (updateHeartRate (Some v) c') \<and>
     hrStatus (updateHeartRate (Some (Finite 100)) c) = ''Normal'' \<and>
     hrStatus (updateHeartRate (Some (Finite 101)) c) = ''Elevated'' \<and>
     (border (getHeartRateColor v) = ''#10b981''
        \<longleftrightarrow> hrStatus (updateHeartRate (Some v) c) = ''Normal'') \<and>
     (border (getHeartRateColor v) = ''#f59e0b''
        \<longleftrightarrow> hrStatus (updateHeartRate (Some v) c) = ''Elevated'') \<and>
     (border (getHeartRateColor v) = ''#ef4444''
        \<longleftrightarrow> hrStatus (updateHeartRate (Some v) c) = ''High'')"
proof -
  have fixed: "hrStatus (updateHeartRate (Some (Finite 100)) c) = ''Normal''"
              "hrStatus (updateHeartRate (Some (Finite 101)) c) = ''Elevated''"
    by (simp_all add: hrStatus_updateHeartRate)
  consider (n) "num_ge v (Finite 60) \<and> num_le v (Finite 100)"
    | (e) "\<not> (num_ge v (Finite 60) \<and> num_le v (Finite 100))" "num_ge v (Finite 101) \<and> num_le v (Finite 120)"
    | (h) "\<not> (num_ge v (Finite 60) \<and> num_le v (Finite 100))" "\<not> (num_ge v (Finite 101) \<and> num_le v (Finite 120))"
    by blast
  then show ?thesis
  proof cases
    case n
    have S: "hrStatus (updateHeartRate (Some v) c) = ''Normal''"
            "hrStatus (updateHeartRate (Some v) c') = ''Normal''"
            "border (getHeartRateColor v) = ''#10b981''"
      using n by (simp_all add: hrStatus_updateHeartRate [OF assms] getHeartRateColor_def)
    from n obtain x where x: "v = Finite x" "60 \<le> x" "x \<le> 100"
      by (auto simp: band_normal_iff)
    show ?thesis
      unfolding S using fixed x by simp
  next
    case e
    have S: "hrStatus (updateHeartRate (Some v) c) = ''Elevated''"
            "hrStatus (updateHeartRate (Some v) c') = ''Elevated''"
            "border (getHeartRateColor v) = ''#f59e0b''"
      using e by (simp_all add: hrStatus_updateHeartRate [OF assms] getHeartRateColor_def)
    from e obtain x where x: "v = Finite x" "101 \<le> x" "x \<le> 120"
      by (auto simp: band_elevated_iff)
    show ?thesis
      unfolding S using fixed x by simp
  next
    case h
    then have no: "\<not> (\<exists>x. v = Finite x \<and> 60 \<le> x \<and> x \<le> 100)"
                  "\<not> (\<exists>x. v = Finite x \<and> 101 \<le> x \<and> x \<le> 120)"
      by (simp_all add: band_normal_iff band_elevated_iff)
    have S: "hrStatus (updateHeartRate (Some v) c) = ''High''"
            "hrStatus (updateHeartRate (Some v) c') = ''High''"
            "border (getHeartRateColor v) = ''#ef4444''"
      using h by (simp_all add: hrStatus_updateHeartRate [OF assms] getHeartRateColor_def)
    show ?thesis
      unfolding S using fixed no by auto
  qed
qed

theorem heart_rate_classification_witness:
  "\<not> isNaN (Finite 59) \<and>
   hrStatus (updateHeartRate (Some (Finite 59)) \<lparr>hrNumber = None, hrStatus = ''No data'',
      heartRateClass = ''metric-value'', hrTrendClass = '''', lastHeartRate = None\<rparr>) = ''High'' \<and>
   border (getHeartRateColor (Finite 59)) = ''#ef4444''"
  using heart_rate_classification [of "Finite 59" "\<lparr>hrNumber = None, hrStatus = ''No data'',
      heartRateClass = ''metric-value'', hrTrendClass = '''', lastHeartRate = None\<rparr>"]
  by simp


section \<open>Reconnection back-off\<close>

lemma scheduleReconnect_auto:
  "\<not> isManualDisconnect m \<Longrightarrow>
   scheduleReconnect m =
     m\<lparr>reconnectAttempts := reconnectAttempts m + 1,
       scheduled := scheduled m @
         [(reconnectAttempts m + 1,
           min (reconnectDelay m * 2 ^ reconnectAttempts m) (maxReconnectDelay m))],
       stateChanges := stateChanges m @ [''connecting''],
       timers := timers m @
         [(timersIssued m + 1, min (reconnectDelay m * 2 ^ reconnectAttempts m) (maxReconnectDelay m))],
       timersIssued := timersIssued m + 1,
       reconnectTimeout := Some (timersIssued m + 1)\<rparr>"
  by (simp add: scheduleReconnect_def updateConnectionState_def setTimeout_def Let_def)

lemma scheduleReconnect_manual: "isManualDisconnect m \<Longrightarrow> scheduleReconnect m = m"
  by (simp add: scheduleReconnect_def)

text \<open>\<open>k\<close> reconnections in a row, none of them followed by a successful open.\<close>

lemma scheduleReconnect_funpow:
  assumes "\<not> isManualDisconnect m"
  shows "\<not> isManualDisconnect ((scheduleReconnect ^^ k) m) \<and>
         reconnectAttempts ((scheduleReconnect ^^ k) m) = reconnectAttempts m + k \<and>
         reconnectDelay ((scheduleReconnect ^^ k) m) = reconnectDelay m \<and>
         maxReconnectDelay ((scheduleReconnect ^^ k) m) = maxReconnectDelay m \<and>
         timersIssued ((scheduleReconnect ^^ k) m) = timersIssued m + k \<and>
         timers ((scheduleReconnect ^^ k) m) =
           timers m @
           map (\<lambda>i. (timersIssued m + Suc i,
                      min (reconnectDelay m * 2 ^ (reconnectAttempts m + i)) (maxReconnectDelay m)))
               [0..<k]"
proof (induction k)
  case 0
  show ?case using assms by simp
next
  case (Suc k)
  let ?n = "(scheduleReconnect ^^ k) m"
  from Suc have auto: "\<not> isManualDisconnect ?n" by simp
  show ?case
    using Suc by (simp add: scheduleReconnect_auto [OF auto])
qed

text \<open>
  C3.  From a fresh manager (no attempt yet, base delay 1000 ms, cap 30000 ms) the delays
  of seven consecutive \<^verbatim>\<open>scheduleReconnect\<close> calls are 1000, 2000, 4000, 8000, 16000,
  30000, 30000 ms, and so are the delays announced when seven connection attempts fail
  one after the other.  Each call that is not suppressed by a manual disconnect first
  increments the attempt counter and then arms one timeout whose delay is
  \<open>min (reconnectDelay * 2 ^ (reconnectAttempts - 1)) maxReconnectDelay\<close>, taken at the
  incremented counter.
\<close>

theorem reconnect_delays_backoff:
  "map snd (timers ((scheduleReconnect ^^ 7) WebSocketManager)) =
     [1000, 2000, 4000, 8000, 16000, 30000, 30000] \<and>
   (\<forall>k. reconnectAttempts ((scheduleReconnect ^^ k) WebSocketManager) = k) \<and>
   scheduled (run (\<lambda>a. True) WebSocketManager
      [UserConnect ''ws://192.168.1.100:81'', SocketClose 0,
       TimerFire 1, SocketClose 1, TimerFire 2, SocketClose 2, TimerFire 3, SocketClose 3,
       TimerFire 4, SocketClose 4, TimerFire 5, SocketClose 5, TimerFire 6, SocketClose 6]) =
     [(1, 1000), (2, 2000), (3, 4000), (4, 8000), (5, 16000), (6, 30000), (7, 30000)] \<and>
   (\<forall>m. \<not> isManualDisconnect m \<longrightarrow>
      reconnectAttempts (scheduleReconnect m) = reconnectAttempts m + 1 \<and>
      timers (scheduleReconnect m) =
        timers m @
        [(timersIssued m + 1,
          min (reconnectDelay m * 2 ^ (reconnectAttempts (scheduleReconnect m) - 1))
              (maxReconnectDelay m))])"
proof -
  have fresh: "\<not> isManualDisconnect WebSocketManager"
              "reconnectAttempts WebSocketManager = 0"
              "reconnectDelay WebSocketManager = 1000"
              "maxReconnectDelay WebSocketManager = 30000"
              "timers WebSocketManager = []"
    by (simp_all add: WebSocketManager_def)
  have seven: "[0..<7] = [0, 1, 2, 3, 4, 5, 6]"
    by (simp add: upt_rec)
  have "timers ((scheduleReconnect ^^ 7) WebSocketManager) =
          map (\<lambda>i. (timersIssued WebSocketManager + Suc i, min (1000 * 2 ^ i) 30000)) [0..<7]"
    using scheduleReconnect_funpow [OF fresh(1), of 7] by (simp add: fresh)
  then have delays: "map snd (timers ((scheduleReconnect ^^ 7) WebSocketManager)) =
      [1000, 2000, 4000, 8000, 16000, 30000, 30000]"
    by (simp add: seven)
  have counter: "reconnectAttempts ((scheduleReconnect ^^ k) WebSocketManager) = k" for k
    using scheduleReconnect_funpow [OF fresh(1), of k] by (simp add: fresh)
  have one: "reconnectAttempts (scheduleReconnect m) = reconnectAttempts m + 1 \<and>
      timers (scheduleReconnect m) =
        timers m @
        [(timersIssued m + 1,
          min (reconnectDelay m * 2 ^ (reconnectAttempts (scheduleReconnect m) - 1))
              (maxReconnectDelay m))]"
    if "\<not> isManualDisconnect m" for m
    by (simp add: scheduleReconnect_auto [OF that])
  have failing: "scheduled (run (\<lambda>a. True) WebSocketManager
      [UserConnect ''ws://192.168.1.100:81'', SocketClose 0,
       TimerFire 1, SocketClose 1, TimerFire 2, SocketClose 2, TimerFire 3, SocketClose 3,
       TimerFire 4, SocketClose 4, TimerFire 5, SocketClose 5, TimerFire 6, SocketClose 6]) =
     [(1, 1000), (2, 2000), (3, 4000), (4, 8000), (5, 16000), (6, 30000), (7, 30000)]"
    by (simp add: run_def connect_def onclose_def scheduleReconnect_def updateConnectionState_def
          setTimeout_def clearTimeout_def readyState_def Let_def WebSocketManager_def)
  show ?thesis
    using delays one counter failing by blast
qed

theorem reconnect_delays_backoff_witness:
  "\<not> isManualDisconnect WebSocketManager \<and>
   reconnectAttempts (scheduleReconnect WebSocketManager) = 1 \<and>
   timers (scheduleReconnect WebSocketManager) = [(1, 1000)]"
proof -
  have fresh: "\<not> isManualDisconnect WebSocketManager"
    by (simp add: WebSocketManager_def)
  from reconnect_delays_backoff have
    "reconnectAttempts (scheduleReconnect WebSocketManager) = reconnectAttempts WebSocketManager + 1 \<and>
     timers (scheduleReconnect WebSocketManager) =
       timers WebSocketManager @
       [(timersIssued WebSocketManager + 1,
         min (reconnectDelay WebSocketManager *
              2 ^ (reconnectAttempts (scheduleReconnect WebSocketManager) - 1))
             (maxReconnectDelay WebSocketManager))]"
    using fresh by blast
  then show ?thesis
    by (simp add: WebSocketManager_def)
qed

section \<open>Manual disconnect\<close>

lemma step_silenced:
  "silenced m \<Longrightarrow> \<not> is_UserConnect e \<Longrightarrow> silenced (step valid m e)"
  by (cases e)
     (auto simp: silenced_def disconnect_def onopen_def onerror_def onclose_def clearTimeout_def
                 updateConnectionState_def Let_def split: option.splits)

lemma run_silenced:
  "silenced m \<Longrightarrow> \<forall>e \<in> set es. \<not> is_UserConnect e \<Longrightarrow> silenced (run valid m es)"
  unfolding run_def
  by (induction es arbitrary: m) (simp_all add: step_silenced)

text \<open>
  \<^verbatim>\<open>disconnect\<close> silences the manager when every pending timeout is the one the manager
  still holds the handle of.
\<close>

lemma disconnect_silences:
  assumes "\<forall>t \<in> set (timers m). reconnectTimeout m = Some (fst t)"
  shows "silenced (disconnect m)"
proof (cases "reconnectTimeout m")
  case None
  with assms have "timers m = []"
    by (cases "timers m") auto
  with None show ?thesis
    by (simp add: silenced_def disconnect_def updateConnectionState_def Let_def split: option.splits)
next
  case (Some h)
  with assms have "filter (\<lambda>t. fst t \<noteq> h) (timers m) = []"
    by (auto simp: filter_empty_conv)
  with Some show ?thesis
    by (simp add: silenced_def disconnect_def clearTimeout_def updateConnectionState_def Let_def
             split: option.splits)
qed

text \<open>
  \<^verbatim>\<open>scheduleReconnect\<close> overwrites \<open>reconnectTimeout\<close> without clearing the timeout it
  referred to, and \<^verbatim>\<open>connect\<close> leaves a pending timeout alone.  So two timeouts can be
  pending: the automatic retry is waiting (timeout 1), the user presses Connect, that
  attempt fails as well (timeout 2).  A manual disconnect then cancels timeout 2 only.
\<close>

lemma two_pending_timeouts:
  "timers (run (\<lambda>a. True) WebSocketManager
      [UserConnect ''ws://192.168.1.100:81'', SocketClose 0,
       UserConnect ''ws://192.168.1.100:81'', SocketClose 1]) = [(1, 1000), (2, 2000)]"
  by (simp add: run_def connect_def onclose_def scheduleReconnect_def updateConnectionState_def
        setTimeout_def readyState_def Let_def WebSocketManager_def)

text \<open>
  C4.  Claimed: after a manual \<^verbatim>\<open>disconnect()\<close>, and until Connect is pressed again, no
  reconnect is scheduled, since \<^verbatim>\<open>disconnect()\<close> cancels any pending reconnect timeout and
  a later close of the transport schedules nothing.  The program departs from this when
  two timeouts are pending: after the four events above a manual disconnect leaves
  timeout 1 pending.  When it fires, \<^verbatim>\<open>connect()\<close> clears the manual-disconnect mark and
  opens a socket; when that socket closes, a further reconnect (attempt 3, 4000 ms) is
  scheduled, although Connect was not pressed after the disconnect.
\<close>

theorem manual_disconnect_misses_leaked_timeout:
  "timers (run (\<lambda>a. True) WebSocketManager
      [UserConnect ''ws://192.168.1.100:81'', SocketClose 0,
       UserConnect ''ws://192.168.1.100:81'', SocketClose 1,
       UserDisconnect]) = [(1, 1000)] \<and>
   (let m = run (\<lambda>a. True) WebSocketManager
      [UserConnect ''ws://192.168.1.100:81'', SocketClose 0,
       UserConnect ''ws://192.168.1.100:81'', SocketClose 1,
       UserDisconnect, TimerFire 1, SocketClose 2]
    in \<not> isManualDisconnect m \<and> reconnectAttempts m = 3 \<and> timers m = [(3, 4000)])"
  by (simp add: run_def connect_def disconnect_def onclose_def scheduleReconnect_def
        updateConnectionState_def setTimeout_def clearTimeout_def readyState_def close_socket_def
        Let_def WebSocketManager_def)


section \<open>Persisting under a storage quota\<close>

lemma slice_last_length: "length (slice_last n xs) = min n (length xs)"
  by (auto simp: slice_last_def)

lemma slice_last_short: "length xs \<le> n \<Longrightarrow> slice_last n xs = xs"
  by (simp add: slice_last_def)

lemma clearOldData_small:
  "length (data (sessionData sm)) \<le> 500 \<Longrightarrow> clearOldData quota sm = sm"
  by (subst clearOldData.simps) simp

lemma persist_no_quota:
  "quota (setItemCalls sm) \<noteq> QuotaExceededError \<Longrightarrow>
   sessionData (persist quota sm) = sessionData sm \<and>
   sessionStartTime (persist quota sm) = sessionStartTime sm \<and>
   setItemCalls (persist quota sm) = setItemCalls sm + 1 \<and>
   alerts (persist quota sm) = alerts sm \<and>
   downloads (persist quota sm) = downloads sm \<and>
   localStorage (persist quota sm) =
     (if quota (setItemCalls sm) = Written
      then Some (JSON_stringify (js_of_session (sessionData sm))) else localStorage sm)"
  by (subst (1 2 3 4 5 6) persist.simps) (simp add: Let_def split: write_result.splits)

text \<open>A quota failure on a buffer of at most 500 readings: one warning, no second write.\<close>

lemma persist_quota_small:
  assumes "quota (setItemCalls sm) = QuotaExceededError"
      and "length (data (sessionData sm)) \<le> 500"
  shows "persist quota sm =
           sm\<lparr>setItemCalls := setItemCalls sm + 1,
              alerts := alerts sm @ [''Storage quota exceeded. Clearing old data...'']\<rparr>"
  using assms by (subst persist.simps) (simp add: Let_def clearOldData_small)

text \<open>
  A quota failure on a longer buffer: the tail of 500 readings is kept and written once
  more; whatever that second write does, no third one follows.
\<close>

lemma persist_quota_large:
  assumes q: "quota (setItemCalls sm) = QuotaExceededError"
      and big: "500 < length (data (sessionData sm))"
  shows "persist quota sm =
           persist quota
             (sm\<lparr>setItemCalls := setItemCalls sm + 1,
                 alerts := alerts sm @ [''Storage quota exceeded. Clearing old data...''],
                 sessionData :=
                   \<lparr>data = slice_last 500 (data (sessionData sm)),
                    metadata = (metadata (sessionData sm))\<lparr>totalReadings := 500\<rparr>\<rparr>\<rparr>)"
proof -
  have len: "length (slice_last 500 (data (sessionData sm))) = 500"
    using big by (simp add: slice_last_length)
  show ?thesis
    using q big
    by (subst persist.simps, subst clearOldData.simps) (simp add: Let_def len)
qed

lemma persist_retry:
  assumes "length (data (sessionData sm)) \<le> 500"
  shows "sessionData (persist quota sm) = sessionData sm \<and>
         sessionStartTime (persist quota sm) = sessionStartTime sm \<and>
         setItemCalls (persist quota sm) = setItemCalls sm + 1 \<and>
         downloads (persist quota sm) = downloads sm \<and>
         alerts (persist quota sm) =
           alerts sm @ (if quota (setItemCalls sm) = QuotaExceededError
                        then [''Storage quota exceeded. Clearing old data...''] else []) \<and>
         localStorage (persist quota sm) =
           (if quota (setItemCalls sm) = Written
            then Some (JSON_stringify (js_of_session (sessionData sm))) else localStorage sm)"
proof (cases "quota (setItemCalls sm) = QuotaExceededError")
  case True
  then show ?thesis
    using persist_quota_small [of quota sm] assms by simp
next
  case False
  then show ?thesis
    using persist_no_quota [of quota sm] by simp
qed

text \<open>In every case the buffer after \<^verbatim>\<open>persist\<close> is the buffer before, or its last 500 readings.\<close>

lemma persist_data:
  "data (sessionData (persist quota sm)) =
     (if quota (setItemCalls sm) = QuotaExceededError \<and> 500 < length (data (sessionData sm))
      then slice_last 500 (data (sessionData sm)) else data (sessionData sm))"
proof (cases "quota (setItemCalls sm) = QuotaExceededError")
  case False
  then show ?thesis using persist_no_quota [of quota sm] by simp
next
  case q: True
  show ?thesis
  proof (cases "500 < length (data (sessionData sm))")
    case False
    then have "length (data (sessionData sm)) \<le> 500" by simp
    with persist_quota_small [of quota sm] False q show ?thesis by simp
  next
    case True
    have "length (slice_last 500 (data (sessionData sm))) \<le> 500"
      by (simp add: slice_last_length)
    then show ?thesis
      using q True persist_quota_large [of quota sm] by (simp add: persist_retry)
  qed
qed

text \<open>
  C9 (amended).  When the write in \<^verbatim>\<open>persist\<close> fails on the quota, the failure is caught
  and one warning is shown.  If the buffer holds more than 500 readings it is cut down to
  its last 500, \<open>totalReadings\<close> is set to 500 and the write is made once more (a second
  warning and nothing else follows if that write fails on the quota too).  If the buffer
  holds at most 500 readings it is left as it is and no second write is made.
\<close>

theorem persist_quota_fallback:
  assumes "quota (setItemCalls sm) = QuotaExceededError"
  shows
    "(let d = data (sessionData sm);
          big = 500 < length d;
          again = big \<and> quota (setItemCalls sm + 1) = QuotaExceededError;
          r = persist quota sm
      in alerts r =
           alerts sm @ ''Storage quota exceeded. Clearing old data...'' #
             (if again then [''Storage quota exceeded. Clearing old data...''] else []) \<and>
         data (sessionData r) = (if big then drop (length d - 500) d else d) \<and>
         length (data (sessionData r)) = (if big then 500 else length d) \<and>
         totalReadings (metadata (sessionData r)) =
           (if big then 500 else totalReadings (metadata (sessionData sm))) \<and>
         setItemCalls r = setItemCalls sm + (if big then 2 else 1) \<and>
         localStorage r =
           (if big \<and> quota (setItemCalls sm + 1) = Written
            then Some (JSON_stringify (js_of_session (sessionData r)))
            else localStorage sm))"
proof (cases "500 < length (data (sessionData sm))")
  case False
  then have small: "length (data (sessionData sm)) \<le> 500" by simp
  show ?thesis
    using False persist_quota_small [of quota sm, OF assms small] by (simp add: Let_def)
next
  case True
  let ?cut = "sm\<lparr>setItemCalls := setItemCalls sm + 1,
                 alerts := alerts sm @ [''Storage quota exceeded. Clearing old data...''],
                 sessionData :=
                   \<lparr>data = slice_last 500 (data (sessionData sm)),
                    metadata = (metadata (sessionData sm))\<lparr>totalReadings := 500\<rparr>\<rparr>\<rparr>"
  have len: "length (slice_last 500 (data (sessionData sm))) = 500"
    using True by (simp add: slice_last_length)
  then have "length (data (sessionData ?cut)) \<le> 500" by simp
  note retry = persist_retry [OF this, of quota]
  have "persist quota sm = persist quota ?cut"
    by (rule persist_quota_large [of quota sm, OF assms True])
  then show ?thesis
    using True retry len by (simp add: Let_def slice_last_def)
qed

text \<open>
  As stated, with one retry in every case, C9 fails on a short buffer: the first reading
  of a session, recorded while the storage is full, is written once and kept.
\<close>

theorem persist_quota_no_retry_on_short_buffer:
  "setItemCalls (saveReading (\<lambda>i. QuotaExceededError) 0 [] example_payload StorageManager) = 1 \<and>
   length (data (sessionData
     (saveReading (\<lambda>i. QuotaExceededError) 0 [] example_payload StorageManager))) = 1 \<and>
   alerts (saveReading (\<lambda>i. QuotaExceededError) 0 [] example_payload StorageManager) =
     [''Storage quota exceeded. Clearing old data...'']"
  by (simp add: saveReading_def StorageManager_def empty_session_def maxStorageItems_def
        persist_quota_small Let_def)

theorem persist_quota_fallback_witness:
  "setItemCalls
     (persist (\<lambda>i. if i = 0 then QuotaExceededError else Written)
        (StorageManager\<lparr>sessionData :=
           \<lparr>data = replicate 501 (reading_at 0 [] example_payload),
            metadata = metadata empty_session\<rparr>\<rparr>)) = 2 \<and>
   data (sessionData
     (persist (\<lambda>i. if i = 0 then QuotaExceededError else Written)
        (StorageManager\<lparr>sessionData :=
           \<lparr>data = replicate 501 (reading_at 0 [] example_payload),
            metadata = metadata empty_session\<rparr>\<rparr>))) =
   replicate 500 (reading_at 0 [] example_payload)"
  using persist_quota_fallback
    [of "\<lambda>i. if i = 0 then QuotaExceededError else Written"
        "StorageManager\<lparr>sessionData :=
           \<lparr>data = replicate 501 (reading_at 0 [] example_payload),
            metadata = metadata empty_session\<rparr>\<rparr>"]
  by (simp add: StorageManager_def Let_def)

section \<open>The bounded buffer\<close>

lemma record_all_Nil: "record_all quota sm [] = sm"
  by (simp add: record_all_def)

lemma record_all_Cons:
  "record_all quota sm ((now, isoText, p) # inputs) =
     record_all quota (saveReading quota now isoText p sm) inputs"
  by (simp add: record_all_def)

lemma record_all_snoc:
  "record_all quota sm (inputs @ [(now, isoText, p)]) =
     saveReading quota now isoText p (record_all quota sm inputs)"
  by (simp add: record_all_def)

lemma pushed_buffer_length:
  "length d \<le> maxStorageItems \<Longrightarrow> length (pushed_buffer d r) \<le> maxStorageItems"
  by (simp add: pushed_buffer_def)

lemma pushed_buffer_slice:
  "length d \<le> maxStorageItems \<Longrightarrow> pushed_buffer d r = slice_last maxStorageItems (d @ [r])"
  by (cases d) (auto simp: pushed_buffer_def slice_last_def Suc_diff_le)

lemma saveReading_data:
  "data (sessionData (saveReading quota now isoText p sm)) =
     (if quota (setItemCalls sm) = QuotaExceededError \<and>
         500 < length (pushed_buffer (data (sessionData sm)) (reading_at now isoText p))
      then slice_last 500 (pushed_buffer (data (sessionData sm)) (reading_at now isoText p))
      else pushed_buffer (data (sessionData sm)) (reading_at now isoText p))"
  by (simp add: saveReading_def Let_def persist_data pushed_buffer_def)

lemma saveReading_length:
  assumes "length (data (sessionData sm)) \<le> maxStorageItems"
  shows "length (data (sessionData (saveReading quota now isoText p sm))) \<le> maxStorageItems"
  using pushed_buffer_length [OF assms, of "reading_at now isoText p"]
  by (simp add: saveReading_data slice_last_length)

lemma record_all_length:
  "length (data (sessionData sm)) \<le> maxStorageItems \<Longrightarrow>
   length (data (sessionData (record_all quota sm inputs))) \<le> maxStorageItems"
proof (induction inputs arbitrary: sm)
  case Nil
  then show ?case by (simp add: record_all_Nil)
next
  case (Cons input inputs)
  obtain now isoText p where input: "input = (now, isoText, p)"
    by (cases input) auto
  show ?case
    unfolding input record_all_Cons
    by (rule Cons.IH) (rule saveReading_length [OF Cons.prems])
qed

lemma getStats_totalReadings:
  "stats_totalReadings (getStats sm) = length (data (sessionData sm))"
  by (simp add: getStats_def Let_def)

text \<open>
  C1.  Starting from a session whose buffer holds at most 1000 readings (the empty session
  in particular), after any sequence of \<^verbatim>\<open>saveReading\<close> calls, whatever the storage does
  on each write, the buffer holds at most 1000 readings, and the \<open>totalReadings\<close> that
  \<^verbatim>\<open>getStats\<close> returns is the length of the buffer at that moment.
\<close>

theorem buffer_never_exceeds_cap:
  assumes "length (data (sessionData sm)) \<le> maxStorageItems"
  shows "length (data (sessionData (record_all quota sm inputs))) \<le> 1000 \<and>
         stats_totalReadings (getStats (record_all quota sm inputs)) =
           length (data (sessionData (record_all quota sm inputs)))"
  using record_all_length [OF assms, of quota inputs]
  by (simp add: getStats_totalReadings maxStorageItems_def)

theorem buffer_never_exceeds_cap_witness:
  "length (data (sessionData StorageManager)) \<le> maxStorageItems \<and>
   length (data (sessionData (record_all (\<lambda>i. Written) StorageManager
      [(1000, ''1970-01-01T00:00:01.000Z'', example_payload),
       (1500, ''1970-01-01T00:00:01.500Z'', example_payload)]))) \<le> 1000 \<and>
   stats_totalReadings (getStats (record_all (\<lambda>i. Written) StorageManager
      [(1000, ''1970-01-01T00:00:01.000Z'', example_payload),
       (1500, ''1970-01-01T00:00:01.500Z'', example_payload)])) = 2"
proof -
  have start: "length (data (sessionData StorageManager)) \<le> maxStorageItems"
    by (simp add: StorageManager_def empty_session_def)
  have two: "length (data (sessionData (record_all (\<lambda>i. Written) StorageManager
      [(1000, ''1970-01-01T00:00:01.000Z'', example_payload),
       (1500, ''1970-01-01T00:00:01.500Z'', example_payload)]))) = 2"
    by (simp add: record_all_Cons record_all_Nil saveReading_data pushed_buffer_def
          StorageManager_def empty_session_def maxStorageItems_def)
  show ?thesis
    using start two
      buffer_never_exceeds_cap [OF start, of "\<lambda>i. Written"
        "[(1000, ''1970-01-01T00:00:01.000Z'', example_payload),
          (1500, ''1970-01-01T00:00:01.500Z'', example_payload)]"]
    by simp
qed

section \<open>First in, first out\<close>

lemma slice_last_slice_last_append:
  "slice_last n (slice_last n xs @ ys) = slice_last n (xs @ ys)"
  by (cases "length xs \<le> n") (auto simp: slice_last_def add.commute)

text \<open>While no write fails on the quota, the buffer is the last 1000 readings recorded.\<close>

lemma saveReading_written:
  assumes "quota (setItemCalls sm) \<noteq> QuotaExceededError"
      and "length (data (sessionData sm)) \<le> maxStorageItems"
  shows "data (sessionData (saveReading quota now isoText p sm)) =
           slice_last maxStorageItems (data (sessionData sm) @ [reading_at now isoText p]) \<and>
         setItemCalls (saveReading quota now isoText p sm) = setItemCalls sm + 1"
proof -
  have calls: "setItemCalls (persist quota s) = setItemCalls s + 1"
    if "quota (setItemCalls s) \<noteq> QuotaExceededError" for s
    using persist_no_quota [of quota s] that by simp
  have "setItemCalls (saveReading quota now isoText p sm) = setItemCalls sm + 1"
    unfolding saveReading_def Let_def
    by (subst calls) (simp_all add: assms(1))
  then show ?thesis
    using assms by (simp add: saveReading_data pushed_buffer_slice)
qed

lemma record_all_written:
  assumes "\<forall>i. setItemCalls sm \<le> i \<and> i < setItemCalls sm + length inputs
              \<longrightarrow> quota i \<noteq> QuotaExceededError"
      and "length (data (sessionData sm)) \<le> maxStorageItems"
  shows "data (sessionData (record_all quota sm inputs)) =
           slice_last maxStorageItems (data (sessionData sm) @ map reading_of inputs) \<and>
         setItemCalls (record_all quota sm inputs) = setItemCalls sm + length inputs"
  using assms
proof (induction inputs arbitrary: sm)
  case Nil
  then show ?case by (simp add: record_all_Nil slice_last_short)
next
  case (Cons input inputs)
  obtain now isoText p where input: "input = (now, isoText, p)"
    by (cases input) auto
  let ?sm = "saveReading quota now isoText p sm"
  have first: "quota (setItemCalls sm) \<noteq> QuotaExceededError"
    using Cons.prems(1) by simp
  note one = saveReading_written [of quota sm now isoText p, OF first Cons.prems(2)]
  have rest: "\<forall>i. setItemCalls ?sm \<le> i \<and> i < setItemCalls ?sm + length inputs
                \<longrightarrow> quota i \<noteq> QuotaExceededError"
    using Cons.prems(1) one by simp
  have cap: "length (data (sessionData ?sm)) \<le> maxStorageItems"
    by (rule saveReading_length [OF Cons.prems(2)])
  have r: "reading_of input = reading_at now isoText p"
    by (simp add: input reading_of_def)
  show ?case
    unfolding input [symmetric]
    using Cons.IH [OF rest cap] one
    by (simp add: input record_all_Cons r [unfolded input] slice_last_slice_last_append)
qed

text \<open>
  C2 (amended).  Starting from an empty session, after 1001 \<^verbatim>\<open>saveReading\<close> calls none of
  whose storage writes fails on the quota, the buffer holds exactly 1000 readings, its
  first element is the second reading recorded, and the buffer is the readings recorded
  without the first one, in their order.
\<close>

theorem eviction_is_fifo:
  assumes "\<forall>i. setItemCalls sm \<le> i \<and> i < setItemCalls sm + length inputs
              \<longrightarrow> quota i \<noteq> QuotaExceededError"
      and "data (sessionData sm) = []"
      and "length inputs = 1001"
  shows "length (data (sessionData (record_all quota sm inputs))) = 1000 \<and>
         hd (data (sessionData (record_all quota sm inputs))) = reading_of (inputs ! 1) \<and>
         data (sessionData (record_all quota sm inputs)) = map reading_of (tl inputs)"
proof -
  have "length (data (sessionData sm)) \<le> maxStorageItems"
    using assms(2) by simp
  from record_all_written [OF assms(1) this]
  have "data (sessionData (record_all quota sm inputs)) =
          slice_last maxStorageItems (map reading_of inputs)"
    using assms(2) by simp
  then have buffer: "data (sessionData (record_all quota sm inputs)) = drop 1 (map reading_of inputs)"
    using assms(3) by (simp add: slice_last_def maxStorageItems_def)
  have "hd (drop 1 (map reading_of inputs)) = map reading_of inputs ! 1"
    using assms(3) by (intro hd_drop_conv_nth) simp
  also have "\<dots> = reading_of (inputs ! 1)"
    using assms(3) by simp
  finally show ?thesis
    using assms(3) by (simp add: buffer drop_Suc map_tl)
qed

theorem eviction_is_fifo_witness:
  "length (data (sessionData (record_all (\<lambda>i. Written) StorageManager
      (map (\<lambda>n. (n, [], example_payload)) [0..<1001])))) = 1000 \<and>
   timestamp (hd (data (sessionData (record_all (\<lambda>i. Written) StorageManager
      (map (\<lambda>n. (n, [], example_payload)) [0..<1001]))))) = 1"
proof -
  let ?inputs = "map (\<lambda>n. (n, [], example_payload)) [0..<1001]"
  let ?quota = "\<lambda>i::nat. Written"
  have no_failure: "\<forall>i. setItemCalls StorageManager \<le> i \<and>
      i < setItemCalls StorageManager + length ?inputs \<longrightarrow> ?quota i \<noteq> QuotaExceededError"
    by simp
  have empty: "data (sessionData StorageManager) = []"
    by (simp add: StorageManager_def empty_session_def)
  have count: "length ?inputs = 1001"
    by simp
  have second: "reading_of (?inputs ! 1) = reading_at 1 [] example_payload"
    by (simp add: reading_of_def)
  from eviction_is_fifo [of StorageManager ?inputs ?quota, OF no_failure empty count]
  have "length (data (sessionData (record_all ?quota StorageManager ?inputs))) = 1000"
    and "hd (data (sessionData (record_all ?quota StorageManager ?inputs))) =
           reading_of (?inputs ! 1)"
    by blast+
  then show ?thesis
    by (simp only: second) (simp add: reading_at_def)
qed

text \<open>
  As stated, without the proviso, C2 fails: when the write of the 1001st reading fails on
  the quota, \<^verbatim>\<open>clearOldData\<close> cuts the buffer, then 1000 readings long, down to 500.
\<close>

theorem eviction_after_quota_failure:
  "length (data (sessionData
     (record_all (\<lambda>i. if i = 1000 then QuotaExceededError else Written) StorageManager
        (map (\<lambda>n. (n, [], example_payload)) [0..<1001])))) = 500"
proof -
  let ?quota = "\<lambda>i::nat. if i = 1000 then QuotaExceededError else Written"
  let ?first = "map (\<lambda>n. (n, [], example_payload)) [0..<1000]"
  let ?sm = "record_all ?quota StorageManager ?first"
  have fresh: "setItemCalls StorageManager = 0" "data (sessionData StorageManager) = []"
    by (simp_all add: StorageManager_def empty_session_def)
  have no_failure: "\<forall>i. setItemCalls StorageManager \<le> i \<and>
      i < setItemCalls StorageManager + length ?first \<longrightarrow> ?quota i \<noteq> QuotaExceededError"
    by (simp add: fresh)
  have cap: "length (data (sessionData StorageManager)) \<le> maxStorageItems"
    by (simp add: fresh)
  note record_all_written [of StorageManager ?first ?quota, OF no_failure cap]
  then have sm: "length (data (sessionData ?sm)) = 1000" "setItemCalls ?sm = 1000"
    by (simp_all add: fresh slice_last_length maxStorageItems_def)
  have "[0..<1001] = [0..<1000] @ [1000]"
    using upt_Suc_append [of 0 1000] by simp
  then have "record_all ?quota StorageManager (map (\<lambda>n. (n, [], example_payload)) [0..<1001]) =
             saveReading ?quota 1000 [] example_payload ?sm"
    by (simp add: record_all_snoc)
  moreover have "length (data (sessionData (saveReading ?quota 1000 [] example_payload ?sm))) = 500"
    by (simp add: saveReading_data sm pushed_buffer_def maxStorageItems_def slice_last_length)
  ultimately show ?thesis
    by simp
qed


section \<open>Statistics of the buffer\<close>

subsection \<open>Rounding to binary64\<close>

lemma round_half_even_of_int [simp]: "round_half_even (of_int k) = k"
  by (simp add: round_half_even_def)

lemma round_half_even_close: "\<bar>of_int (round_half_even q) - q\<bar> \<le> 1 / 2"
  unfolding round_half_even_def Let_def by (auto; linarith)

lemma exponent64_upper:
  assumes "x \<noteq> 0" "\<bar>x\<bar> < 2 powr of_int k" "- 1022 \<le> k - 1"
  shows "exponent64 x \<le> k - 1"
proof -
  have "log 2 \<bar>x\<bar> < of_int k"
    using assms(1,2) by (simp add: log_less_iff)
  then have "\<lfloor>log 2 \<bar>x\<bar>\<rfloor> \<le> k - 1"
    by linarith
  with assms(3) show ?thesis
    by (simp add: exponent64_def)
qed

lemma exponent64_lower: "- 1022 \<le> exponent64 x"
  by (simp add: exponent64_def)

lemma below_exponent64: "x \<noteq> 0 \<Longrightarrow> \<bar>x\<bar> < 2 powr (of_int (exponent64 x) + 1)"
proof -
  assume x: "x \<noteq> 0"
  have "log 2 \<bar>x\<bar> < of_int \<lfloor>log 2 \<bar>x\<bar>\<rfloor> + 1"
    by linarith
  also have "\<dots> \<le> of_int (exponent64 x) + 1"
    by (simp add: exponent64_def)
  finally show ?thesis
    using x by (simp add: log_less_iff)
qed

lemma below_overflow: "(x::real) \<le> 2 ^ 54 \<Longrightarrow> x < 2 powr 1024"
proof -
  assume x: "x \<le> 2 ^ 54"
  have "(2::real) ^ 54 < 2 ^ 1024"
    by (rule power_strict_increasing) simp_all
  also have "\<dots> = 2 powr (real (1024::nat))"
    by (simp only: powr_realpow zero_less_numeral)
  finally show ?thesis
    using x by simp
qed

text \<open>On a binary64 value (a 53-bit multiplier, an exponent in range) nothing is rounded.\<close>

lemma round64_exact:
  assumes m: "\<bar>m\<bar> < 2 ^ 53" and k: "- 1074 \<le> k"
    and fin: "\<bar>real_of_int m * 2 powr (of_int k)\<bar> < 2 powr 1024"
  shows "round64 (of_int m * 2 powr (of_int k)) = Finite (of_int m * 2 powr (of_int k))"
proof (cases "m = 0")
  case True
  then show ?thesis by (simp add: round64_def)
next
  case False
  define x where "x = real_of_int m * 2 powr (of_int k)"
  define e where "e = exponent64 x"
  have x0: "x \<noteq> 0"
    using False by (simp add: x_def)
  have mr: "\<bar>real_of_int m\<bar> < 2 ^ 53"
    using m by (metis of_int_abs of_int_less_numeral_power_cancel_iff)
  have "\<bar>x\<bar> = \<bar>real_of_int m\<bar> * 2 powr (of_int k)"
    by (simp add: x_def abs_mult)
  also have "\<dots> < 2 ^ 53 * 2 powr (of_int k)"
    using mr by (intro mult_strict_right_mono) simp_all
  also have "\<dots> = 2 powr (real_of_int (53 + k))"
    by (simp add: powr_add powr_realpow [of 2 53, simplified])
  finally have small: "\<bar>x\<bar> < 2 powr (real_of_int (53 + k))" .
  have e: "e \<le> 52 + k"
    using exponent64_upper [OF x0 small] k by (simp add: e_def)
  define d where "d = nat (52 + k - e)"
  have d: "real_of_int k = real d + (real_of_int e - 52)"
    using e by (simp add: d_def)
  define u where "u = ulp64 x"
  have "2 powr (real_of_int k) = 2 powr (real d) * 2 powr (real_of_int e - 52)"
    unfolding d by (rule powr_add)
  also have "2 powr (real d) = (2::real) ^ d"
    by (simp only: powr_realpow zero_less_numeral)
  finally have split: "2 powr (real_of_int k) = 2 ^ d * u"
    by (simp only: ulp64_def e_def u_def)
  have u0: "u \<noteq> 0"
    by (simp add: u_def ulp64_def)
  have q: "x / u = of_int (m * 2 ^ d)"
    using u0 by (simp add: x_def split)
  have y: "of_int (round_half_even (x / u)) * u = x"
    unfolding q round_half_even_of_int by (simp add: x_def split)
  have "\<not> 2 powr 1024 \<le> \<bar>x\<bar>"
    using fin by (simp add: x_def)
  then have "round64 x = Finite x"
    using x0 unfolding round64_def Let_def u_def [symmetric] y by simp
  then show ?thesis
    by (simp add: x_def)
qed

lemma round64_dyadic:
  assumes "\<bar>m\<bar> < 2 ^ 53" "j \<le> 1074"
  shows "round64 (of_int m / 2 ^ j) = Finite (of_int m / 2 ^ j)"
proof -
  have p: "2 powr (real_of_int (- int j)) = 1 / 2 ^ j"
    by (simp add: powr_minus_divide powr_realpow)
  have mr: "\<bar>real_of_int m\<bar> < 2 ^ 53"
    using assms(1) by (metis of_int_abs of_int_less_numeral_power_cancel_iff)
  have "\<bar>real_of_int m\<bar> / 2 ^ j \<le> \<bar>real_of_int m\<bar> / 1"
    by (rule frac_le) simp_all
  moreover have "\<bar>real_of_int m * 2 powr (real_of_int (- int j))\<bar> = \<bar>real_of_int m\<bar> / 2 ^ j"
    unfolding p by (simp add: abs_divide)
  ultimately have "\<bar>real_of_int m * 2 powr (real_of_int (- int j))\<bar> \<le> 2 ^ 54"
    using mr by simp
  then have "\<bar>real_of_int m * 2 powr (real_of_int (- int j))\<bar> < 2 powr 1024"
    by (rule below_overflow)
  from round64_exact [OF assms(1) _ this] assms(2)
  have "round64 (real_of_int m * 2 powr (real_of_int (- int j))) =
        Finite (real_of_int m * 2 powr (real_of_int (- int j)))"
    by simp
  then show ?thesis
    unfolding p by simp
qed

lemma round64_of_int: "\<bar>m\<bar> < 2 ^ 53 \<Longrightarrow> round64 (of_int m) = Finite (of_int m)"
  using round64_dyadic [of m 0] by simp

text \<open>The rounding of a binary64 value is that value.\<close>

lemma round64_idem:
  assumes "round64 x = Finite y"
  shows "round64 y = Finite y"
proof (cases "x = 0")
  case True
  with assms show ?thesis by (simp add: round64_def)
next
  case False
  define e where "e = exponent64 x"
  define r where "r = round_half_even (x / ulp64 x)"
  have y: "y = of_int r * 2 powr (of_int (e - 52))" and fin: "\<bar>y\<bar> < 2 powr 1024"
    using assms False
    by (simp_all add: round64_def Let_def r_def ulp64_def e_def split: if_splits)
  have le: "- 1022 \<le> e"
    by (simp add: e_def exponent64_lower)
  have "\<bar>x\<bar> < 2 powr (of_int e + 1)"
    unfolding e_def by (rule below_exponent64 [OF False])
  then have "\<bar>x\<bar> / ulp64 x < 2 powr (of_int e + 1) / ulp64 x"
    by (intro divide_strict_right_mono) (simp_all add: ulp64_def)
  also have "\<dots> = 2 ^ 53"
    by (simp add: ulp64_def e_def flip: powr_diff)
  finally have "\<bar>x / ulp64 x\<bar> < 2 ^ 53"
    by (simp add: abs_divide ulp64_def)
  with round_half_even_close [of "x / ulp64 x"]
  have "\<bar>real_of_int r\<bar> < 2 ^ 53 + 1"
    unfolding r_def by linarith
  then have "\<bar>real_of_int r\<bar> < real_of_int (2 ^ 53 + 1)"
    by simp
  then have "\<bar>r\<bar> < 2 ^ 53 + 1"
    by (simp only: of_int_less_iff flip: of_int_abs)
  then consider "\<bar>r\<bar> < 2 ^ 53" | "r = 2 ^ 53" | "r = - (2 ^ 53)"
    by linarith
  then show ?thesis
  proof cases
    case 1
    have k: "- 1074 \<le> e - 52"
      using le by simp
    show ?thesis
      unfolding y by (rule round64_exact [OF 1 k fin [unfolded y]])
  next
    case 2
    have "real_of_int r * 2 powr (real_of_int (e - 52)) = 2 powr 53 * 2 powr (real_of_int (e - 52))"
      by (simp add: 2)
    also have "\<dots> = 2 powr (53 + real_of_int (e - 52))"
      by (rule powr_add [symmetric])
    also have "\<dots> = real_of_int 1 * 2 powr (real_of_int (e + 1))"
      by (simp add: add.commute)
    finally have y1: "y = real_of_int 1 * 2 powr (real_of_int (e + 1))"
      unfolding y .
    have k: "- 1074 \<le> e + 1"
      using le by simp
    have one: "\<bar>1::int\<bar> < 2 ^ 53"
      by simp
    show ?thesis
      unfolding y1 by (rule round64_exact [OF one k fin [unfolded y1]])
  next
    case 3
    have "real_of_int r * 2 powr (real_of_int (e - 52)) = - (2 powr 53 * 2 powr (real_of_int (e - 52)))"
      by (simp add: 3)
    also have "2 powr 53 * 2 powr (real_of_int (e - 52)) = 2 powr (53 + real_of_int (e - 52))"
      by (rule powr_add [symmetric])
    also have "- (2 powr (53 + real_of_int (e - 52))) = real_of_int (- 1) * 2 powr (real_of_int (e + 1))"
      by (simp add: add.commute)
    finally have y1: "y = real_of_int (- 1) * 2 powr (real_of_int (e + 1))"
      unfolding y .
    have k: "- 1074 \<le> e + 1"
      using le by simp
    have one: "\<bar>- 1::int\<bar> < 2 ^ 53"
      by simp
    show ?thesis
      unfolding y1 by (rule round64_exact [OF one k fin [unfolded y1]])
  qed
qed

lemma exponent64_binade:
  assumes "2 ^ e \<le> \<bar>x\<bar>" "\<bar>x\<bar> < 2 ^ (e + 1)"
  shows "exponent64 x = int e"
proof -
  have "(0::real) < 2 ^ e"
    by simp
  with assms(1) have pos: "0 < \<bar>x\<bar>"
    by linarith
  have "2 powr (real_of_int (int e)) \<le> \<bar>x\<bar>" "\<bar>x\<bar> < 2 powr (real_of_int (int e + 1))"
    using assms by (simp_all add: powr_realpow powr_add)
  then have "\<lfloor>log 2 \<bar>x\<bar>\<rfloor> = int e"
    using pos by (subst floor_log_eq_powr_iff) simp_all
  then show ?thesis
    by (simp add: exponent64_def)
qed

text \<open>The rounding of a value of a known binade, by the rounding of its multiple.\<close>

lemma round64_binade:
  assumes "2 ^ e \<le> \<bar>x\<bar>" "\<bar>x\<bar> < 2 ^ (e + 1)" "e \<le> 52"
  shows "round64 x = Finite (of_int (round_half_even (x * 2 ^ (52 - e))) / 2 ^ (52 - e))"
proof -
  let ?t = "x * 2 ^ (52 - e)"
  let ?r = "round_half_even ?t"
  have "(0::real) < 2 ^ e"
    by simp
  with assms(1) have "0 < \<bar>x\<bar>"
    by linarith
  then have x0: "x \<noteq> 0"
    by simp
  have "real_of_int (exponent64 x) - 52 = - real (52 - e)"
    using assms(3) by (simp add: exponent64_binade [OF assms(1,2)])
  then have "ulp64 x = 2 powr (- real (52 - e))"
    by (simp add: ulp64_def)
  also have "\<dots> = 1 / 2 powr (real (52 - e))"
    by (simp only: powr_minus_divide)
  also have "\<dots> = 1 / 2 ^ (52 - e)"
    by (simp only: powr_realpow zero_less_numeral)
  finally have ulp: "ulp64 x = 1 / 2 ^ (52 - e)" .
  have "\<bar>?t\<bar> = \<bar>x\<bar> * 2 ^ (52 - e)"
    by (simp add: abs_mult)
  also have "\<dots> < 2 ^ (e + 1) * 2 ^ (52 - e)"
    using assms(2) by (simp add: mult_strict_right_mono)
  also have "\<dots> = 2 ^ 53"
    using assms(3) by (simp add: flip: power_add)
  finally have t: "\<bar>?t\<bar> < 2 ^ 53" .
  have "\<bar>real_of_int ?r\<bar> \<le> \<bar>?t\<bar> + 1 / 2"
    using round_half_even_close [of ?t] by linarith
  then have r: "\<bar>real_of_int ?r\<bar> < 2 ^ 53 + 1"
    using t by linarith
  have "\<bar>real_of_int ?r\<bar> / 2 ^ (52 - e) \<le> \<bar>real_of_int ?r\<bar> / 1"
    by (rule frac_le) simp_all
  then have "\<bar>real_of_int ?r / 2 ^ (52 - e)\<bar> \<le> \<bar>real_of_int ?r\<bar>"
    by (simp add: abs_divide)
  also have "\<dots> \<le> 2 ^ 53 + 2 ^ 53"
    using r by simp
  finally have "\<bar>real_of_int ?r / 2 ^ (52 - e)\<bar> \<le> 2 ^ 54"
    by simp
  then have "\<not> 2 powr 1024 \<le> \<bar>real_of_int ?r / 2 ^ (52 - e)\<bar>"
    using below_overflow by fastforce
  then show ?thesis
    using x0 by (simp add: round64_def Let_def ulp)
qed

text \<open>The rounded quotient of an integer by a count rounds to the same integer as the exact one.\<close>

lemma round64_quotient:
  assumes s: "\<bar>s\<bar> < 2 ^ 52" and n: "0 < n"
  shows "\<exists>q. round64 (of_int s / real n) = Finite q \<and>
             \<lfloor>q + 1 / 2\<rfloor> = \<lfloor>of_int s / real n + 1 / 2\<rfloor>"
proof (cases "s = 0")
  case True
  then show ?thesis by (simp add: round64_def)
next
  case False
  define x where "x = real_of_int s / real n"
  define k where "k = \<lfloor>x + 1 / 2\<rfloor>"
  define E where "E = exponent64 x"
  have x0: "x \<noteq> 0"
    using False n by (simp add: x_def)
  have kx: "of_int k - 1 / 2 \<le> x" "x < of_int k + 1 / 2"
    unfolding k_def by linarith+
  have sr: "\<bar>real_of_int s\<bar> < 2 ^ 52"
    using s by (metis of_int_abs of_int_less_numeral_power_cancel_iff)
  have "\<bar>real_of_int s\<bar> / real n \<le> \<bar>real_of_int s\<bar> / 1"
    using n by (intro frac_le) simp_all
  then have xs: "\<bar>x\<bar> \<le> \<bar>real_of_int s\<bar>"
    by (simp add: x_def abs_divide)
  then have xb: "\<bar>x\<bar> < 2 ^ 52"
    using sr by linarith
  have "\<bar>x\<bar> < 2 powr (real_of_int 52)"
    using xb by (simp add: powr_realpow [of 2 52, simplified])
  from exponent64_upper [OF x0 this] have E: "E \<le> 51"
    by (simp add: E_def)
  define D where "D = nat (51 - E)"
  have D: "int D = 51 - E"
    using E by (simp add: D_def)
  have "real_of_int E - 52 = - real (D + 1)"
    using D by (simp add: algebra_simps)
  then have "ulp64 x = 2 powr (- real (D + 1))"
    by (simp add: ulp64_def E_def)
  also have "\<dots> = 1 / 2 powr (real (D + 1))"
    by (simp only: powr_minus_divide)
  also have "\<dots> = 1 / 2 ^ (D + 1)"
    by (simp only: powr_realpow zero_less_numeral)
  finally have u: "ulp64 x = 1 / 2 ^ (D + 1)" .
  define t where "t = x * 2 ^ (D + 1)"
  define r where "r = round_half_even t"
  define q where "q = real_of_int r / 2 ^ (D + 1)"
  have close: "\<bar>real_of_int r - t\<bar> \<le> 1 / 2"
    unfolding r_def by (rule round_half_even_close)
  have key: "x + ulp64 x / 2 < of_int k + 1 / 2"
  proof (cases "2 powr (real_of_int E) \<le> \<bar>x\<bar>")
    case True
    have "ulp64 x = 2 powr (real_of_int E) / 2 powr 52"
      by (simp add: ulp64_def E_def powr_diff)
    also have "\<dots> \<le> \<bar>x\<bar> / 2 powr 52"
      using True by (simp add: divide_right_mono)
    also have "\<dots> = \<bar>real_of_int s\<bar> / 2 ^ 52 / real n"
      by (simp add: x_def abs_divide)
    finally have "ulp64 x \<le> \<bar>real_of_int s\<bar> / 2 ^ 52 / real n" .
    moreover have "\<bar>real_of_int s\<bar> / 2 ^ 52 < 1"
      using sr by simp
    then have "\<bar>real_of_int s\<bar> / 2 ^ 52 / real n < 1 / real n"
      using n by (intro divide_strict_right_mono) simp_all
    ultimately have un: "ulp64 x < 1 / real n"
      by linarith
    have "real_of_int s < (of_int k + 1 / 2) * real n"
      using kx(2) n by (simp add: x_def pos_divide_less_eq)
    then have "real_of_int (2 * s) < real_of_int ((2 * k + 1) * int n)"
      by (simp add: algebra_simps)
    then have "2 * s < (2 * k + 1) * int n"
      by (simp only: of_int_less_iff)
    then have "2 * s + 1 \<le> (2 * k + 1) * int n"
      by simp
    then have "real_of_int (2 * s + 1) \<le> real_of_int ((2 * k + 1) * int n)"
      by (simp only: of_int_le_iff)
    then have "2 * real_of_int s + 1 \<le> (2 * of_int k + 1) * real n"
      by simp
    then have le: "(2 * real_of_int s + 1) / (2 * real n) \<le> (2 * of_int k + 1) / 2"
      using n by (simp add: field_simps)
    have "x + 1 / (2 * real n) = (2 * real_of_int s + 1) / (2 * real n)"
      using n by (simp add: x_def field_simps)
    also note le
    also have "(2 * real_of_int k + 1) / 2 = of_int k + 1 / 2"
      by (simp add: add_divide_distrib)
    finally have "x + 1 / (2 * real n) \<le> of_int k + 1 / 2" .
    with un show ?thesis
      by (simp add: field_simps)
  next
    case False
    have "exponent64 x = - 1022"
    proof (rule ccontr)
      assume "exponent64 x \<noteq> - 1022"
      then have "E = \<lfloor>log 2 \<bar>x\<bar>\<rfloor>"
        by (simp add: E_def exponent64_def max_def split: if_splits)
      then have "real_of_int E \<le> log 2 \<bar>x\<bar>"
        by simp
      then have "2 powr (real_of_int E) \<le> \<bar>x\<bar>"
        using x0 by (simp add: powr_le_iff)
      with False show False by simp
    qed
    then have E1: "E = - 1022"
      by (simp add: E_def)
    have "\<bar>x\<bar> < 2 powr (- 1022)"
      using False by (simp add: E1)
    also have "\<dots> \<le> 2 powr (- 2)"
      by (rule powr_mono) simp_all
    also have "\<dots> = 1 / 4"
      by (simp add: powr_minus_divide)
    finally have small: "\<bar>x\<bar> < 1 / 4" .
    have "ulp64 x = 2 powr (- 1074)"
      by (simp add: ulp64_def E1 [unfolded E_def])
    also have "\<dots> \<le> 2 powr (- 2)"
      by (rule powr_mono) simp_all
    also have "\<dots> = 1 / 4"
      by (simp add: powr_minus_divide)
    finally have "ulp64 x \<le> 1 / 4" .
    moreover have "k = 0"
      unfolding k_def using small by linarith
    ultimately show ?thesis
      using small by simp
  qed
  have lowG: "real_of_int ((2 * k - 1) * 2 ^ D) = (of_int k - 1 / 2) * 2 ^ (D + 1)"
    by (simp add: algebra_simps)
  have highG: "real_of_int ((2 * k + 1) * 2 ^ D) = (of_int k + 1 / 2) * 2 ^ (D + 1)"
    by (simp add: algebra_simps)
  have "(of_int k - 1 / 2) * 2 ^ (D + 1) \<le> t"
    unfolding t_def using kx(1) by (intro mult_right_mono) simp_all
  then have "real_of_int ((2 * k - 1) * 2 ^ D) \<le> real_of_int r + 1 / 2"
    unfolding lowG using close by linarith
  then have "(2 * k - 1) * 2 ^ D \<le> \<lfloor>real_of_int r + 1 / 2\<rfloor>"
    by (simp only: le_floor_iff)
  also have "\<lfloor>real_of_int r + 1 / 2\<rfloor> = r"
    by linarith
  finally have low: "(2 * k - 1) * 2 ^ D \<le> r" .
  have "(x + ulp64 x / 2) * 2 ^ (D + 1) < (of_int k + 1 / 2) * 2 ^ (D + 1)"
    using key by (intro mult_strict_right_mono) simp_all
  then have "t + 1 / 2 < (of_int k + 1 / 2) * 2 ^ (D + 1)"
    by (simp add: t_def u algebra_simps)
  then have "real_of_int r < real_of_int ((2 * k + 1) * 2 ^ D)"
    unfolding highG using close by linarith
  then have "r < (2 * k + 1) * 2 ^ D"
    by (simp only: of_int_less_iff)
  then have high: "r + 1 \<le> (2 * k + 1) * 2 ^ D"
    by simp
  have "real_of_int ((2 * k - 1) * 2 ^ D) \<le> real_of_int r"
    using low by (simp only: of_int_le_iff)
  then have "real_of_int ((2 * k - 1) * 2 ^ D) / 2 ^ (D + 1) \<le> q"
    unfolding q_def by (rule divide_right_mono) simp
  then have q1: "of_int k - 1 / 2 \<le> q"
    unfolding lowG by simp
  have "real_of_int (r + 1) \<le> real_of_int ((2 * k + 1) * 2 ^ D)"
    using high by (simp only: of_int_le_iff)
  then have "real_of_int (r + 1) / 2 ^ (D + 1) \<le> real_of_int ((2 * k + 1) * 2 ^ D) / 2 ^ (D + 1)"
    by (rule divide_right_mono) simp
  then have "q + 1 / 2 ^ (D + 1) \<le> of_int k + 1 / 2"
    unfolding highG by (simp add: q_def add_divide_distrib)
  moreover have "(0::real) < 1 / 2 ^ (D + 1)"
    by simp
  ultimately have q2: "q < of_int k + 1 / 2"
    by linarith
  have fl: "\<lfloor>q + 1 / 2\<rfloor> = k"
    using q1 q2 by linarith
  have "\<bar>q\<bar> \<le> \<bar>real_of_int k\<bar> + 1 / 2"
    using q1 q2 by linarith
  moreover have "\<bar>real_of_int k\<bar> \<le> \<bar>x\<bar> + 1 / 2"
    using kx by linarith
  ultimately have "\<bar>q\<bar> \<le> 2 ^ 54"
    using xb by simp
  then have "\<not> 2 powr 1024 \<le> \<bar>q\<bar>"
    using below_overflow by fastforce
  then have "round64 x = Finite q"
    using x0 by (simp add: round64_def Let_def u q_def r_def t_def)
  with fl show ?thesis
    unfolding x_def k_def by simp
qed

subsection \<open>Minimum and maximum\<close>

lemma isNaN_iff: "isNaN v \<longleftrightarrow> v = NaN"
  by (cases v) simp_all

lemma num_le_refl: "a \<noteq> NaN \<Longrightarrow> num_le a a"
  by (cases a) simp_all

lemma num_le_total: "a \<noteq> NaN \<Longrightarrow> b \<noteq> NaN \<Longrightarrow> num_le a b \<or> num_le b a"
  by (cases a; cases b) auto

lemma num_le_trans: "num_le a b \<Longrightarrow> num_le b c \<Longrightarrow> num_le a c"
  by (cases a; cases b; cases c) auto

lemma num_le_Infinity: "num_le Infinity a \<Longrightarrow> a = Infinity"
  by (cases a) simp_all

lemma num_le_NegInfinity: "num_le a NegInfinity \<Longrightarrow> a = NegInfinity"
  by (cases a) simp_all

lemma foldl_min2:
  assumes "a \<noteq> NaN" and "NaN \<notin> set xs"
  shows "foldl min2 a xs \<in> set (a # xs) \<and> (\<forall>x \<in> set (a # xs). num_le (foldl min2 a xs) x)"
  using assms
proof (induction xs arbitrary: a)
  case Nil
  then show ?case by (simp add: num_le_refl)
next
  case (Cons x xs)
  then have x: "x \<noteq> NaN" and xs: "NaN \<notin> set xs"
    by auto
  have m: "min2 a x \<noteq> NaN" "min2 a x = a \<or> min2 a x = x" "num_le (min2 a x) a" "num_le (min2 a x) x"
    using Cons.prems(1) x num_le_total [of a x]
    by (auto simp: min2_def num_le_refl isNaN_iff)
  from Cons.IH [OF m(1) xs]
  have IH: "foldl min2 (min2 a x) xs \<in> set (min2 a x # xs)"
           "\<forall>y \<in> set (min2 a x # xs). num_le (foldl min2 (min2 a x) xs) y"
    by simp_all
  from IH(2) have below: "num_le (foldl min2 (min2 a x) xs) (min2 a x)"
    by simp
  show ?case
    using IH m(2) num_le_trans [OF below m(3)] num_le_trans [OF below m(4)]
    by auto
qed

lemma foldl_max2:
  assumes "a \<noteq> NaN" and "NaN \<notin> set xs"
  shows "foldl max2 a xs \<in> set (a # xs) \<and> (\<forall>x \<in> set (a # xs). num_le x (foldl max2 a xs))"
  using assms
proof (induction xs arbitrary: a)
  case Nil
  then show ?case by (simp add: num_le_refl)
next
  case (Cons x xs)
  then have x: "x \<noteq> NaN" and xs: "NaN \<notin> set xs"
    by auto
  have m: "max2 a x \<noteq> NaN" "max2 a x = a \<or> max2 a x = x" "num_le a (max2 a x)" "num_le x (max2 a x)"
    using Cons.prems(1) x num_le_total [of a x]
    by (auto simp: max2_def num_le_refl isNaN_iff)
  from Cons.IH [OF m(1) xs]
  have IH: "foldl max2 (max2 a x) xs \<in> set (max2 a x # xs)"
           "\<forall>y \<in> set (max2 a x # xs). num_le y (foldl max2 (max2 a x) xs)"
    by simp_all
  from IH(2) have above: "num_le (max2 a x) (foldl max2 (max2 a x) xs)"
    by simp
  show ?case
    using IH m(2) num_le_trans [OF m(3) above] num_le_trans [OF m(4) above]
    by auto
qed

lemma Math_min_is_min:
  assumes "xs \<noteq> []" and "NaN \<notin> set xs"
  shows "is_min_of (Math_min xs) xs"
proof -
  from foldl_min2 [of Infinity xs] assms(2)
  have r: "Math_min xs \<in> set (Infinity # xs)" "\<forall>x \<in> set xs. num_le (Math_min xs) x"
    by (simp_all add: Math_min_def)
  from assms(1) obtain x where x: "x \<in> set xs"
    by (cases xs) auto
  have "Math_min xs \<in> set xs"
  proof (cases "Math_min xs = Infinity")
    case True
    with r(2) x have "x = Infinity"
      by (auto dest: num_le_Infinity)
    with x True show ?thesis by simp
  next
    case False
    with r(1) show ?thesis by simp
  qed
  with r(2) show ?thesis
    by (simp add: is_min_of_def)
qed

lemma Math_max_is_max:
  assumes "xs \<noteq> []" and "NaN \<notin> set xs"
  shows "is_max_of (Math_max xs) xs"
proof -
  from foldl_max2 [of NegInfinity xs] assms(2)
  have r: "Math_max xs \<in> set (NegInfinity # xs)" "\<forall>x \<in> set xs. num_le x (Math_max xs)"
    by (simp_all add: Math_max_def)
  from assms(1) obtain x where x: "x \<in> set xs"
    by (cases xs) auto
  have "Math_max xs \<in> set xs"
  proof (cases "Math_max xs = NegInfinity")
    case True
    with r(2) x have "x = NegInfinity"
      by (auto dest: num_le_NegInfinity)
    with x True show ?thesis by simp
  next
    case False
    with r(1) show ?thesis by simp
  qed
  with r(2) show ?thesis
    by (simp add: is_max_of_def)
qed

lemma max2_NaN: "max2 NaN b = NaN" "max2 a NaN = NaN"
  by (simp_all add: max2_def)

lemma foldl_max2_NaN: "foldl max2 NaN xs = NaN"
  by (induction xs) (simp_all add: max2_NaN)

lemma Math_max_NaN: "NaN \<in> set xs \<Longrightarrow> foldl max2 a xs = NaN"
proof (induction xs arbitrary: a)
  case Nil
  then show ?case by simp
next
  case (Cons x xs)
  show ?case
  proof (cases "x = NaN")
    case True
    then show ?thesis by (simp add: max2_NaN foldl_max2_NaN)
  next
    case False
    with Cons.prems have "NaN \<in> set xs" by simp
    then show ?thesis by (simp add: Cons.IH)
  qed
qed

lemma NaN_filtered: "NaN \<notin> set (filter (\<lambda>v. \<not> isNaN v) xs)"
  by (simp add: isNaN_iff)

subsection \<open>What \<^verbatim>\<open>getStats\<close> returns\<close>

lemma getStats_empty:
  "data (sessionData sm) = [] \<Longrightarrow>
   getStats sm =
     \<lparr>stats_totalReadings = 0, stats_sessionStart = None, avgHeartRate = Null, avgSpO2 = Null,
      maxSquats = Num (Finite 0), minHeartRate = Undefined, maxHeartRate = Undefined\<rparr>"
  by (simp add: getStats_def)

lemma getStats_nonempty:
  assumes "data (sessionData sm) \<noteq> []"
  shows "avgHeartRate (getStats sm) =
           (let hs = filter (\<lambda>v. \<not> isNaN v) (map heartRate (data (sessionData sm)))
            in if hs = [] then Null else Num (Math_round (div_count (reduce_sum hs) (length hs))))"
    and "avgSpO2 (getStats sm) =
           (let ss = filter (\<lambda>v. \<not> isNaN v) (map spO2 (data (sessionData sm)))
            in if ss = [] then Null else Num (Math_round (div_count (reduce_sum ss) (length ss))))"
    and "minHeartRate (getStats sm) =
           (let hs = filter (\<lambda>v. \<not> isNaN v) (map heartRate (data (sessionData sm)))
            in if hs = [] then Null else Num (Math_min hs))"
    and "maxHeartRate (getStats sm) =
           (let hs = filter (\<lambda>v. \<not> isNaN v) (map heartRate (data (sessionData sm)))
            in if hs = [] then Null else Num (Math_max hs))"
    and "maxSquats (getStats sm) = Num (Math_max (map squatCount (data (sessionData sm))))"
  using assms by (simp_all add: getStats_def Let_def)

section \<open>Loading never fails\<close>

lemma get_Obj: "get (Obj ps) k = (case map_of ps k of None \<Rightarrow> Undefined | Some x \<Rightarrow> x)"
  by (simp add: get_def)

lemma own_props_not_null: "own_props v = Some ps \<Longrightarrow> v \<noteq> Null \<and> v \<noteq> Undefined"
  by (cases v) simp_all

lemma own_props_None_load:
  assumes "own_props v = None"
  shows "loadSessionData (Some (Document v)) = default_session"
proof (cases "v = Null \<or> v = Undefined")
  case True
  then show ?thesis
    by (auto simp: loadSessionData_def loadSessionData_try_def read_prop_def)
next
  case False
  with assms have "get v ''data'' = Undefined" "set_prop v ''data'' (Arr [] []) = Inl TypeError"
    by (cases v; simp add: get_def)+
  with False show ?thesis
    by (simp add: loadSessionData_def loadSessionData_try_def read_prop_def)
qed

lemma set_prop_get:
  assumes "own_props v = Some ps"
  shows "\<exists>v'. set_prop v k x = Inr v' \<and> get v' k = x \<and> (\<forall>k'. k' \<noteq> k \<longrightarrow> get v' k' = get v k')"
  using assms by (cases v) (auto simp: get_def update_conv')

lemma object_load:
  assumes "own_props v = Some ps"
  shows "get (loadSessionData (Some (Document v))) ''data'' =
           (if truthy (get v ''data'') then get v ''data'' else Arr [] [])"
    and "k \<noteq> ''data'' \<Longrightarrow> get (loadSessionData (Some (Document v))) k = get v k"
proof -
  from own_props_not_null [OF assms]
  have rd: "read_prop v ''data'' = Inr (get v ''data'')"
    by (simp add: read_prop_def)
  from set_prop_get [OF assms, of "''data''" "Arr [] []"]
  obtain v' where v': "set_prop v ''data'' (Arr [] []) = Inr v'" "get v' ''data'' = Arr [] []"
      "\<forall>k'. k' \<noteq> ''data'' \<longrightarrow> get v' k' = get v k'"
    by blast
  have res: "loadSessionData (Some (Document v)) = (if truthy (get v ''data'') then v else v')"
    by (simp add: loadSessionData_def loadSessionData_try_def rd v'(1))
  show "get (loadSessionData (Some (Document v))) ''data'' =
          (if truthy (get v ''data'') then get v ''data'' else Arr [] [])"
    by (simp add: res v'(2))
  show "get (loadSessionData (Some (Document v))) k = get v k" if "k \<noteq> ''data''"
    using that v'(3) by (simp add: res)
qed

lemma well_formed_default: "well_formed_session default_session"
  by (simp add: well_formed_session_def default_session_def get_def has_property_def)

lemma default_is_empty_session: "default_session = js_of_session empty_session"
  by (simp add: default_session_def js_of_session_def js_of_metadata_def empty_session_def
        js_of_instant_def js_of_nat_def)

text \<open>
  C10 (amended).  \<^verbatim>\<open>loadSessionData\<close> always returns: whatever is thrown inside its
  \<^verbatim>\<open>try\<close> block is caught.  When no item is stored, or the stored text is empty or not
  JSON, or it decodes to \<open>null\<close> or to a value that is not an object, the result is the
  default session, which is well formed (\<open>data\<close> an empty array, \<open>metadata\<close> with
  \<open>sessionStart\<close>, \<open>sessionEnd\<close>, \<open>totalReadings\<close>, \<open>exportTimestamp\<close>).  When the text
  decodes to an object, the result is that object with \<open>data\<close> replaced by an empty array
  if it was missing or falsy (an array already there is kept); every other property,
  \<open>metadata\<close> included, is as stored and is not checked.  So, for a stored \<open>data\<close> that
  was an array or falsy, the result is well formed exactly when the stored \<open>metadata\<close>
  had the four fields.
\<close>

theorem loadSessionData_result:
  "well_formed_session default_session \<and>
   ((\<exists>e. loadSessionData_try stored = Inl e) \<longrightarrow> loadSessionData stored = default_session) \<and>
   (case stored of
      None \<Rightarrow> loadSessionData stored = default_session
    | Some (NotJSON s) \<Rightarrow> loadSessionData stored = default_session
    | Some (Document v) \<Rightarrow>
        if own_props v = None then loadSessionData stored = default_session
        else
          (\<not> truthy (get v ''data'') \<longrightarrow> get (loadSessionData stored) ''data'' = Arr [] []) \<and>
          (is_array (get v ''data'') \<longrightarrow> get (loadSessionData stored) ''data'' = get v ''data'') \<and>
          (\<forall>k. k \<noteq> ''data'' \<longrightarrow> get (loadSessionData stored) k = get v k) \<and>
          (is_array (get v ''data'') \<or> \<not> truthy (get v ''data'') \<longrightarrow>
             (well_formed_session (loadSessionData stored) \<longleftrightarrow>
                has_property (get v ''metadata'') ''sessionStart'' \<and>
                has_property (get v ''metadata'') ''sessionEnd'' \<and>
                has_property (get v ''metadata'') ''totalReadings'' \<and>
                has_property (get v ''metadata'') ''exportTimestamp'')))"
proof -
  have caught: "(\<exists>e. loadSessionData_try stored = Inl e) \<longrightarrow> loadSessionData stored = default_session"
    by (auto simp: loadSessionData_def)
  have shape: "case stored of
      None \<Rightarrow> loadSessionData stored = default_session
    | Some (NotJSON s) \<Rightarrow> loadSessionData stored = default_session
    | Some (Document v) \<Rightarrow>
        if own_props v = None then loadSessionData stored = default_session
        else
          (\<not> truthy (get v ''data'') \<longrightarrow> get (loadSessionData stored) ''data'' = Arr [] []) \<and>
          (is_array (get v ''data'') \<longrightarrow> get (loadSessionData stored) ''data'' = get v ''data'') \<and>
          (\<forall>k. k \<noteq> ''data'' \<longrightarrow> get (loadSessionData stored) k = get v k) \<and>
          (is_array (get v ''data'') \<or> \<not> truthy (get v ''data'') \<longrightarrow>
             (well_formed_session (loadSessionData stored) \<longleftrightarrow>
                has_property (get v ''metadata'') ''sessionStart'' \<and>
                has_property (get v ''metadata'') ''sessionEnd'' \<and>
                has_property (get v ''metadata'') ''totalReadings'' \<and>
                has_property (get v ''metadata'') ''exportTimestamp''))"
  proof (cases stored)
    case None
    then show ?thesis
      by (simp add: loadSessionData_def loadSessionData_try_def)
  next
    case stored: (Some found)
    show ?thesis
    proof (cases found)
      case (NotJSON s)
      with stored show ?thesis
        by (simp add: loadSessionData_def loadSessionData_try_def)
    next
      case (Document v)
      show ?thesis
      proof (cases "own_props v")
        case None
        with stored Document show ?thesis
          by (simp add: own_props_None_load)
      next
        case (Some ps)
        note load = object_load [OF Some]
        have meta: "get (loadSessionData (Some (Document v))) ''metadata'' = get v ''metadata''"
          by (rule load(2)) simp
        have arr: "is_array (get v ''data'') \<Longrightarrow> truthy (get v ''data'')"
          by (cases "get v ''data''") simp_all
        have wf: "well_formed_session (loadSessionData (Some (Document v))) \<longleftrightarrow>
             has_property (get v ''metadata'') ''sessionStart'' \<and>
             has_property (get v ''metadata'') ''sessionEnd'' \<and>
             has_property (get v ''metadata'') ''totalReadings'' \<and>
             has_property (get v ''metadata'') ''exportTimestamp''"
          if "is_array (get v ''data'') \<or> \<not> truthy (get v ''data'')"
          unfolding well_formed_session_def load(1) meta using that arr by auto
        show ?thesis
          using Some load wf arr by (simp add: stored Document)
      qed
    qed
  qed
  from well_formed_default caught shape show ?thesis
    by blast
qed

text \<open>
  As stated, with a well-formed result for every stored value, C10 fails: the stored text
  \<^verbatim>\<open>{}\<close> decodes to an object without \<open>data\<close>, and what is returned is that object with an
  empty \<open>data\<close> and no \<open>metadata\<close>.
\<close>

theorem loadSessionData_no_metadata:
  "loadSessionData (Some (Document (Obj []))) = Obj [(''data'', Arr [] [])] \<and>
   get (loadSessionData (Some (Document (Obj [])))) ''metadata'' = Undefined \<and>
   \<not> well_formed_session (loadSessionData (Some (Document (Obj []))))"
  by (simp add: loadSessionData_def loadSessionData_try_def read_prop_def get_def
        well_formed_session_def has_property_def)

theorem loadSessionData_result_witness:
  "get (loadSessionData (Some (Document (Obj [(''data'', Num (Finite 0)), (''note'', Str ''x'')]))))
     ''data'' = Arr [] [] \<and>
   get (loadSessionData (Some (Document (Obj [(''data'', Num (Finite 0)), (''note'', Str ''x'')]))))
     ''note'' = Str ''x''"
  using loadSessionData_result
    [of "Some (Document (Obj [(''data'', Num (Finite 0)), (''note'', Str ''x'')]))"]
  by (simp add: get_def)


section \<open>Export and re-parse\<close>

lemma toJSON_Num: "toJSON (Num n) = (if is_finite n then Num n else Null)"
  by (cases n) simp_all

lemma toJSON_reading:
  "toJSON (js_of_reading r) =
     Obj [(''timestamp'', js_of_nat (timestamp r)),
          (''date'', Str (date r)),
          (''heartRate'', toJSON (Num (heartRate r))),
          (''spO2'', toJSON (Num (spO2 r))),
          (''squatCount'', toJSON (Num (squatCount r))),
          (''postureStatus'', Str (postureStatus r)),
          (''fingerDetected'', Boolean (fingerDetected r)),
          (''fallDetected'', Boolean (fallDetected r))]"
  by (simp add: js_of_reading_def js_of_nat_def)

lemma toJSON_reading_same_iff:
  "toJSON (js_of_reading r) = js_of_reading r \<longleftrightarrow> finite_reading r"
  unfolding toJSON_reading
  by (auto simp: js_of_reading_def finite_reading_def toJSON_Num)

lemma toJSON_readings:
  "toJSON (Arr (map js_of_reading d) []) = Arr (map (\<lambda>r. toJSON (js_of_reading r)) d) []"
  by (simp add: js_of_reading_def o_def)

lemma toJSON_readings_same_iff:
  "Arr (map (\<lambda>r. toJSON (js_of_reading r)) d) [] = Arr (map js_of_reading d) [] \<longleftrightarrow>
   list_all finite_reading d"
  by (simp add: toJSON_reading_same_iff list_all_iff)

lemma js_of_metadata_defined: "js_of_metadata md \<noteq> Undefined"
  by (simp add: js_of_metadata_def)

text \<open>The \<open>data\<close> of the document written for a session, be it by \<^verbatim>\<open>persist\<close> or for export.\<close>

lemma persisted_data:
  "get (toJSON (js_of_session s)) ''data'' = Arr (map (\<lambda>r. toJSON (js_of_reading r)) (data s)) []"
  by (simp add: js_of_session_def get_Obj js_of_metadata_defined toJSON_readings
           del: toJSON.simps(4))

lemma exported_data:
  "get (toJSON (spread_with (js_of_session s)
          [(''exportTimestamp'', js_of_nat now), (''exportDate'', Str isoText)])) ''data'' =
   Arr (map (\<lambda>r. toJSON (js_of_reading r)) (data s)) []"
  by (simp add: spread_with_def js_of_session_def get_Obj js_of_metadata_defined js_of_nat_def
           toJSON_readings del: toJSON.simps(4))

lemma exportJSON_download:
  "last (downloads (exportJSON quota now isoText later sm)) =
     JSON_stringify (spread_with (js_of_session (sessionData sm))
       [(''exportTimestamp'', js_of_nat now), (''exportDate'', Str isoText)])"
proof -
  have keep: "downloads (persist quota s) = downloads s" for s
  proof (cases "quota (setItemCalls s) = QuotaExceededError")
    case False
    then show ?thesis using persist_no_quota [of quota s] by simp
  next
    case q: True
    show ?thesis
    proof (cases "500 < length (data (sessionData s))")
      case False
      then have "length (data (sessionData s)) \<le> 500" by simp
      from persist_quota_small [of quota s, OF q this] show ?thesis by simp
    next
      case True
      have "length (slice_last 500 (data (sessionData s))) \<le> 500"
        by (simp add: slice_last_length)
      then show ?thesis
        by (simp add: persist_quota_large [of quota s, OF q True] persist_retry)
    qed
  qed
  show ?thesis
    by (simp add: exportJSON_def Let_def keep)
qed

lemma exportJSON_stored:
  assumes "quota (setItemCalls sm) = Written"
  shows "localStorage (exportJSON quota now isoText later sm) =
           Some (JSON_stringify (js_of_session
             ((sessionData sm)\<lparr>metadata := (metadata (sessionData sm))\<lparr>exportTimestamp := Some later\<rparr>\<rparr>)))"
proof -
  let ?s = "sm\<lparr>downloads := downloads sm @
               [JSON_stringify (spread_with (js_of_session (sessionData sm))
                  [(''exportTimestamp'', js_of_nat now), (''exportDate'', Str isoText)])],
             sessionData :=
               (sessionData sm)\<lparr>metadata := (metadata (sessionData sm))\<lparr>exportTimestamp := Some later\<rparr>\<rparr>\<rparr>"
  have "quota (setItemCalls ?s) \<noteq> QuotaExceededError"
    using assms by simp
  from persist_no_quota [of quota ?s, OF this] assms show ?thesis
    by (simp add: exportJSON_def Let_def)
qed

lemma reparsed_data_stringify: "reparsed_data (JSON_stringify v) = get (toJSON v) ''data''"
  by (simp add: reparsed_data_def JSON_stringify_def)

text \<open>
  C7 (amended).  For every session buffer, parsing the exported text again yields a
  \<open>data\<close> array with one entry per reading of the buffer, in order, each with the field
  values of the reading except that a number that is \<open>NaN\<close> or infinite reads \<open>null\<close>;
  it is identical to the buffer exactly when all numbers in the buffer are finite.  It
  is the same array as in the document that \<^verbatim>\<open>persist\<close> writes from the same session, and
  as in the document found in the storage after the export whenever the storage write
  made by \<^verbatim>\<open>exportJSON\<close> succeeds.
\<close>

theorem export_reparsed_data:
  "reparsed_data (last (downloads (exportJSON quota now isoText later sm))) =
     Arr (map (\<lambda>r. toJSON (js_of_reading r)) (data (sessionData sm))) [] \<and>
   (\<forall>r. toJSON (js_of_reading r) =
      Obj [(''timestamp'', js_of_nat (timestamp r)),
           (''date'', Str (date r)),
           (''heartRate'', if is_finite (heartRate r) then Num (heartRate r) else Null),
           (''spO2'', if is_finite (spO2 r) then Num (spO2 r) else Null),
           (''squatCount'', if is_finite (squatCount r) then Num (squatCount r) else Null),
           (''postureStatus'', Str (postureStatus r)),
           (''fingerDetected'', Boolean (fingerDetected r)),
           (''fallDetected'', Boolean (fallDetected r))]) \<and>
   (reparsed_data (last (downloads (exportJSON quota now isoText later sm))) =
      Arr (map js_of_reading (data (sessionData sm))) []
    \<longleftrightarrow> list_all finite_reading (data (sessionData sm))) \<and>
   reparsed_data (last (downloads (exportJSON quota now isoText later sm))) =
     reparsed_data (JSON_stringify (js_of_session (sessionData sm))) \<and>
   (quota (setItemCalls sm) = Written \<longrightarrow>
      (\<exists>stored. localStorage (exportJSON quota now isoText later sm) = Some stored \<and>
         reparsed_data stored =
           reparsed_data (last (downloads (exportJSON quota now isoText later sm)))))"
proof -
  let ?exported = "exportJSON quota now isoText later sm"
  have doc: "reparsed_data (last (downloads ?exported)) =
               Arr (map (\<lambda>r. toJSON (js_of_reading r)) (data (sessionData sm))) []"
    by (simp only: exportJSON_download reparsed_data_stringify exported_data)
  have fields: "toJSON (js_of_reading r) =
      Obj [(''timestamp'', js_of_nat (timestamp r)),
           (''date'', Str (date r)),
           (''heartRate'', if is_finite (heartRate r) then Num (heartRate r) else Null),
           (''spO2'', if is_finite (spO2 r) then Num (spO2 r) else Null),
           (''squatCount'', if is_finite (squatCount r) then Num (squatCount r) else Null),
           (''postureStatus'', Str (postureStatus r)),
           (''fingerDetected'', Boolean (fingerDetected r)),
           (''fallDetected'', Boolean (fallDetected r))]" for r
    by (simp only: toJSON_reading toJSON_Num)
  have same: "reparsed_data (last (downloads ?exported)) =
                Arr (map js_of_reading (data (sessionData sm))) []
              \<longleftrightarrow> list_all finite_reading (data (sessionData sm))"
    by (simp only: doc toJSON_readings_same_iff)
  have kept: "reparsed_data (last (downloads ?exported)) =
                reparsed_data (JSON_stringify (js_of_session (sessionData sm)))"
    by (simp only: doc reparsed_data_stringify persisted_data)
  have stored: "\<exists>stored. localStorage ?exported = Some stored \<and>
                  reparsed_data stored = reparsed_data (last (downloads ?exported))"
    if "quota (setItemCalls sm) = Written"
    using exportJSON_stored [where quota = quota and sm = sm, OF that]
    by (simp add: doc reparsed_data_stringify persisted_data)
  from doc fields same kept stored show ?thesis
    by blast
qed

text \<open>
  As stated, for every buffer and without a proviso on the storage, C7 fails: a payload
  with \<^verbatim>\<open>"heartRate":1e999\<close> decodes to a heart rate of \<open>Infinity\<close> and passes the
  validator; recorded and exported while the storage is full, it reads \<open>null\<close> in the
  exported text, and nothing at all is persisted.
\<close>

theorem export_differs_from_buffer_and_store:
  "validateData (js_of_payload (example_payload\<lparr>heartRate := Infinity\<rparr>)) \<and>
   data (sessionData
     (saveReading (\<lambda>i. QuotaExceededError) 0 ''1970-01-01T00:00:00.000Z''
        (example_payload\<lparr>heartRate := Infinity\<rparr>) StorageManager)) =
     [reading_at 0 ''1970-01-01T00:00:00.000Z'' (example_payload\<lparr>heartRate := Infinity\<rparr>)] \<and>
   reparsed_data (last (downloads
     (exportJSON (\<lambda>i. QuotaExceededError) 1 ''1970-01-01T00:00:00.001Z'' 1
        (saveReading (\<lambda>i. QuotaExceededError) 0 ''1970-01-01T00:00:00.000Z''
           (example_payload\<lparr>heartRate := Infinity\<rparr>) StorageManager)))) =
     Arr [Obj [(''timestamp'', Num (Finite 0)),
               (''date'', Str ''1970-01-01T00:00:00.000Z''),
               (''heartRate'', Null),
               (''spO2'', Num (Finite 97)),
               (''squatCount'', Num (Finite 15)),
               (''postureStatus'', Str ''GOOD''),
               (''fingerDetected'', Boolean True),
               (''fallDetected'', Boolean False)]] [] \<and>
   reparsed_data (last (downloads
     (exportJSON (\<lambda>i. QuotaExceededError) 1 ''1970-01-01T00:00:00.001Z'' 1
        (saveReading (\<lambda>i. QuotaExceededError) 0 ''1970-01-01T00:00:00.000Z''
           (example_payload\<lparr>heartRate := Infinity\<rparr>) StorageManager)))) \<noteq>
     Arr (map js_of_reading (data (sessionData
        (saveReading (\<lambda>i. QuotaExceededError) 0 ''1970-01-01T00:00:00.000Z''
           (example_payload\<lparr>heartRate := Infinity\<rparr>) StorageManager)))) [] \<and>
   localStorage
     (exportJSON (\<lambda>i. QuotaExceededError) 1 ''1970-01-01T00:00:00.001Z'' 1
        (saveReading (\<lambda>i. QuotaExceededError) 0 ''1970-01-01T00:00:00.000Z''
           (example_payload\<lparr>heartRate := Infinity\<rparr>) StorageManager)) = None"
proof -
  let ?full = "\<lambda>i::nat. QuotaExceededError"
  let ?p = "example_payload\<lparr>heartRate := Infinity\<rparr>"
  let ?recorded = "saveReading ?full 0 ''1970-01-01T00:00:00.000Z'' ?p StorageManager"
  have valid: "validateData (js_of_payload ?p)"
    by (simp add: validateData_def js_of_payload_def get_def)
  have recorded: "data (sessionData ?recorded) = [reading_at 0 ''1970-01-01T00:00:00.000Z'' ?p]"
                 "localStorage ?recorded = None"
    by (simp_all add: saveReading_def Let_def StorageManager_def empty_session_def
          maxStorageItems_def persist_quota_small)
  have reparsed: "reparsed_data (last (downloads
                (exportJSON ?full 1 ''1970-01-01T00:00:00.001Z'' 1 ?recorded))) =
              Arr (map (\<lambda>r. toJSON (js_of_reading r)) (data (sessionData ?recorded))) []"
    by (simp only: exportJSON_download reparsed_data_stringify exported_data)
  have store: "localStorage (exportJSON ?full 1 ''1970-01-01T00:00:00.001Z'' 1 ?recorded) = None"
    by (simp add: exportJSON_def Let_def persist_quota_small recorded)
  show ?thesis
    unfolding reparsed recorded(1)
    using valid store
    by (simp add: toJSON_reading reading_at_def example_payload_def js_of_nat_def
          js_of_reading_def)
qed

theorem export_reparsed_data_witness:
  "reparsed_data (last (downloads
     (exportJSON (\<lambda>i. Written) 1 ''1970-01-01T00:00:00.001Z'' 1
        (StorageManager\<lparr>sessionData :=
           \<lparr>data = [reading_at 0 ''1970-01-01T00:00:00.000Z'' example_payload],
            metadata = metadata empty_session\<rparr>\<rparr>)))) =
     Arr [js_of_reading (reading_at 0 ''1970-01-01T00:00:00.000Z'' example_payload)] []"
proof -
  let ?sm = "StorageManager\<lparr>sessionData :=
           \<lparr>data = [reading_at 0 ''1970-01-01T00:00:00.000Z'' example_payload],
            metadata = metadata empty_session\<rparr>\<rparr>"
  have finite: "list_all finite_reading (data (sessionData ?sm))"
    by (simp add: finite_reading_def reading_at_def example_payload_def)
  from export_reparsed_data [of "\<lambda>i. Written" 1 "''1970-01-01T00:00:00.001Z''" 1 ?sm]
  have "reparsed_data (last (downloads
          (exportJSON (\<lambda>i. Written) 1 ''1970-01-01T00:00:00.001Z'' 1 ?sm))) =
        Arr (map js_of_reading (data (sessionData ?sm))) []
        \<longleftrightarrow> list_all finite_reading (data (sessionData ?sm))"
    by blast
  with finite show ?thesis
    by simp
qed


section \<open>Statistics of a session object\<close>

subsection \<open>Sums and means of whole numbers\<close>

lemma num_add_whole:
  assumes "\<bar>a\<bar> < 2 ^ 53" "\<bar>k\<bar> < 2 ^ 53" "\<bar>a + k\<bar> < 2 ^ 53"
  shows "num_add (Finite (of_int a)) (Finite (of_int k)) = Finite (of_int (a + k))"
  using round64_of_int [OF assms(3)]
  by (simp add: num_add_def binary64_def round64_of_int [OF assms(1)] round64_of_int [OF assms(2)])

lemma foldl_num_add_whole:
  "\<bar>a\<bar> + sum_list (map abs ks) < 2 ^ 53 \<Longrightarrow>
   foldl num_add (Finite (of_int a)) (map (\<lambda>k. Finite (of_int k)) ks) =
     Finite (of_int (a + sum_list ks))"
proof (induction ks arbitrary: a)
  case Nil
  then show ?case by simp
next
  case (Cons k ks)
  have nn: "0 \<le> sum_list (map abs ks)"
    by (rule sum_list_nonneg) auto
  have step: "num_add (Finite (of_int a)) (Finite (of_int k)) = Finite (of_int (a + k))"
    using Cons.prems nn by (intro num_add_whole) simp_all
  have "\<bar>a + k\<bar> + sum_list (map abs ks) < 2 ^ 53"
    using Cons.prems by simp
  from Cons.IH [OF this] show ?case
    by (simp add: step add.assoc)
qed

lemma mean64_ints:
  assumes "ks \<noteq> []" and "sum_list (map abs ks) < 2 ^ 52"
  shows "Math_round (mean64 (map (\<lambda>k. Finite (of_int k)) ks)) =
           Finite (of_int \<lfloor>of_int (sum_list ks) / real (length ks) + 1 / 2\<rfloor>)"
proof -
  have s: "\<bar>sum_list ks\<bar> < 2 ^ 52"
    using sum_list_abs [of ks] assms(2) by linarith
  have "\<bar>0::int\<bar> + sum_list (map abs ks) < 2 ^ 53"
    using assms(2) by simp
  from foldl_num_add_whole [OF this]
  have total: "foldl num_add (Finite 0) (map (\<lambda>k. Finite (of_int k)) ks) = Finite (of_int (sum_list ks))"
    by simp
  have exact: "round64 (of_int (sum_list ks)) = Finite (of_int (sum_list ks))"
    using s by (intro round64_of_int) simp
  from round64_quotient [OF s, of "length ks"] assms(1)
  obtain q where q: "round64 (of_int (sum_list ks) / real (length ks)) = Finite q"
      "\<lfloor>q + 1 / 2\<rfloor> = \<lfloor>of_int (sum_list ks) / real (length ks) + 1 / 2\<rfloor>"
    by auto
  show ?thesis
    using assms(1) by (simp add: mean64_def total div_count_def binary64_def exact q)
qed

lemma whole_Finite: "whole x \<Longrightarrow> x = Finite (of_int \<lfloor>the_real x\<rfloor>)"
  by (cases x) simp_all

lemma mean64_whole:
  assumes "whole_numbers xs"
  shows "Num (Math_round (mean64 xs)) = exact_rounded_mean xs"
proof -
  define ks where "ks = map (\<lambda>x. \<lfloor>the_real x\<rfloor>) xs"
  have w: "\<forall>x \<in> set xs. whole x" and ne: "xs \<noteq> []"
    and small: "sum_list (map (\<lambda>x. \<bar>the_real x\<bar>) xs) < 2 ^ 52"
    using assms by (simp_all add: whole_numbers_def)
  have xs: "xs = map (\<lambda>k. Finite (of_int k)) ks"
    unfolding ks_def map_map using w by (intro map_idI [symmetric]) (simp add: whole_Finite [symmetric])
  have reals: "map the_real xs = map of_int ks"
    by (subst xs) simp
  have "real_of_int (sum_list (map abs ks)) = sum_list (map (\<lambda>k. \<bar>real_of_int k\<bar>) ks)"
    by (induction ks) simp_all
  also have "\<dots> = sum_list (map (\<lambda>x. \<bar>the_real x\<bar>) xs)"
    by (subst xs) (simp add: o_def)
  finally have "real_of_int (sum_list (map abs ks)) < real_of_int (2 ^ 52)"
    using small by simp
  then have bound: "sum_list (map abs ks) < 2 ^ 52"
    by (simp only: of_int_less_iff)
  have ks: "ks \<noteq> []"
    using ne by (simp add: ks_def)
  have sum: "sum_list (map the_real xs) = of_int (sum_list ks)"
    unfolding reals by (induction ks) simp_all
  have len: "length xs = length ks"
    by (simp add: ks_def)
  from mean64_ints [OF ks bound] show ?thesis
    unfolding exact_rounded_mean_def exact_mean_def sum len by (subst xs) simp
qed

subsection \<open>The error of a sum and of a mean\<close>

text \<open>Below \<open>2 ^ 40\<close> a rounding moves a value by \<open>2 ^ -13\<close> at most.\<close>

lemma round64_error:
  assumes "\<bar>x\<bar> \<le> 2 ^ 40"
  shows "\<exists>y. round64 x = Finite y \<and> \<bar>y - x\<bar> \<le> 1 / 2 ^ 13"
proof (cases "x = 0")
  case True
  then show ?thesis by (simp add: round64_def)
next
  case False
  define u where "u = ulp64 x"
  define r where "r = round_half_even (x / u)"
  have "(2::real) ^ 40 < 2 ^ 41"
    by simp
  also have "\<dots> = 2 powr (real_of_int 41)"
    by (simp add: powr_realpow [of 2 41, simplified])
  finally have "\<bar>x\<bar> < 2 powr (real_of_int 41)"
    using assms by linarith
  from exponent64_upper [OF False this] have E: "exponent64 x \<le> 40"
    by simp
  have u_pos: "0 < u"
    by (simp add: u_def ulp64_def)
  have "u \<le> 2 powr (- 12)"
    unfolding u_def ulp64_def using E by (intro powr_mono) simp_all
  also have "\<dots> = 1 / 2 ^ 12"
    by (simp add: powr_minus_divide)
  finally have u_le: "u \<le> 1 / 2 ^ 12" .
  have close: "\<bar>real_of_int r - x / u\<bar> \<le> 1 / 2"
    unfolding r_def by (rule round_half_even_close)
  have "real_of_int r * u - x = (real_of_int r - x / u) * u"
    using u_pos by (simp add: field_simps)
  then have "\<bar>real_of_int r * u - x\<bar> = \<bar>real_of_int r - x / u\<bar> * u"
    using u_pos by (simp add: abs_mult)
  also have "\<dots> \<le> 1 / 2 * u"
    using close u_pos by (intro mult_right_mono) simp_all
  also have "\<dots> \<le> 1 / 2 ^ 13"
    using u_le by simp
  finally have err: "\<bar>real_of_int r * u - x\<bar> \<le> 1 / 2 ^ 13" .
  then have "\<bar>real_of_int r * u\<bar> \<le> \<bar>x\<bar> + 1 / 2 ^ 13"
    by linarith
  then have "\<bar>real_of_int r * u\<bar> \<le> 2 ^ 54"
    using assms by simp
  then have "\<not> 2 powr 1024 \<le> \<bar>real_of_int r * u\<bar>"
    using below_overflow by fastforce
  then have "round64 x = Finite (real_of_int r * u)"
    using False by (simp add: round64_def Let_def u_def r_def)
  with err show ?thesis
    by blast
qed

lemma sum_list_abs_nonneg: "0 \<le> sum_list (map (\<lambda>x. \<bar>the_real x\<bar>) xs)"
  by (rule sum_list_nonneg) auto

text \<open>
  Where every rounding moves a value by \<open>e\<close> at most, a sum of \<open>n\<close> entries is off by \<open>3 n e\<close>
  at most: an entry and the sum so far are taken to binary64, and their sum is rounded.
\<close>

lemma foldl_num_add_error:
  fixes e M :: real
  assumes err: "\<And>x. \<bar>x\<bar> \<le> M \<Longrightarrow> \<exists>y. round64 x = Finite y \<and> \<bar>y - x\<bar> \<le> e"
    and e: "0 \<le> e"
    and fin: "\<forall>x \<in> set xs. is_finite x"
    and bound: "\<bar>a\<bar> + sum_list (map (\<lambda>x. \<bar>the_real x\<bar>) xs) + real (length xs) * (3 * e) \<le> M"
  shows "\<exists>s. foldl num_add (Finite a) xs = Finite s \<and>
             \<bar>s - (a + sum_list (map the_real xs))\<bar> \<le> real (length xs) * (3 * e)"
  using fin bound
proof (induction xs arbitrary: a)
  case Nil
  then show ?case by simp
next
  case (Cons x xs)
  from Cons.prems(1) obtain v where x: "x = Finite v"
    by (cases x) auto
  define rest where "rest = sum_list (map (\<lambda>x. \<bar>the_real x\<bar>) xs)"
  define t where "t = real (length xs) * (3 * e)"
  define T where "T = sum_list (map the_real xs)"
  have rest: "0 \<le> rest"
    unfolding rest_def by (rule sum_list_abs_nonneg)
  have t: "0 \<le> t"
    unfolding t_def using e by simp
  have "real (length (x # xs)) * (3 * e) = t + 3 * e"
    by (simp add: t_def algebra_simps)
  then have b: "\<bar>a\<bar> + (\<bar>v\<bar> + rest) + (t + 3 * e) \<le> M"
    using Cons.prems(2) by (simp add: x rest_def)
  have "\<bar>a\<bar> \<le> M"
    using b rest t e by linarith
  from err [OF this] obtain a' where a': "round64 a = Finite a'" "\<bar>a' - a\<bar> \<le> e"
    by blast
  have "\<bar>v\<bar> \<le> M"
    using b rest t e by linarith
  from err [OF this] obtain v' where v': "round64 v = Finite v'" "\<bar>v' - v\<bar> \<le> e"
    by blast
  have "\<bar>a' + v'\<bar> \<le> M"
    using a'(2) v'(2) b rest t e by linarith
  from err [OF this] obtain s1 where s1: "round64 (a' + v') = Finite s1" "\<bar>s1 - (a' + v')\<bar> \<le> e"
    by blast
  have step: "num_add (Finite a) x = Finite s1"
    by (simp add: num_add_def binary64_def x a'(1) v'(1) s1(1))
  have e1: "\<bar>s1 - (a + v)\<bar> \<le> 3 * e"
    using a'(2) v'(2) s1(2) by linarith
  have "\<bar>s1\<bar> + rest + t \<le> M"
    using e1 b by linarith
  then have "\<bar>s1\<bar> + sum_list (map (\<lambda>x. \<bar>the_real x\<bar>) xs) + real (length xs) * (3 * e) \<le> M"
    by (simp only: rest_def t_def)
  with Cons.prems(1) have "\<exists>s. foldl num_add (Finite s1) xs = Finite s \<and>
      \<bar>s - (s1 + sum_list (map the_real xs))\<bar> \<le> real (length xs) * (3 * e)"
    by (intro Cons.IH) simp_all
  then obtain s where s: "foldl num_add (Finite s1) xs = Finite s" "\<bar>s - (s1 + T)\<bar> \<le> t"
    unfolding T_def t_def by blast
  have "\<bar>s - (a + (v + T))\<bar> \<le> t + 3 * e"
    using s(2) e1 by linarith
  moreover have "sum_list (map the_real (x # xs)) = v + T"
    by (simp add: x T_def)
  moreover have "real (length (x # xs)) * (3 * e) = t + 3 * e"
    by (simp add: t_def algebra_simps)
  ultimately have "\<bar>s - (a + sum_list (map the_real (x # xs)))\<bar> \<le> real (length (x # xs)) * (3 * e)"
    by simp
  moreover have "foldl num_add (Finite a) (x # xs) = Finite s"
    by (simp add: step s(1))
  ultimately show ?case
    by blast
qed

lemma sum_list_bounded:
  "\<forall>x \<in> set xs. \<bar>the_real x\<bar> \<le> B \<Longrightarrow> sum_list (map (\<lambda>x. \<bar>the_real x\<bar>) xs) \<le> real (length xs) * B"
  by (induction xs) (auto simp: algebra_simps)

lemma sum_list_abs_the_real:
  "\<bar>sum_list (map the_real xs)\<bar> \<le> sum_list (map (\<lambda>x. \<bar>the_real x\<bar>) xs)"
  by (induction xs) auto

text \<open>
  On a list of moderate numbers the rounded mean is an integer within \<open>1/2 + 2 ^ -10\<close> of
  the exact mean.
\<close>

lemma mean64_error:
  assumes "moderate xs"
  shows "\<exists>k. Math_round (mean64 xs) = Finite (of_int k) \<and>
             \<bar>of_int k - exact_mean xs\<bar> \<le> 1 / 2 + 1 / 2 ^ 10"
proof -
  define n where "n = real (length xs)"
  define S where "S = sum_list (map the_real xs)"
  define A where "A = sum_list (map (\<lambda>x. \<bar>the_real x\<bar>) xs)"
  define e where "e = (1::real) / 2 ^ 13"
  define M where "M = (2::real) ^ 40"
  have err: "\<exists>y. round64 x = Finite y \<and> \<bar>y - x\<bar> \<le> e" if "\<bar>x\<bar> \<le> M" for x
    using that unfolding e_def M_def by (rule round64_error)
  have e: "0 \<le> e" "8 * e = 1 / 2 ^ 10"
    by (simp_all add: e_def)
  have ne: "xs \<noteq> []" and len: "length xs \<le> 2 ^ 19"
    and fin: "\<forall>x \<in> set xs. is_finite x" and small: "\<forall>x \<in> set xs. \<bar>the_real x\<bar> \<le> 2 ^ 20"
    using assms by (simp_all add: moderate_def)
  have n1: "1 \<le> n"
    using ne by (cases xs) (simp_all add: n_def)
  have "real (length xs) \<le> real (2 ^ 19)"
    using len by (simp only: of_nat_le_iff)
  then have n19: "n \<le> 2 ^ 19"
    by (simp add: n_def)
  have "A \<le> n * 2 ^ 20"
    unfolding n_def A_def by (rule sum_list_bounded [OF small])
  also have "\<dots> \<le> 2 ^ 19 * 2 ^ 20"
    using n19 by (intro mult_right_mono) simp_all
  finally have A39: "A \<le> M / 2"
    by (simp add: M_def)
  have S39: "\<bar>S\<bar> \<le> M / 2"
    unfolding S_def using sum_list_abs_the_real [of xs] A39 by (simp add: A_def)
  have "n * (3 * e) \<le> 2 ^ 19 * (3 * e)"
    using n19 e(1) by (intro mult_right_mono) simp_all
  also have "\<dots> \<le> M / 4"
    by (simp add: e_def M_def)
  finally have t: "n * (3 * e) \<le> M / 4" .
  have M: "1 \<le> M / 4"
    by (simp add: M_def)
  have "\<bar>0::real\<bar> + A + n * (3 * e) \<le> M"
    using A39 t M by linarith
  then have "\<bar>0::real\<bar> + sum_list (map (\<lambda>x. \<bar>the_real x\<bar>) xs) + real (length xs) * (3 * e) \<le> M"
    by (simp only: A_def n_def)
  from foldl_num_add_error [of M e, OF err e(1) fin this]
  obtain s where s: "foldl num_add (Finite 0) xs = Finite s" "\<bar>s - S\<bar> \<le> n * (3 * e)"
    by (auto simp: S_def n_def)
  have "\<bar>s\<bar> \<le> M"
    using s(2) S39 t M by linarith
  from err [OF this] obtain s' where s': "round64 s = Finite s'" "\<bar>s' - s\<bar> \<le> e"
    by blast
  have sS: "\<bar>s' - S\<bar> \<le> e + n * (3 * e)"
    using s(2) s'(2) by linarith
  have e1: "e \<le> 1"
    by (simp add: e_def)
  have "\<bar>s' / n\<bar> = \<bar>s'\<bar> / n"
    using n1 by (simp add: abs_divide)
  also have "\<dots> \<le> \<bar>s'\<bar> / 1"
    using n1 by (intro frac_le) simp_all
  also have "\<dots> \<le> M"
    using sS S39 t M e1 by simp
  finally have "\<bar>s' / n\<bar> \<le> M" .
  from err [OF this] obtain q where q: "round64 (s' / n) = Finite q" "\<bar>q - s' / n\<bar> \<le> e"
    by blast
  have "s' / n - S / n = (s' - S) / n"
    by (simp add: diff_divide_distrib)
  then have "\<bar>s' / n - S / n\<bar> = \<bar>s' - S\<bar> / n"
    using n1 by (simp add: abs_divide)
  also have "\<dots> \<le> (e + n * (3 * e)) / n"
    using sS n1 by (intro divide_right_mono) simp_all
  also have "\<dots> = e / n + 3 * e"
    using n1 by (simp add: add_divide_distrib)
  also have "e / n \<le> e / 1"
    using n1 e(1) by (intro frac_le) simp_all
  finally have "\<bar>s' / n - S / n\<bar> \<le> e + 3 * e"
    by simp
  with q(2) have qm: "\<bar>q - S / n\<bar> \<le> 8 * e"
    using e(1) by linarith
  have mean: "mean64 xs = Finite q"
    using ne by (simp add: mean64_def s(1) div_count_def binary64_def s'(1) q(1) [unfolded n_def])
  have "\<bar>real_of_int \<lfloor>q + 1 / 2\<rfloor> - q\<bar> \<le> 1 / 2"
    by linarith
  with qm have "\<bar>real_of_int \<lfloor>q + 1 / 2\<rfloor> - S / n\<bar> \<le> 1 / 2 + 8 * e"
    by linarith
  then have "\<bar>real_of_int \<lfloor>q + 1 / 2\<rfloor> - exact_mean xs\<bar> \<le> 1 / 2 + 1 / 2 ^ 10"
    unfolding exact_mean_def S_def [symmetric] n_def [symmetric] e(2) .
  then show ?thesis
    by (intro exI [of _ "\<lfloor>q + 1 / 2\<rfloor>"]) (simp add: mean)
qed

subsection \<open>The conversions on numbers and \<open>null\<close>\<close>

lemma and_then_Inr [simp]: "and_then (Inr x) f = f x"
  by (simp add: and_then_def)

lemma and_then_Inl [simp]: "and_then (Inl e) f = Inl e"
  by (simp add: and_then_def)

lemma all_of_Inr: "all_of (map (\<lambda>x. Inr (g x)) xs) = Inr (map g xs)"
  by (induction xs) simp_all

lemma numeric_conversions:
  assumes "numeric_field v"
  shows "ToPrimitive p v = Inr v"
    and "ToNumber p v = Inr (numeric_value v)"
    and "ToNumber_primitive p v = numeric_value v"
    and "\<not> is_string v"
  using assms by (cases v; simp add: ToPrimitive_def ToNumber_def)+

lemma ToPrimitive_Num [simp]: "ToPrimitive p (Num a) = Inr (Num a)"
  by (simp add: ToPrimitive_def)

lemma ToNumber_Num [simp]: "ToNumber p (Num a) = Inr a"
  by (simp add: ToNumber_def)

lemma filter_not_NaN_numeric:
  "\<forall>v \<in> set vs. numeric_field v \<Longrightarrow>
   filter_not_NaN p vs = Inr (filter (\<lambda>v. \<not> isNaN (numeric_value v)) vs)"
  by (induction vs) (simp_all add: numeric_conversions)

lemma js_add_numeric:
  "numeric_field v \<Longrightarrow> js_add p (Num a) v = Inr (Num (num_add a (numeric_value v)))"
  by (simp add: js_add_def numeric_conversions)

lemma reduce_add_numeric:
  "\<forall>v \<in> set vs. numeric_field v \<Longrightarrow>
   reduce_add p (Num a) vs = Inr (Num (foldl num_add a (map numeric_value vs)))"
  by (induction vs arbitrary: a) (simp_all add: js_add_numeric)

lemma ToNumber_all_numeric:
  "\<forall>v \<in> set vs. numeric_field v \<Longrightarrow> all_of (map (ToNumber p) vs) = Inr (map numeric_value vs)"
  by (induction vs) (simp_all add: numeric_conversions)

lemma average_numeric:
  assumes "\<forall>v \<in> set vs. numeric_field v"
  shows "average p vs = Inr (rounded_mean (map numeric_value vs))"
  using assms
  by (simp add: average_def reduce_add_numeric rounded_mean_def mean64_def)

lemma Math_min_of_numeric:
  "\<forall>v \<in> set vs. numeric_field v \<Longrightarrow> Math_min_of p vs = Inr (Num (Math_min (map numeric_value vs)))"
  by (simp add: Math_min_of_def ToNumber_all_numeric)

lemma Math_max_of_numeric:
  "\<forall>v \<in> set vs. numeric_field v \<Longrightarrow> Math_max_of p vs = Inr (Num (Math_max (map numeric_value vs)))"
  by (simp add: Math_max_of_def ToNumber_all_numeric)

lemma kept_values:
  "map numeric_value (filter (\<lambda>v. \<not> isNaN (numeric_value v)) (map (\<lambda>r. get r k) rs)) =
   filter (\<lambda>v. \<not> isNaN v) (map (\<lambda>r. numeric_value (get r k)) rs)"
  by (induction rs) simp_all

lemma read_all:
  assumes "\<forall>r \<in> set rs. r \<noteq> Null \<and> r \<noteq> Undefined"
  shows "all_of (map (\<lambda>r. read_prop r k) rs) = Inr (map (\<lambda>r. get r k) rs)"
proof -
  have "map (\<lambda>r. read_prop r k) rs = map (\<lambda>r. Inr (get r k)) rs"
    using assms by (intro map_cong) (simp_all add: read_prop_def)
  then show ?thesis
    by (simp only: all_of_Inr)
qed

lemma get_defined: "get v k \<noteq> Undefined \<Longrightarrow> v \<noteq> Null \<and> v \<noteq> Undefined"
  by (cases v) (simp_all add: get_def)

subsection \<open>The statistics of a session of numbers\<close>

lemma getStats_doc_numeric:
  assumes "numeric_session s"
  shows "getStats_doc p s =
     Inr (if entries s = [] then
            Obj [(''totalReadings'', Num (Finite 0)),
                 (''sessionStart'', Null),
                 (''avgHeartRate'', Null),
                 (''avgSpO2'', Null),
                 (''maxSquats'', Num (Finite 0))]
          else
            Obj [(''totalReadings'', Num (Finite (real (length (entries s))))),
                 (''sessionStart'', get (get s ''metadata'') ''sessionStart''),
                 (''avgHeartRate'', rounded_mean (counted ''heartRate'' s)),
                 (''avgSpO2'', rounded_mean (counted ''spO2'' s)),
                 (''maxSquats'', Num (Math_max (values_of ''squatCount'' s))),
                 (''minHeartRate'',
                  if counted ''heartRate'' s = [] then Null
                  else Num (Math_min (counted ''heartRate'' s))),
                 (''maxHeartRate'',
                  if counted ''heartRate'' s = [] then Null
                  else Num (Math_max (counted ''heartRate'' s)))])"
proof -
  define rs where "rs = entries s"
  have d: "get s ''data'' = Arr rs []"
    and fields: "\<forall>r \<in> set rs. numeric_field (get r ''heartRate'') \<and>
                   numeric_field (get r ''spO2'') \<and> numeric_field (get r ''squatCount'')"
    and md: "rs = [] \<or> (get s ''metadata'' \<noteq> Null \<and> get s ''metadata'' \<noteq> Undefined)"
    using assms by (simp_all add: numeric_session_def rs_def)
  have "get s ''data'' \<noteq> Undefined"
    by (simp add: d)
  then have s: "s \<noteq> Null \<and> s \<noteq> Undefined"
    by (rule get_defined)
  have rd: "read_prop s ''data'' = Inr (Arr rs [])" and rm: "read_prop s ''metadata'' = Inr (get s ''metadata'')"
    using s by (simp_all add: read_prop_def d)
  have len: "length_of (Arr rs []) = Inr (Num (Finite (real (length rs))))"
    by simp
  have objects: "\<forall>r \<in> set rs. r \<noteq> Null \<and> r \<noteq> Undefined"
  proof
    fix r assume "r \<in> set rs"
    with fields have "numeric_field (get r ''heartRate'')"
      by simp
    then have "get r ''heartRate'' \<noteq> Undefined"
      by auto
    then show "r \<noteq> Null \<and> r \<noteq> Undefined"
      by (rule get_defined)
  qed
  define hs where "hs = map (\<lambda>r. get r ''heartRate'') rs"
  define ss where "ss = map (\<lambda>r. get r ''spO2'') rs"
  define qs where "qs = map (\<lambda>r. get r ''squatCount'') rs"
  define hk where "hk = filter (\<lambda>v. \<not> isNaN (numeric_value v)) hs"
  define sk where "sk = filter (\<lambda>v. \<not> isNaN (numeric_value v)) ss"
  have nh: "\<forall>v \<in> set hs. numeric_field v" and ns: "\<forall>v \<in> set ss. numeric_field v"
    and nq: "\<forall>v \<in> set qs. numeric_field v"
    using fields by (simp_all add: hs_def ss_def qs_def)
  have nhk: "\<forall>v \<in> set hk. numeric_field v" and nsk: "\<forall>v \<in> set sk. numeric_field v"
    using nh ns by (simp_all add: hk_def sk_def)
  have fh: "filter_not_NaN p hs = Inr hk" and fs: "filter_not_NaN p ss = Inr sk"
    by (simp_all add: hk_def sk_def filter_not_NaN_numeric nh ns)
  have vh: "map numeric_value hk = counted ''heartRate'' s"
    and vs: "map numeric_value sk = counted ''spO2'' s"
    and vq: "map numeric_value qs = values_of ''squatCount'' s"
    unfolding hk_def sk_def hs_def ss_def qs_def counted_def values_of_def rs_def [symmetric]
    by (simp_all only: kept_values map_map o_def)
  have eh: "hk = [] \<longleftrightarrow> counted ''heartRate'' s = []"
    unfolding vh [symmetric] by simp
  have ah: "average p hk = Inr (rounded_mean (counted ''heartRate'' s))"
    and as: "average p sk = Inr (rounded_mean (counted ''spO2'' s))"
    by (simp_all only: average_numeric [OF nhk] average_numeric [OF nsk] vh vs)
  have mq: "Math_max_of p qs = Inr (Num (Math_max (values_of ''squatCount'' s)))"
    by (simp only: Math_max_of_numeric [OF nq] vq)
  have mh: "Math_min_of p hk = Inr (Num (Math_min (counted ''heartRate'' s)))"
      "Math_max_of p hk = Inr (Num (Math_max (counted ''heartRate'' s)))"
    by (simp_all only: Math_min_of_numeric [OF nhk] Math_max_of_numeric [OF nhk] vh)
  show ?thesis
  proof (cases "rs = []")
    case True
    then show ?thesis
      by (simp add: getStats_doc_def rd rs_def [symmetric])
  next
    case False
    with md have "get s ''metadata'' \<noteq> Null \<and> get s ''metadata'' \<noteq> Undefined"
      by simp
    then have rstart: "read_prop (get s ''metadata'') ''sessionStart'' =
                         Inr (get (get s ''metadata'') ''sessionStart'')"
      by (simp add: read_prop_def)
    have qne: "qs \<noteq> []"
      using False by (simp add: qs_def)
    show ?thesis
      unfolding getStats_doc_def rd and_then_Inr len
      using False qne
      by (simp add: read_all [OF objects]
            hs_def [symmetric] ss_def [symmetric] qs_def [symmetric]
            fh fs rm rstart ah as mq mh eh rs_def [symmetric])
  qed
qed

subsection \<open>Recorded sessions, in this visit and after a reload\<close>

lemma get_js_of_reading:
  "get (js_of_reading r) ''heartRate'' = Num (heartRate r)"
  "get (js_of_reading r) ''spO2'' = Num (spO2 r)"
  "get (js_of_reading r) ''squatCount'' = Num (squatCount r)"
  by (simp_all add: js_of_reading_def get_Obj)

lemma get_toJSON_reading:
  "get (toJSON (js_of_reading r)) ''heartRate'' = toJSON (Num (heartRate r))"
  "get (toJSON (js_of_reading r)) ''spO2'' = toJSON (Num (spO2 r))"
  "get (toJSON (js_of_reading r)) ''squatCount'' = toJSON (Num (squatCount r))"
  unfolding toJSON_reading by (simp_all add: get_Obj)

lemma get_js_of_session:
  "get (js_of_session ss) ''data'' = Arr (map js_of_reading (data ss)) []"
  "get (js_of_session ss) ''metadata'' = js_of_metadata (metadata ss)"
  by (simp_all add: js_of_session_def get_Obj)

lemma toJSON_metadata: "\<exists>ps. toJSON (js_of_metadata md) = Obj ps"
  by (simp add: js_of_metadata_def)

lemma get_toJSON_session:
  "get (toJSON (js_of_session ss)) ''metadata'' = toJSON (js_of_metadata (metadata ss))"
  by (simp add: js_of_session_def get_Obj js_of_metadata_defined del: toJSON.simps(4))

lemma numeric_toJSON_Num: "numeric_field (toJSON (Num n))"
  by (cases n) simp_all

text \<open>
  The session of a manager is a session of numbers; its entries are the readings of the
  buffer.
\<close>

lemma entries_js_of_session: "entries (js_of_session ss) = map js_of_reading (data ss)"
  by (simp add: entries_def get_js_of_session)

lemma numeric_js_of_session: "numeric_session (js_of_session ss)"
  by (simp add: numeric_session_def entries_js_of_session get_js_of_session get_js_of_reading
        js_of_metadata_def)

lemma session_of_numbers_numeric: "session_of_numbers s \<Longrightarrow> numeric_session s"
proof -
  have "numeric_field v" if "is_number v" for v
    using that by (cases v) simp_all
  then show "session_of_numbers s \<Longrightarrow> numeric_session s"
    unfolding session_of_numbers_def numeric_session_def by blast
qed

lemma session_of_numbers_js_of_session: "session_of_numbers (js_of_session ss)"
  by (simp add: session_of_numbers_def entries_js_of_session get_js_of_session get_js_of_reading
        js_of_metadata_def)

lemma values_of_js_of_session:
  "values_of ''heartRate'' (js_of_session ss) = map heartRate (data ss)"
  "values_of ''spO2'' (js_of_session ss) = map spO2 (data ss)"
  "values_of ''squatCount'' (js_of_session ss) = map squatCount (data ss)"
  by (simp_all add: values_of_def entries_js_of_session get_js_of_reading o_def)

text \<open>
  So is the session found at the next visit, when the last write succeeded; a number that
  was not finite is \<open>null\<close> in it, and counts as 0.
\<close>

lemma load_persisted:
  "loadSessionData (Some (JSON_stringify (js_of_session ss))) = toJSON (js_of_session ss)"
proof -
  define v where "v = toJSON (js_of_session ss)"
  have d: "get v ''data'' = Arr (map (\<lambda>r. toJSON (js_of_reading r)) (data ss)) []"
    unfolding v_def by (rule persisted_data)
  then have "get v ''data'' \<noteq> Undefined"
    by simp
  then have "v \<noteq> Null \<and> v \<noteq> Undefined"
    by (rule get_defined)
  then have "read_prop v ''data'' = Inr (Arr (map (\<lambda>r. toJSON (js_of_reading r)) (data ss)) [])"
    by (simp add: read_prop_def d)
  then show ?thesis
    unfolding JSON_stringify_def v_def [symmetric]
    by (simp add: loadSessionData_def loadSessionData_try_def)
qed

lemma entries_persisted:
  "entries (toJSON (js_of_session ss)) = map (\<lambda>r. toJSON (js_of_reading r)) (data ss)"
  by (simp add: entries_def persisted_data)

lemma numeric_persisted: "numeric_session (toJSON (js_of_session ss))"
proof -
  obtain ps where "toJSON (js_of_metadata (metadata ss)) = Obj ps"
    using toJSON_metadata by blast
  then show ?thesis
    by (simp add: numeric_session_def entries_persisted persisted_data get_toJSON_reading
          get_toJSON_session numeric_toJSON_Num del: toJSON.simps)
qed

lemma numeric_value_toJSON: "numeric_value (toJSON (Num n)) = reloaded_value n"
  by (cases n) (simp_all add: reloaded_value_def)

lemma values_of_persisted:
  "values_of ''heartRate'' (toJSON (js_of_session ss)) = map (\<lambda>r. reloaded_value (heartRate r)) (data ss)"
  "values_of ''spO2'' (toJSON (js_of_session ss)) = map (\<lambda>r. reloaded_value (spO2 r)) (data ss)"
  "values_of ''squatCount'' (toJSON (js_of_session ss)) = map (\<lambda>r. reloaded_value (squatCount r)) (data ss)"
  by (simp_all add: values_of_def entries_persisted get_toJSON_reading o_def numeric_value_toJSON
        del: toJSON.simps)

text \<open>
  On the session of a manager \<open>getStats_doc\<close> returns the object that \<open>getStats\<close>
  describes.
\<close>

lemma getStats_doc_recorded:
  "getStats_doc p (js_of_session (sessionData sm)) = Inr (js_of_stats (getStats sm))"
proof (cases "data (sessionData sm) = []")
  case True
  then show ?thesis
    by (simp add: getStats_doc_numeric [OF numeric_js_of_session] entries_js_of_session
          getStats_empty js_of_stats_def js_of_nat_def js_of_instant_def)
next
  case False
  note st = getStats_nonempty [OF False]
  have c: "counted ''heartRate'' (js_of_session (sessionData sm)) =
             filter (\<lambda>v. \<not> isNaN v) (map heartRate (data (sessionData sm)))"
      "counted ''spO2'' (js_of_session (sessionData sm)) =
             filter (\<lambda>v. \<not> isNaN v) (map spO2 (data (sessionData sm)))"
    by (simp_all only: counted_def values_of_js_of_session)
  have start: "get (get (js_of_session (sessionData sm)) ''metadata'') ''sessionStart'' =
                 js_of_instant (sessionStart (metadata (sessionData sm)))"
    by (simp add: get_js_of_session js_of_metadata_def get_Obj)
  have total: "stats_totalReadings (getStats sm) = length (data (sessionData sm))"
    and sst: "stats_sessionStart (getStats sm) = sessionStart (metadata (sessionData sm))"
    using False by (simp_all add: getStats_def Let_def)
  have inst: "js_of_instant t \<noteq> Undefined" for t
    by (cases t) (simp_all add: js_of_instant_def js_of_nat_def)
  show ?thesis
    unfolding getStats_doc_numeric [OF numeric_js_of_session] js_of_stats_def
    using False
    by (simp add: entries_js_of_session c start st total sst Let_def rounded_mean_def mean64_def
          reduce_sum_def values_of_js_of_session js_of_nat_def inst)
qed

lemma localStorage_saveReading:
  assumes "quota (setItemCalls sm) = Written"
  shows "localStorage (saveReading quota now isoText p sm) =
           Some (JSON_stringify (js_of_session (sessionData (saveReading quota now isoText p sm))))"
proof -
  have w: "localStorage (persist quota x) = Some (JSON_stringify (js_of_session (sessionData (persist quota x))))"
    if "quota (setItemCalls x) = Written" for x
    using persist_no_quota [of quota x] that by simp
  show ?thesis
    unfolding saveReading_def Let_def by (rule w) (simp add: assms)
qed

lemma whole_numbers_example: "whole_numbers [Finite 0, Finite 80]"
  by (simp add: whole_numbers_def)

subsection \<open>Rounding in the average\<close>

text \<open>
  Rounding is visible in the average.  The heart rates 96.5, 105.2, 74.1 and 94.2 have the
  mean 92.5, which rounds to 93; read as binary64 numbers and added in that order they
  sum to \<open>369.99999999999994\<close>, the quotient by 4 is \<open>92.49999999999999\<close>, and the average
  returned is 92.
\<close>

lemma rounded_mean_binary64:
  "rounded_mean [Finite (965 / 10), Finite (1052 / 10), Finite (741 / 10), Finite (942 / 10)] =
     Num (Finite 92)"
proof -
  have r1: "round64 (193 / 2) =
              Finite (193 / 2)"
    using round64_binade [of 6 "193 / 2"]
    by (simp add: round_half_even_def Let_def)
  have r2: "round64 (526 / 5) =
              Finite (7402791887490253 / 70368744177664)"
    using round64_binade [of 6 "526 / 5"]
    by (simp add: round_half_even_def Let_def)
  have r3: "round64 (741 / 10) =
              Finite (2607161971782451 / 35184372088832)"
    using round64_binade [of 6 "741 / 10"]
    by (simp add: round_half_even_def Let_def)
  have r4: "round64 (471 / 5) =
              Finite (6628735701535949 / 70368744177664)"
    using round64_binade [of 6 "471 / 5"]
    by (simp add: round_half_even_def Let_def)
  have r5: "round64 (14193375700634829 / 70368744177664) =
              Finite (3548343925158707 / 17592186044416)"
    using round64_binade [of 7 "14193375700634829 / 70368744177664"]
    by (simp add: round_half_even_def Let_def)
  have r6: "round64 (9703849822099865 / 35184372088832) =
              Finite (1212981227762483 / 4398046511104)"
    using round64_binade [of 8 "9703849822099865 / 35184372088832"]
    by (simp add: round_half_even_def Let_def)
  have r7: "round64 (26036435345735677 / 70368744177664) =
              Finite (6509108836433919 / 17592186044416)"
    using round64_binade [of 8 "26036435345735677 / 70368744177664"]
    by (simp add: round_half_even_def Let_def)
  have r8: "round64 (6509108836433919 / 70368744177664) =
              Finite (6509108836433919 / 70368744177664)"
    using round64_binade [of 6 "6509108836433919 / 70368744177664"]
    by (simp add: round_half_even_def Let_def)
  note idem =
    round64_idem [OF r1] round64_idem [OF r2] round64_idem [OF r3] round64_idem [OF r4]
    round64_idem [OF r5] round64_idem [OF r6] round64_idem [OF r7] round64_idem [OF r8]
  have zero: "round64 0 = Finite 0"
    by (simp add: round64_def)
  show ?thesis
    by (simp add: rounded_mean_def mean64_def num_add_def div_count_def binary64_def zero
          r1 r2 r3 r4 r5 r6 r7 r8 idem)
qed

lemma exact_mean_of_example: "\<lfloor>(965 / 10 + 1052 / 10 + 741 / 10 + 942 / 10) / 4 + 1 / (2::real)\<rfloor> = 93"
  by simp

lemma getStats_binary64_example:
  "avgHeartRate (getStats (StorageManager\<lparr>sessionData :=
      example_session [Finite (965 / 10), Finite (1052 / 10), Finite (741 / 10), Finite (942 / 10)]\<rparr>)) =
   Num (Finite 92)"
proof -
  let ?hs = "[Finite (965 / 10), Finite (1052 / 10), Finite (741 / 10), Finite (942 / 10)]"
  have "filter (\<lambda>v. \<not> isNaN v) (map heartRate (data (example_session ?hs))) = ?hs"
    by (simp add: example_session_def reading_at_def)
  then have "avgHeartRate (getStats (StorageManager\<lparr>sessionData := example_session ?hs\<rparr>)) =
               rounded_mean ?hs"
    by (simp add: getStats_def Let_def rounded_mean_def mean64_def reduce_sum_def
          example_session_def)
  then show ?thesis
    by (simp only: rounded_mean_binary64)
qed

subsection \<open>What \<^verbatim>\<open>getStats\<close> returns on a session of numbers\<close>

text \<open>
  C6 (amended).  On a session of numbers --- \<open>data\<close> an array of readings whose heart
  rate, SpO2 and squat count are numbers, with a \<open>metadata\<close> unless the array is empty, as
  is every session that a manager builds by recording validated payloads --- \<^verbatim>\<open>getStats\<close>
  returns an object, computed from the buffer and the start of the session alone, in
  which \<open>totalReadings\<close> is the length of the buffer.  On an empty buffer that object is
  the literal with \<open>totalReadings\<close> and \<open>maxSquats\<close> 0 and with \<open>sessionStart\<close>,
  \<open>avgHeartRate\<close> and \<open>avgSpO2\<close> \<open>null\<close>, in which \<open>minHeartRate\<close> and \<open>maxHeartRate\<close> are
  absent.  On a non-empty buffer the two averages are the rounded means of the heart
  rates and of the SpO2 values that are not \<open>NaN\<close> (\<open>null\<close> when there is none), the mean
  being the binary64 sum of the entries in the order of the buffer divided in binary64
  by their count, and rounded to the nearest integer, a half rounding up; when the
  entries are whole numbers, of absolute values that sum to less than \<open>2 ^ 52\<close>, the
  average is the exact mean so rounded, and when they are at most \<open>2 ^ 19\<close> finite
  numbers, each at most \<open>2 ^ 20\<close> in absolute value, the average is an integer within
  \<open>1/2 + 2 ^ -10\<close> of the exact mean.  \<open>minHeartRate\<close> and \<open>maxHeartRate\<close> are a least
  and a greatest of those heart rates (\<open>null\<close> when there is none), and \<open>maxSquats\<close> is a
  greatest squat count (\<open>NaN\<close> when one of the counts is \<open>NaN\<close>).
\<close>

theorem getStats_returns_aggregates:
  assumes "session_of_numbers s"
  shows "\<exists>st. getStats_doc p s = Inr st \<and>
     get st ''totalReadings'' = Num (Finite (real (length (entries s)))) \<and>
     (if entries s = [] then
        st = Obj [(''totalReadings'', Num (Finite 0)),
                  (''sessionStart'', Null),
                  (''avgHeartRate'', Null),
                  (''avgSpO2'', Null),
                  (''maxSquats'', Num (Finite 0))]
      else
        get st ''sessionStart'' = get (get s ''metadata'') ''sessionStart'' \<and>
        get st ''avgHeartRate'' = rounded_mean (counted ''heartRate'' s) \<and>
        get st ''avgSpO2'' = rounded_mean (counted ''spO2'' s) \<and>
        (whole_numbers (counted ''heartRate'' s) \<longrightarrow>
           get st ''avgHeartRate'' = exact_rounded_mean (counted ''heartRate'' s)) \<and>
        (whole_numbers (counted ''spO2'' s) \<longrightarrow>
           get st ''avgSpO2'' = exact_rounded_mean (counted ''spO2'' s)) \<and>
        (moderate (counted ''heartRate'' s) \<longrightarrow>
           (\<exists>k. get st ''avgHeartRate'' = Num (Finite (of_int k)) \<and>
                \<bar>of_int k - exact_mean (counted ''heartRate'' s)\<bar> \<le> 1 / 2 + 1 / 2 ^ 10)) \<and>
        (moderate (counted ''spO2'' s) \<longrightarrow>
           (\<exists>k. get st ''avgSpO2'' = Num (Finite (of_int k)) \<and>
                \<bar>of_int k - exact_mean (counted ''spO2'' s)\<bar> \<le> 1 / 2 + 1 / 2 ^ 10)) \<and>
        (if counted ''heartRate'' s = [] then
           get st ''minHeartRate'' = Null \<and> get st ''maxHeartRate'' = Null
         else
           \<exists>lo hi. get st ''minHeartRate'' = Num lo \<and> is_min_of lo (counted ''heartRate'' s) \<and>
                   get st ''maxHeartRate'' = Num hi \<and> is_max_of hi (counted ''heartRate'' s)) \<and>
        (\<exists>m. get st ''maxSquats'' = Num m \<and>
             (if NaN \<in> set (values_of ''squatCount'' s) then m = NaN
              else is_max_of m (values_of ''squatCount'' s))))"
proof (cases "entries s = []")
  note numeric = session_of_numbers_numeric [OF assms]
  case True
  then show ?thesis
    by (simp add: getStats_doc_numeric [OF numeric] get_Obj)
next
  case False
  let ?hs = "counted ''heartRate'' s"
  let ?ss = "counted ''spO2'' s"
  let ?qs = "values_of ''squatCount'' s"
  define st where "st = Obj [(''totalReadings'', Num (Finite (real (length (entries s))))),
                  (''sessionStart'', get (get s ''metadata'') ''sessionStart''),
                  (''avgHeartRate'', rounded_mean ?hs),
                  (''avgSpO2'', rounded_mean ?ss),
                  (''maxSquats'', Num (Math_max ?qs)),
                  (''minHeartRate'', if ?hs = [] then Null else Num (Math_min ?hs)),
                  (''maxHeartRate'', if ?hs = [] then Null else Num (Math_max ?hs))]"
  have st: "getStats_doc p s = Inr st"
    using False by (simp add: getStats_doc_numeric [OF session_of_numbers_numeric [OF assms]] st_def)
  have props: "get st ''totalReadings'' = Num (Finite (real (length (entries s))))"
      "get st ''sessionStart'' = get (get s ''metadata'') ''sessionStart''"
      "get st ''avgHeartRate'' = rounded_mean ?hs"
      "get st ''avgSpO2'' = rounded_mean ?ss"
      "get st ''maxSquats'' = Num (Math_max ?qs)"
      "get st ''minHeartRate'' = (if ?hs = [] then Null else Num (Math_min ?hs))"
      "get st ''maxHeartRate'' = (if ?hs = [] then Null else Num (Math_max ?hs))"
    by (simp_all add: get_Obj st_def)
  have exact: "whole_numbers xs \<longrightarrow> rounded_mean xs = exact_rounded_mean xs" for xs
    using mean64_whole [of xs] by (simp add: rounded_mean_def whole_numbers_def)
  have near: "moderate xs \<longrightarrow>
                (\<exists>k. rounded_mean xs = Num (Finite (of_int k)) \<and>
                     \<bar>of_int k - exact_mean xs\<bar> \<le> 1 / 2 + 1 / 2 ^ 10)" for xs
    using mean64_error [of xs] by (auto simp: rounded_mean_def moderate_def)
  have range: "if ?hs = [] then get st ''minHeartRate'' = Null \<and> get st ''maxHeartRate'' = Null
               else \<exists>lo hi. get st ''minHeartRate'' = Num lo \<and> is_min_of lo ?hs \<and>
                            get st ''maxHeartRate'' = Num hi \<and> is_max_of hi ?hs"
  proof (cases "?hs = []")
    case True
    then show ?thesis by (simp add: props(6,7))
  next
    case some: False
    have "NaN \<notin> set ?hs"
      unfolding counted_def by (rule NaN_filtered)
    then have "is_min_of (Math_min ?hs) ?hs" "is_max_of (Math_max ?hs) ?hs"
      using some by (simp_all only: Math_min_is_min Math_max_is_max not_False_eq_True)
    with some show ?thesis
      by (simp add: props(6,7))
  qed
  have qs: "?qs \<noteq> []"
    using False by (simp add: values_of_def)
  have squats: "\<exists>m. get st ''maxSquats'' = Num m \<and>
                    (if NaN \<in> set ?qs then m = NaN else is_max_of m ?qs)"
  proof (cases "NaN \<in> set ?qs")
    case True
    then have "Math_max ?qs = NaN"
      unfolding Math_max_def by (rule Math_max_NaN)
    with True show ?thesis
      by (simp add: props(5))
  next
    case False
    from Math_max_is_max [OF qs False] False show ?thesis
      by (simp add: props(5))
  qed
  show ?thesis
    unfolding st
    using False props(1-4) exact [of ?hs] exact [of ?ss] near [of ?hs] near [of ?ss] range squats
    by (intro exI [of _ st]) simp
qed

theorem getStats_returns_aggregates_witness:
  "session_of_numbers (js_of_session (example_session [Finite 70, NaN, Finite 75])) \<and>
   (\<forall>p. \<exists>st. getStats_doc p (js_of_session (example_session [Finite 70, NaN, Finite 75])) = Inr st \<and>
            get st ''totalReadings'' = Num (Finite 3) \<and>
            get st ''avgHeartRate'' = Num (Finite 73) \<and>
            get st ''avgSpO2'' = Num (Finite 97))"
proof (intro conjI allI)
  let ?s = "js_of_session (example_session [Finite 70, NaN, Finite 75])"
  show n: "session_of_numbers ?s"
    by (rule session_of_numbers_js_of_session)
  fix p
  have e: "entries ?s \<noteq> []" "length (entries ?s) = 3"
    by (simp_all add: entries_js_of_session example_session_def)
  have h: "counted ''heartRate'' ?s = [Finite 70, Finite 75]"
    and o: "counted ''spO2'' ?s = [Finite 97, Finite 97, Finite 97]"
    by (simp_all add: counted_def values_of_js_of_session example_session_def reading_at_def
          example_payload_def)
  have w: "whole_numbers [Finite 70, Finite 75]"
      "whole_numbers [Finite 97, Finite 97, Finite 97]"
    by (simp_all add: whole_numbers_def)
  have m: "exact_rounded_mean [Finite 70, Finite 75] = Num (Finite 73)"
      "exact_rounded_mean [Finite 97, Finite 97, Finite 97] = Num (Finite 97)"
    by (simp_all add: exact_rounded_mean_def exact_mean_def)
  from getStats_returns_aggregates [OF n, of p]
  show "\<exists>st. getStats_doc p ?s = Inr st \<and>
            get st ''totalReadings'' = Num (Finite 3) \<and>
            get st ''avgHeartRate'' = Num (Finite 73) \<and>
            get st ''avgSpO2'' = Num (Finite 97)"
    unfolding h o using e w m by auto
qed

text \<open>
  As stated C6 fails in three ways.  The statistics of the empty session have \<open>maxSquats\<close>
  and \<open>totalReadings\<close> 0, not \<open>null\<close> or \<open>undefined\<close>.  An entry that is not a number is
  not always ignored: a heart rate \<open>Infinity\<close> (the payload \<^verbatim>\<open>{"heartRate": 1e999, ...}\<close>
  passes the validator) is written as \<open>null\<close>, and at the next visit that \<open>null\<close> is
  counted as a heart rate of 0, so that with one more reading of 80 the average is 40
  and the minimum 0.  And the call throws on the session loaded from a stored document
  that has a reading but no \<open>metadata\<close>.
\<close>

theorem getStats_not_as_claimed:
  "(\<forall>p. \<exists>st. getStats_doc p (loadSessionData None) = Inr st \<and>
          get st ''maxSquats'' = Num (Finite 0) \<and> get st ''totalReadings'' = Num (Finite 0)) \<and>
   (\<forall>p. \<exists>st. getStats_doc p
            (loadSessionData (localStorage (record_all (\<lambda>i. Written) StorageManager
               [(0, [], example_payload\<lparr>heartRate := Infinity\<rparr>),
                (500, [], example_payload\<lparr>heartRate := Finite 80\<rparr>)]))) = Inr st \<and>
          get st ''avgHeartRate'' = Num (Finite 40) \<and>
          get st ''minHeartRate'' = Num (Finite 0)) \<and>
   (\<forall>p. getStats_doc p
         (loadSessionData (Some (Document
            (Obj [(''data'', Arr [js_of_reading (reading_at 0 [] example_payload)] [])])))) =
       Inl TypeError)"
proof (intro conjI allI)
  fix p
  show "\<exists>st. getStats_doc p (loadSessionData None) = Inr st \<and>
          get st ''maxSquats'' = Num (Finite 0) \<and> get st ''totalReadings'' = Num (Finite 0)"
    by (simp add: loadSessionData_def loadSessionData_try_def default_session_def
          getStats_doc_def read_prop_def get_Obj)
next
  fix p
  let ?inputs = "[(0, [], example_payload\<lparr>heartRate := Infinity\<rparr>),
                  (500, [], example_payload\<lparr>heartRate := Finite 80\<rparr>)]"
  let ?sm = "record_all (\<lambda>i. Written) StorageManager ?inputs"
  let ?s = "toJSON (js_of_session (sessionData ?sm))"
  have "data (sessionData ?sm) =
          slice_last maxStorageItems (data (sessionData StorageManager) @ map reading_of ?inputs)"
    by (rule record_all_written [THEN conjunct1]) (simp_all add: StorageManager_def empty_session_def)
  then have d: "data (sessionData ?sm) =
                  [reading_at 0 [] (example_payload\<lparr>heartRate := Infinity\<rparr>),
                   reading_at 500 [] (example_payload\<lparr>heartRate := Finite 80\<rparr>)]"
    by (simp add: StorageManager_def empty_session_def reading_of_def slice_last_def
          maxStorageItems_def)
  have "localStorage ?sm = Some (JSON_stringify (js_of_session (sessionData ?sm)))"
    unfolding record_all_Cons record_all_Nil by (rule localStorage_saveReading) simp
  then have load: "loadSessionData (localStorage ?sm) = ?s"
    by (simp only: load_persisted)
  have e: "entries ?s \<noteq> []"
    by (simp add: entries_persisted d)
  have c: "counted ''heartRate'' ?s = [Finite 0, Finite 80]"
    by (simp add: counted_def values_of_persisted d reloaded_value_def reading_at_def)
  have avg: "rounded_mean [Finite 0, Finite 80] = Num (Finite 40)"
    using mean64_whole [OF whole_numbers_example]
    by (simp add: rounded_mean_def exact_rounded_mean_def exact_mean_def)
  have lo: "Math_min [Finite 0, Finite 80] = Finite 0"
    by (simp add: Math_min_def min2_def)
  show "\<exists>st. getStats_doc p (loadSessionData (localStorage ?sm)) = Inr st \<and>
          get st ''avgHeartRate'' = Num (Finite 40) \<and> get st ''minHeartRate'' = Num (Finite 0)"
    unfolding load getStats_doc_numeric [OF numeric_persisted]
    using e by (simp add: c avg lo get_Obj)
next
  fix p
  show "getStats_doc p
         (loadSessionData (Some (Document
            (Obj [(''data'', Arr [js_of_reading (reading_at 0 [] example_payload)] [])])))) =
       Inl TypeError"
    by (simp add: loadSessionData_def loadSessionData_try_def read_prop_def get_Obj
          getStats_doc_def js_of_reading_def)
qed

end
